(* ===== verification/Prelude.thy ===== *)
theory Prelude
  imports Main
begin

text \<open>
  Shared vocabulary of the development: the names of the identifier types of the
  relational store, the collection of rewrite rules the component theories feed, and
  generic facts on lists (stable sorting, filtering, row replacement) that every
  component uses when it reasons about query results.
\<close>

section \<open>Identifiers\<close>

text \<open>Every table of the store has an auto-increment primary key.\<close>

type_synonym user_id = nat
type_synonym group_id = nat
type_synonym post_id = nat
type_synonym comment_id = nat
type_synonym follow_id = nat

text \<open>Server time, as read by \<open>auto_now_add\<close> fields.\<close>

type_synonym timestamp = nat

section \<open>Rule collections\<close>

text \<open>
  \<open>orm_simps\<close> collects the equations of the store operations of the model layer,
  \<open>view_simps\<close> the unfolding of the request handlers; component proofs use them with
  \<open>simp add:\<close>.
\<close>

named_theorems orm_simps "equations of the ORM operations"
named_theorems view_simps "unfolding of the request handlers"

section \<open>Python strings\<close>

text \<open>
  \<open>str.strip()\<close> removes leading and trailing whitespace; the ASCII whitespace
  characters of Python are space, tab, newline, carriage return, vertical tab and
  form feed.
\<close>

definition py_whitespace :: "char \<Rightarrow> bool" where
  "py_whitespace c \<longleftrightarrow> c \<in> {CHR '' '', CHR 0x09, CHR 0x0A, CHR 0x0B, CHR 0x0C, CHR 0x0D}"

definition py_strip :: "string \<Rightarrow> string" where
  "py_strip s = rev (dropWhile py_whitespace (rev (dropWhile py_whitespace s)))"

text \<open>Replacing the row with a given key, as an SQL \<open>UPDATE ... WHERE pk = k\<close> does.\<close>

definition replace_row :: "('a \<Rightarrow> 'k) \<Rightarrow> 'k \<Rightarrow> 'a \<Rightarrow> 'a list \<Rightarrow> 'a list" where
  "replace_row key k r xs = map (\<lambda>x. if key x = k then r else x) xs"

lemma all_dropWhile_iff: "(\<forall>x\<in>set (dropWhile P xs). P x) \<longleftrightarrow> dropWhile P xs = []"
proof (cases "dropWhile P xs")
  case (Cons y ys)
  then have "\<not> P y" using hd_dropWhile [of P xs] by simp
  with Cons show ?thesis by auto
qed (auto dest: set_dropWhileD)

lemma py_strip_empty_iff [simp]:
  "py_strip s = [] \<longleftrightarrow> (\<forall>c\<in>set s. py_whitespace c)"
proof -
  have "py_strip s = [] \<longleftrightarrow> (\<forall>c\<in>set (dropWhile py_whitespace s). py_whitespace c)"
    by (simp add: py_strip_def dropWhile_eq_Nil_conv)
  then show ?thesis by (simp only: all_dropWhile_iff dropWhile_eq_Nil_conv)
qed

section \<open>Sets\<close>

lemma image_Collect_compl:
  "k \<in> f ` A \<Longrightarrow> k \<notin> f ` {x\<in>A. P x} \<Longrightarrow> k \<in> f ` {x\<in>A. \<not> P x}"
  by blast

section \<open>Lists as tables\<close>

text \<open>
  A table is a list of rows in primary-key order. Sorting by a key with
  \<open>sort_key\<close> is stable; a row whose key is strictly smaller than every other key
  comes first, wherever it was stored.
\<close>

lemma sort_key_snoc_least:
  assumes "\<forall>y\<in>set xs. f p < f y"
  shows "sort_key f (xs @ [p]) = p # sort_key f xs"
  using assms
proof (induction xs)
  case Nil
  then show ?case by simp
next
  case (Cons x xs)
  then have ih: "sort_key f (xs @ [p]) = p # sort_key f xs" and lt: "f p < f x"
    by simp_all
  have "sort_key f ((x # xs) @ [p]) = insort_key f x (p # sort_key f xs)"
    by (simp add: ih)
  also have "\<dots> = p # insort_key f x (sort_key f xs)"
    using lt by (auto dest: leD)
  finally show ?case by simp
qed

lemma length_replace_row [simp]: "length (replace_row key k r xs) = length xs"
  by (simp add: replace_row_def)

lemma map_key_replace_row [simp]:
  "key r = k \<Longrightarrow> map key (replace_row key k r xs) = map key xs"
  by (induction xs) (auto simp: replace_row_def)

lemma set_replace_row:
  "k \<in> set (map key xs) \<Longrightarrow> set (replace_row key k r xs) = {x\<in>set xs. key x \<noteq> k} \<union> {r}"
  by (auto simp: replace_row_def)

lemma replace_row_notin:
  "\<forall>x\<in>set xs. key x \<noteq> k \<Longrightarrow> replace_row key k r xs = xs"
  by (induction xs) (auto simp: replace_row_def)

end
