(* ===== verification/Models.thy ===== *)
theory Models
  imports Prelude
begin

text \<open>
  The data model of \<open>src/yatube/posts/models.py\<close>: one record per Django model, the
  relational store as a record of tables (lists of rows in primary-key order, with one
  auto-increment sequence per table and the server clock read by \<open>auto_now_add\<close>), the
  ORM operations the views and the admin perform (\<open>objects.get\<close>, \<open>create\<close>, \<open>save\<close>,
  \<open>get_or_create\<close>, \<open>filter(...).delete()\<close>, and the deletions with their
  \<open>on_delete\<close> behaviour), and the integrity invariant of the store: unique keys,
  foreign keys that point at existing rows, the unique slug and the unique
  \<open>(user, author)\<close> pair of \<open>Follow\<close>. Each operation is shown to keep the invariant.
\<close>

section \<open>Rows\<close>

text \<open>\<open>django.contrib.auth\<close>'s \<open>User\<close>, as far as the views use it: its key and its
  unique \<open>username\<close>.\<close>

record user =
  user_id :: user_id
  username :: string

text \<open>\<open>class Group\<close>: \<open>title\<close>, unique \<open>slug\<close>, \<open>description\<close>.\<close>

record group =
  group_id :: group_id
  group_title :: string
  group_slug :: string
  group_description :: string

definition group_str :: "group \<Rightarrow> string" where
  "group_str g = group_title g"

text \<open>\<open>class Post\<close>: the \<open>image\<close> is the stored file name, \<open>''''\<close> when there is none
  (a blank \<open>ImageField\<close>).\<close>

record post =
  post_id :: post_id
  post_text :: string
  pub_date :: timestamp
  post_author :: user_id
  post_group :: "group_id option"
  post_image :: string

definition post_str :: "post \<Rightarrow> string" where
  "post_str p = take 15 (post_text p)"

record comment =
  comment_id :: comment_id
  comment_post :: post_id
  comment_author :: user_id
  comment_created :: timestamp
  comment_text :: string

definition comment_str :: "comment \<Rightarrow> string" where
  "comment_str c = comment_text c"

record follow =
  follow_id :: follow_id
  follow_user :: user_id
  follow_author :: user_id

section \<open>The store\<close>

record db =
  users :: "user list"
  groups :: "group list"
  posts :: "post list"
  comments :: "comment list"
  follows :: "follow list"
  user_seq :: nat
  group_seq :: nat
  post_seq :: nat
  comment_seq :: nat
  follow_seq :: nat
  clock :: timestamp

definition empty_db :: db where
  "empty_db = \<lparr>users = [], groups = [], posts = [], comments = [], follows = [],
     user_seq = 1, group_seq = 1, post_seq = 1, comment_seq = 1, follow_seq = 1, clock = 0\<rparr>"

abbreviation user_ids :: "db \<Rightarrow> user_id list" where
  "user_ids d \<equiv> map user_id (users d)"

abbreviation group_ids :: "db \<Rightarrow> group_id list" where
  "group_ids d \<equiv> map group_id (groups d)"

abbreviation post_ids :: "db \<Rightarrow> post_id list" where
  "post_ids d \<equiv> map post_id (posts d)"

abbreviation follow_pair :: "follow \<Rightarrow> user_id \<times> user_id" where
  "follow_pair f \<equiv> (follow_user f, follow_author f)"

section \<open>ORM lookups\<close>

text \<open>
  \<open>QuerySet.get\<close>: exactly one matching row, else \<open>DoesNotExist\<close> or
  \<open>MultipleObjectsReturned\<close>; a failing unique constraint on insert is an
  \<open>IntegrityError\<close>.
\<close>

datatype orm_error = DoesNotExist | MultipleObjectsReturned | IntegrityError

definition objects_get :: "('a \<Rightarrow> bool) \<Rightarrow> 'a list \<Rightarrow> orm_error + 'a" where
  "objects_get P xs =
     (case filter P xs of
        [] \<Rightarrow> Inl DoesNotExist
      | [x] \<Rightarrow> Inr x
      | _ \<Rightarrow> Inl MultipleObjectsReturned)"

definition objects_exists :: "('a \<Rightarrow> bool) \<Rightarrow> 'a list \<Rightarrow> bool" where
  "objects_exists P xs \<longleftrightarrow> filter P xs \<noteq> []"

section \<open>ORM writes\<close>

text \<open>\<open>Post.objects.create\<close> and \<open>form.save()\<close> of a new post: the next key, and the
  server time as \<open>pub_date\<close> (\<open>auto_now_add=True\<close>).\<close>

definition create_post ::
  "db \<Rightarrow> string \<Rightarrow> user_id \<Rightarrow> group_id option \<Rightarrow> string \<Rightarrow> post \<times> db" where
  "create_post d txt a g img =
     (let p = \<lparr>post_id = post_seq d, post_text = txt, pub_date = clock d,
               post_author = a, post_group = g, post_image = img\<rparr>
      in (p, d\<lparr>posts := posts d @ [p], post_seq := Suc (post_seq d)\<rparr>))"

text \<open>\<open>instance.save()\<close> of an existing post: an \<open>UPDATE\<close> of its row.\<close>

definition save_post :: "db \<Rightarrow> post \<Rightarrow> db" where
  "save_post d p = d\<lparr>posts := replace_row post_id (post_id p) p (posts d)\<rparr>"

definition create_comment :: "db \<Rightarrow> post_id \<Rightarrow> user_id \<Rightarrow> string \<Rightarrow> comment \<times> db" where
  "create_comment d pid a txt =
     (let c = \<lparr>comment_id = comment_seq d, comment_post = pid, comment_author = a,
               comment_created = clock d, comment_text = txt\<rparr>
      in (c, d\<lparr>comments := comments d @ [c], comment_seq := Suc (comment_seq d)\<rparr>))"

text \<open>
  \<open>Follow.objects.get_or_create(user=u, author=a)\<close>: the existing row, or a new one
  (the flag says which); a lookup that finds several rows raises.
\<close>

definition follow_get_or_create ::
  "db \<Rightarrow> user_id \<Rightarrow> user_id \<Rightarrow> orm_error + (follow \<times> bool \<times> db)" where
  "follow_get_or_create d u a =
     (case objects_get (\<lambda>f. follow_pair f = (u, a)) (follows d) of
        Inr f \<Rightarrow> Inr (f, False, d)
      | Inl MultipleObjectsReturned \<Rightarrow> Inl MultipleObjectsReturned
      | Inl _ \<Rightarrow>
          (let f = \<lparr>follow_id = follow_seq d, follow_user = u, follow_author = a\<rparr>
           in Inr (f, True, d\<lparr>follows := follows d @ [f], follow_seq := Suc (follow_seq d)\<rparr>)))"

text \<open>\<open>Follow.objects.filter(user=u, author=a).delete()\<close>.\<close>

definition follow_filter_delete :: "db \<Rightarrow> user_id \<Rightarrow> user_id \<Rightarrow> db" where
  "follow_filter_delete d u a =
     d\<lparr>follows := filter (\<lambda>f. follow_pair f \<noteq> (u, a)) (follows d)\<rparr>"

text \<open>Admin and shell creation of groups and users; the unique \<open>slug\<close>
  (\<open>SlugField(unique=True)\<close>) and the unique \<open>username\<close> of \<open>User\<close> make a
  duplicate an \<open>IntegrityError\<close>.\<close>

definition create_group :: "db \<Rightarrow> string \<Rightarrow> string \<Rightarrow> string \<Rightarrow> orm_error + (group \<times> db)" where
  "create_group d t s desc =
     (if s \<in> set (map group_slug (groups d)) then Inl IntegrityError
      else let g = \<lparr>group_id = group_seq d, group_title = t, group_slug = s,
                    group_description = desc\<rparr>
           in Inr (g, d\<lparr>groups := groups d @ [g], group_seq := Suc (group_seq d)\<rparr>))"

definition create_user :: "db \<Rightarrow> string \<Rightarrow> orm_error + (user \<times> db)" where
  "create_user d n =
     (if n \<in> set (map username (users d)) then Inl IntegrityError
      else let u = \<lparr>user_id = user_seq d, username = n\<rparr>
           in Inr (u, d\<lparr>users := users d @ [u], user_seq := Suc (user_seq d)\<rparr>))"

section \<open>Deletion and \<open>on_delete\<close>\<close>

text \<open>Deleting a post deletes its comments (\<open>Comment.post\<close>, \<open>CASCADE\<close>).\<close>

definition delete_post :: "db \<Rightarrow> post_id \<Rightarrow> db" where
  "delete_post d pid =
     d\<lparr>posts := filter (\<lambda>p. post_id p \<noteq> pid) (posts d),
       comments := filter (\<lambda>c. comment_post c \<noteq> pid) (comments d)\<rparr>"

text \<open>Deleting a group clears the group of its posts (\<open>Post.group\<close>, \<open>SET_NULL\<close>).\<close>

definition delete_group :: "db \<Rightarrow> group_id \<Rightarrow> db" where
  "delete_group d gid =
     d\<lparr>groups := filter (\<lambda>g. group_id g \<noteq> gid) (groups d),
       posts := map (\<lambda>p. if post_group p = Some gid then p\<lparr>post_group := None\<rparr> else p) (posts d)\<rparr>"

text \<open>
  Deleting a user deletes their posts (\<open>Post.author\<close>, \<open>CASCADE\<close>), the comments on
  those posts and their own comments (\<open>Comment.post\<close>, \<open>Comment.author\<close>), and every
  follow edge from or to them (\<open>Follow.user\<close>, \<open>Follow.author\<close>).
\<close>

definition delete_user :: "db \<Rightarrow> user_id \<Rightarrow> db" where
  "delete_user d uid =
     (let gone = map post_id (filter (\<lambda>p. post_author p = uid) (posts d))
      in d\<lparr>users := filter (\<lambda>u. user_id u \<noteq> uid) (users d),
           posts := filter (\<lambda>p. post_author p \<noteq> uid) (posts d),
           comments := filter (\<lambda>c. comment_author c \<noteq> uid \<and> comment_post c \<notin> set gone)
                         (comments d),
           follows := filter (\<lambda>f. follow_user f \<noteq> uid \<and> follow_author f \<noteq> uid) (follows d)\<rparr>)"

definition delete_comment :: "db \<Rightarrow> comment_id \<Rightarrow> db" where
  "delete_comment d cid = d\<lparr>comments := filter (\<lambda>c. comment_id c \<noteq> cid) (comments d)\<rparr>"

definition delete_follow :: "db \<Rightarrow> follow_id \<Rightarrow> db" where
  "delete_follow d fid = d\<lparr>follows := filter (\<lambda>f. follow_id f \<noteq> fid) (follows d)\<rparr>"

section \<open>Integrity of the store\<close>

text \<open>
  What the database schema guarantees of every table: distinct primary keys below the
  table's sequence, the unique columns, foreign keys that name existing rows, and
  timestamps not later than the clock.
\<close>

definition users_ok :: "db \<Rightarrow> bool" where
  "users_ok d \<longleftrightarrow> distinct (user_ids d) \<and> distinct (map username (users d))
     \<and> (\<forall>u\<in>set (users d). user_id u < user_seq d)"

definition groups_ok :: "db \<Rightarrow> bool" where
  "groups_ok d \<longleftrightarrow> distinct (group_ids d) \<and> distinct (map group_slug (groups d))
     \<and> (\<forall>g\<in>set (groups d). group_id g < group_seq d)"

definition group_ref_ok :: "group_id list \<Rightarrow> group_id option \<Rightarrow> bool" where
  "group_ref_ok gs g = (case g of None \<Rightarrow> True | Some x \<Rightarrow> x \<in> set gs)"

definition post_ok :: "db \<Rightarrow> post \<Rightarrow> bool" where
  "post_ok d p \<longleftrightarrow> post_id p < post_seq d \<and> post_author p \<in> set (user_ids d)
     \<and> group_ref_ok (group_ids d) (post_group p) \<and> pub_date p \<le> clock d"

definition posts_ok :: "db \<Rightarrow> bool" where
  "posts_ok d \<longleftrightarrow> distinct (post_ids d) \<and> (\<forall>p\<in>set (posts d). post_ok d p)"

definition comment_ok :: "db \<Rightarrow> comment \<Rightarrow> bool" where
  "comment_ok d c \<longleftrightarrow> comment_id c < comment_seq d \<and> comment_post c \<in> set (post_ids d)
     \<and> comment_author c \<in> set (user_ids d) \<and> comment_created c \<le> clock d"

definition comments_ok :: "db \<Rightarrow> bool" where
  "comments_ok d \<longleftrightarrow> distinct (map comment_id (comments d)) \<and> (\<forall>c\<in>set (comments d). comment_ok d c)"

definition follow_ok :: "db \<Rightarrow> follow \<Rightarrow> bool" where
  "follow_ok d f \<longleftrightarrow> follow_id f < follow_seq d \<and> follow_user f \<in> set (user_ids d)
     \<and> follow_author f \<in> set (user_ids d)"

definition follows_ok :: "db \<Rightarrow> bool" where
  "follows_ok d \<longleftrightarrow> distinct (map follow_id (follows d)) \<and> distinct (map follow_pair (follows d))
     \<and> (\<forall>f\<in>set (follows d). follow_ok d f)"

definition db_ok :: "db \<Rightarrow> bool" where
  "db_ok d \<longleftrightarrow> users_ok d \<and> groups_ok d \<and> posts_ok d \<and> comments_ok d \<and> follows_ok d"

lemmas table_ok_defs = users_ok_def groups_ok_def posts_ok_def comments_ok_def follows_ok_def

lemma db_ok_distinct:
  assumes "db_ok d"
  shows "distinct (post_ids d)" "distinct (map username (users d))"
    "distinct (map group_slug (groups d))" "distinct (map follow_pair (follows d))"
    "distinct (user_ids d)" "distinct (group_ids d)"
  using assms by (simp_all add: db_ok_def table_ok_defs)

lemma db_ok_post_ok: "db_ok d \<Longrightarrow> p \<in> set (posts d) \<Longrightarrow> post_ok d p"
  by (simp add: db_ok_def posts_ok_def)

lemma group_ref_ok_simps [simp]:
  "group_ref_ok gs None" "group_ref_ok gs (Some x) \<longleftrightarrow> x \<in> set gs"
  by (simp_all add: group_ref_ok_def)

section \<open>Lookups on tables with a unique key\<close>

lemma filter_key_unique:
  "distinct (map key xs) \<Longrightarrow> x \<in> set xs \<Longrightarrow> filter (\<lambda>r. key r = key x) xs = [x]"
  by (induction xs) (auto simp: filter_empty_conv image_iff)

lemma objects_get_key [simp]:
  assumes "distinct (map key xs)" and "x \<in> set xs" and "key x = k"
  shows "objects_get (\<lambda>r. key r = k) xs = Inr x"
  using filter_key_unique [OF assms(1,2)] assms(3) by (simp add: objects_get_def)

lemma objects_get_key_missing [simp]:
  "k \<notin> key ` set xs \<Longrightarrow> objects_get (\<lambda>r. key r = k) xs = Inl DoesNotExist"
proof -
  assume "k \<notin> key ` set xs"
  then have "filter (\<lambda>r. key r = k) xs = []"
    by (auto simp: filter_empty_conv)
  then show ?thesis by (simp add: objects_get_def)
qed

lemma objects_get_key_cases:
  assumes "distinct (map key xs)"
  obtains (found) x where "x \<in> set xs" "key x = k" "objects_get (\<lambda>r. key r = k) xs = Inr x"
    | (missing) "k \<notin> key ` set xs" "objects_get (\<lambda>r. key r = k) xs = Inl DoesNotExist"
  using assms by (cases "k \<in> key ` set xs") auto

lemma objects_get_Inr: "objects_get P xs = Inr x \<Longrightarrow> x \<in> set xs \<and> P x"
proof -
  assume h: "objects_get P xs = Inr x"
  then have "filter P xs = [x]"
    by (auto simp: objects_get_def split: list.splits)
  then have "x \<in> set (filter P xs)" by simp
  then show ?thesis by simp
qed

lemma objects_exists_iff [simp]: "objects_exists P xs \<longleftrightarrow> (\<exists>x\<in>set xs. P x)"
  by (auto simp: objects_exists_def filter_empty_conv)

section \<open>The invariant is monotone in the parts of the store a row refers to\<close>

lemma post_ok_mono:
  "post_ok d p \<Longrightarrow> post_seq d \<le> post_seq d' \<Longrightarrow> set (user_ids d) \<subseteq> set (user_ids d')
   \<Longrightarrow> set (group_ids d) \<subseteq> set (group_ids d') \<Longrightarrow> clock d \<le> clock d' \<Longrightarrow> post_ok d' p"
  by (auto simp: post_ok_def group_ref_ok_def split: option.splits)

lemma comment_ok_mono:
  "comment_ok d c \<Longrightarrow> comment_seq d \<le> comment_seq d' \<Longrightarrow> set (post_ids d) \<subseteq> set (post_ids d')
   \<Longrightarrow> set (user_ids d) \<subseteq> set (user_ids d') \<Longrightarrow> clock d \<le> clock d' \<Longrightarrow> comment_ok d' c"
  by (auto simp: comment_ok_def)

lemma follow_ok_mono:
  "follow_ok d f \<Longrightarrow> follow_seq d \<le> follow_seq d' \<Longrightarrow> set (user_ids d) \<subseteq> set (user_ids d')
   \<Longrightarrow> follow_ok d' f"
  by (auto simp: follow_ok_def)

lemma seq_fresh: "\<forall>x\<in>set xs. key x < (n::nat) \<Longrightarrow> n \<notin> set (map key xs)"
  by (induction xs) auto

lemma save_post_lookup:
  assumes "distinct (post_ids d)" and "post_id q \<in> set (post_ids d)"
  shows "objects_get (\<lambda>x. post_id x = post_id q) (posts (save_post d q)) = Inr q"
proof -
  have "distinct (post_ids (save_post d q))" using assms(1) by (simp add: save_post_def)
  moreover have "q \<in> set (posts (save_post d q))"
    using assms(2) by (simp add: save_post_def set_replace_row)
  ultimately show ?thesis by simp
qed

lemma create_comment_comments:
  "comments (snd (create_comment d pid a txt)) =
     comments d @ [\<lparr>comment_id = comment_seq d, comment_post = pid, comment_author = a,
                   comment_created = clock d, comment_text = txt\<rparr>]"
  by (simp add: create_comment_def Let_def)

lemma create_post_fields [simp]:
  "posts (snd (create_post d txt a g img)) = posts d @ [fst (create_post d txt a g img)]"
  "users (snd (create_post d txt a g img)) = users d"
  "groups (snd (create_post d txt a g img)) = groups d"
  "follows (snd (create_post d txt a g img)) = follows d"
  "fst (create_post d txt a g img) = \<lparr>post_id = post_seq d, post_text = txt, pub_date = clock d,
      post_author = a, post_group = g, post_image = img\<rparr>"
  by (simp_all add: create_post_def Let_def)

section \<open>Every store operation keeps the invariant\<close>

lemma db_ok_clock:
  "db_ok d \<Longrightarrow> clock d \<le> t \<Longrightarrow> db_ok (d\<lparr>clock := t\<rparr>)"
  unfolding db_ok_def table_ok_defs
  by (auto intro: post_ok_mono comment_ok_mono follow_ok_mono)

lemma db_ok_create_post:
  assumes ok: "db_ok d" and a: "a \<in> set (user_ids d)" and g: "group_ref_ok (group_ids d) g"
  shows "db_ok (snd (create_post d txt a g img))"
proof -
  from ok have fresh: "post_seq d \<notin> set (post_ids d)"
    by (intro seq_fresh) (auto simp: db_ok_def posts_ok_def post_ok_def)
  from ok a g show ?thesis
    unfolding db_ok_def table_ok_defs create_post_def Let_def
    using fresh by (auto simp: post_ok_def group_ref_ok_def intro: comment_ok_mono follow_ok_mono)
qed

lemma db_ok_save_post:
  assumes ok: "db_ok d" and old: "post_id p \<in> set (post_ids d)" and new: "post_ok d p"
  shows "db_ok (save_post d p)"
proof -
  have ids: "post_ids (save_post d p) = post_ids d"
    by (simp add: save_post_def)
  have rows: "set (posts (save_post d p)) = {x\<in>set (posts d). post_id x \<noteq> post_id p} \<union> {p}"
    using old by (simp add: save_post_def set_replace_row)
  from ok new show ?thesis
    unfolding db_ok_def table_ok_defs using ids rows
    by (auto simp: save_post_def post_ok_def comment_ok_def follow_ok_def)
qed

lemma db_ok_create_comment:
  assumes ok: "db_ok d" and p: "pid \<in> set (post_ids d)" and a: "a \<in> set (user_ids d)"
  shows "db_ok (snd (create_comment d pid a txt))"
proof -
  from ok have fresh: "comment_seq d \<notin> set (map comment_id (comments d))"
    by (intro seq_fresh) (auto simp: db_ok_def comments_ok_def comment_ok_def)
  from ok p a show ?thesis
    unfolding db_ok_def table_ok_defs create_comment_def Let_def
    using fresh by (auto simp: comment_ok_def intro: post_ok_mono follow_ok_mono)
qed

lemma follow_get_or_create_cases:
  assumes ok: "db_ok d"
  obtains (found) f where "f \<in> set (follows d)" "follow_pair f = (u, a)"
      "follow_get_or_create d u a = Inr (f, False, d)"
    | (created) "(u, a) \<notin> set (map follow_pair (follows d))"
      "follow_get_or_create d u a =
         Inr (\<lparr>follow_id = follow_seq d, follow_user = u, follow_author = a\<rparr>, True,
              d\<lparr>follows := follows d @ [\<lparr>follow_id = follow_seq d, follow_user = u, follow_author = a\<rparr>],
                follow_seq := Suc (follow_seq d)\<rparr>)"
proof -
  from ok have "distinct (map follow_pair (follows d))"
    by (simp add: db_ok_def follows_ok_def)
  then show ?thesis
  proof (cases rule: objects_get_key_cases [where k = "(u, a)"])
    case (found f)
    then show ?thesis using that(1) by (simp add: follow_get_or_create_def)
  next
    case missing
    then show ?thesis using that(2) by (simp add: follow_get_or_create_def Let_def)
  qed
qed

lemma db_ok_follow_get_or_create:
  assumes ok: "db_ok d" and u: "u \<in> set (user_ids d)" and a: "a \<in> set (user_ids d)"
    and r: "follow_get_or_create d u a = Inr (f, b, d')"
  shows "db_ok d'"
  using ok
proof (cases rule: follow_get_or_create_cases [where u = u and a = a])
  case found
  with r ok show ?thesis by simp
next
  case created
  from ok have fresh: "follow_seq d \<notin> set (map follow_id (follows d))"
    by (intro seq_fresh) (auto simp: db_ok_def follows_ok_def follow_ok_def)
  from created r have "d' = d\<lparr>follows := follows d @ [\<lparr>follow_id = follow_seq d,
      follow_user = u, follow_author = a\<rparr>], follow_seq := Suc (follow_seq d)\<rparr>"
    by simp
  with ok u a fresh created(1) show ?thesis
    unfolding db_ok_def table_ok_defs by (auto simp: follow_ok_def post_ok_def comment_ok_def)
qed

lemma db_ok_follow_filter_delete:
  "db_ok d \<Longrightarrow> db_ok (follow_filter_delete d u a)"
  unfolding db_ok_def table_ok_defs follow_filter_delete_def
  by (auto simp: distinct_map_filter follow_ok_def comment_ok_def post_ok_def)

lemma db_ok_create_group:
  assumes ok: "db_ok d" and r: "create_group d t sl desc = Inr (g, d')"
  shows "db_ok d'"
proof -
  from ok have fresh: "group_seq d \<notin> set (group_ids d)"
    by (intro seq_fresh) (auto simp: db_ok_def groups_ok_def)
  from r have new: "sl \<notin> set (map group_slug (groups d))"
    and d': "d' = d\<lparr>groups := groups d @ [g], group_seq := Suc (group_seq d)\<rparr>"
    and g: "group_id g = group_seq d" "group_slug g = sl"
    by (auto simp: create_group_def Let_def split: if_splits)
  from ok fresh new g show ?thesis
    unfolding d' db_ok_def table_ok_defs
    by (auto intro: post_ok_mono comment_ok_mono follow_ok_mono)
qed

lemma db_ok_create_user:
  assumes ok: "db_ok d" and r: "create_user d n = Inr (u, d')"
  shows "db_ok d'"
proof -
  from ok have fresh: "user_seq d \<notin> set (user_ids d)"
    by (intro seq_fresh) (auto simp: db_ok_def users_ok_def)
  from r have new: "n \<notin> set (map username (users d))"
    and d': "d' = d\<lparr>users := users d @ [u], user_seq := Suc (user_seq d)\<rparr>"
    and u: "user_id u = user_seq d" "username u = n"
    by (auto simp: create_user_def Let_def split: if_splits)
  from ok fresh new u show ?thesis
    unfolding d' db_ok_def table_ok_defs
    by (auto intro: post_ok_mono comment_ok_mono follow_ok_mono)
qed

lemma db_ok_delete_post: "db_ok d \<Longrightarrow> db_ok (delete_post d pid)"
  unfolding db_ok_def table_ok_defs delete_post_def
  by (auto simp: distinct_map_filter post_ok_def comment_ok_def follow_ok_def)

lemma db_ok_delete_comment: "db_ok d \<Longrightarrow> db_ok (delete_comment d cid)"
  unfolding db_ok_def table_ok_defs delete_comment_def
  by (auto simp: distinct_map_filter post_ok_def comment_ok_def follow_ok_def)

lemma db_ok_delete_follow: "db_ok d \<Longrightarrow> db_ok (delete_follow d fid)"
  unfolding db_ok_def table_ok_defs delete_follow_def
  by (auto simp: distinct_map_filter post_ok_def comment_ok_def follow_ok_def)

lemma db_ok_delete_group:
  assumes ok: "db_ok d"
  shows "db_ok (delete_group d gid)" (is "db_ok ?d'")
proof -
  have ids: "post_ids ?d' = post_ids d"
    by (simp add: delete_group_def comp_def if_distrib)
  have same: "users ?d' = users d" "comments ?d' = comments d" "follows ?d' = follows d"
    "groups ?d' = filter (\<lambda>g. group_id g \<noteq> gid) (groups d)"
    "user_seq ?d' = user_seq d" "group_seq ?d' = group_seq d" "post_seq ?d' = post_seq d"
    "comment_seq ?d' = comment_seq d" "follow_seq ?d' = follow_seq d" "clock ?d' = clock d"
    by (simp_all add: delete_group_def)
  have posts': "post_ok ?d' p'" if "p' \<in> set (posts ?d')" for p'
  proof -
    from that obtain p where p: "p \<in> set (posts d)"
      and p': "p' = (if post_group p = Some gid then p\<lparr>post_group := None\<rparr> else p)"
      by (auto simp: delete_group_def)
    from ok p have "post_ok d p" by (simp add: db_ok_def posts_ok_def)
    with p' show ?thesis
      by (auto simp: post_ok_def group_ref_ok_def delete_group_def split: option.splits)
  qed
  from ok have "comment_ok ?d' c" if "c \<in> set (comments d)" for c
    using that ids same by (auto simp: db_ok_def comments_ok_def intro: comment_ok_mono)
  moreover from ok have "follow_ok ?d' f" if "f \<in> set (follows d)" for f
    using that same by (auto simp: db_ok_def follows_ok_def intro: follow_ok_mono)
  ultimately show ?thesis
    using ok ids same posts' unfolding db_ok_def table_ok_defs
    by (simp add: distinct_map_filter)
qed

lemma db_ok_delete_user: "db_ok d \<Longrightarrow> db_ok (delete_user d uid)"
  unfolding db_ok_def table_ok_defs delete_user_def Let_def
  by (auto simp: distinct_map_filter post_ok_def comment_ok_def follow_ok_def
      intro: image_Collect_compl)

section \<open>Deletion keeps the store consistent\<close>

text \<open>
  C19. Deleting a user cascades as \<open>on_delete=CASCADE\<close> says: on a store with the
  invariant, afterwards the user is gone, no remaining post or comment was written by
  them, no follow edge starts or ends at them, every remaining comment belongs to a
  remaining post, every post of another author is kept, and the store keeps its
  invariant.
\<close>

theorem delete_user_cascades:
  assumes ok: "db_ok d"
  shows "db_ok (delete_user d uid) \<and> uid \<notin> set (user_ids (delete_user d uid))
    \<and> (\<forall>p\<in>set (posts (delete_user d uid)). post_author p \<noteq> uid)
    \<and> (\<forall>c\<in>set (comments (delete_user d uid)). comment_author c \<noteq> uid
                                             \<and> comment_post c \<in> set (post_ids (delete_user d uid)))
    \<and> (\<forall>f\<in>set (follows (delete_user d uid)). follow_user f \<noteq> uid \<and> follow_author f \<noteq> uid)
    \<and> filter (\<lambda>p. post_author p \<noteq> uid) (posts d) = posts (delete_user d uid)"
proof -
  have ok': "db_ok (delete_user d uid)" by (rule db_ok_delete_user [OF ok])
  then have "comment_post c \<in> set (post_ids (delete_user d uid))"
    if "c \<in> set (comments (delete_user d uid))" for c
    using that by (auto simp: db_ok_def comments_ok_def comment_ok_def)
  with ok' show ?thesis by (auto simp: delete_user_def Let_def)
qed

theorem delete_user_cascades_witness:
  "db_ok (delete_user (empty_db\<lparr>users := [\<lparr>user_id = 1, username = ''a''\<rparr>, \<lparr>user_id = 2, username = ''b''\<rparr>],
      posts := [\<lparr>post_id = 1, post_text = ''x'', pub_date = 0, post_author = 1, post_group = None, post_image = []\<rparr>],
      comments := [\<lparr>comment_id = 1, comment_post = 1, comment_author = 2, comment_created = 0, comment_text = ''y''\<rparr>],
      follows := [\<lparr>follow_id = 1, follow_user = 2, follow_author = 1\<rparr>],
      user_seq := 3, post_seq := 2, comment_seq := 2, follow_seq := 2\<rparr>) 1)
   \<and> delete_user (empty_db\<lparr>users := [\<lparr>user_id = 1, username = ''a''\<rparr>, \<lparr>user_id = 2, username = ''b''\<rparr>],
      posts := [\<lparr>post_id = 1, post_text = ''x'', pub_date = 0, post_author = 1, post_group = None, post_image = []\<rparr>],
      comments := [\<lparr>comment_id = 1, comment_post = 1, comment_author = 2, comment_created = 0, comment_text = ''y''\<rparr>],
      follows := [\<lparr>follow_id = 1, follow_user = 2, follow_author = 1\<rparr>],
      user_seq := 3, post_seq := 2, comment_seq := 2, follow_seq := 2\<rparr>) 1
     = empty_db\<lparr>users := [\<lparr>user_id = 2, username = ''b''\<rparr>], user_seq := 3, post_seq := 2, comment_seq := 2,
         follow_seq := 2\<rparr>"
proof -
  let ?d = "empty_db\<lparr>users := [\<lparr>user_id = 1, username = ''a''\<rparr>, \<lparr>user_id = 2, username = ''b''\<rparr>],
      posts := [\<lparr>post_id = 1, post_text = ''x'', pub_date = 0, post_author = 1, post_group = None, post_image = []\<rparr>],
      comments := [\<lparr>comment_id = 1, comment_post = 1, comment_author = 2, comment_created = 0, comment_text = ''y''\<rparr>],
      follows := [\<lparr>follow_id = 1, follow_user = 2, follow_author = 1\<rparr>],
      user_seq := 3, post_seq := 2, comment_seq := 2, follow_seq := 2\<rparr>"
  have ok: "db_ok ?d"
    by (simp add: db_ok_def table_ok_defs post_ok_def comment_ok_def follow_ok_def empty_db_def)
  show ?thesis
    using delete_user_cascades [OF ok, of 1] by (simp add: delete_user_def empty_db_def)
qed

text \<open>
  C20. Deleting a group keeps every post (\<open>on_delete=SET_NULL\<close>): on a store with the
  invariant, afterwards the group is gone, the posts are the same posts in the same
  order with the same text, date and author, none of them is in the deleted group, the
  posts of other groups keep their group, and the store keeps its invariant.
\<close>

theorem delete_group_set_null:
  assumes ok: "db_ok d"
  shows "db_ok (delete_group d gid) \<and> gid \<notin> set (group_ids (delete_group d gid))
    \<and> map (\<lambda>p. (post_id p, post_text p, pub_date p, post_author p)) (posts (delete_group d gid))
        = map (\<lambda>p. (post_id p, post_text p, pub_date p, post_author p)) (posts d)
    \<and> map post_group (posts (delete_group d gid))
        = map (\<lambda>p. if post_group p = Some gid then None else post_group p) (posts d)"
  using db_ok_delete_group [OF ok, of gid] by (auto simp: delete_group_def comp_def if_distrib)

theorem delete_group_set_null_witness:
  "db_ok (delete_group (empty_db\<lparr>users := [\<lparr>user_id = 1, username = ''a''\<rparr>],
      groups := [\<lparr>group_id = 1, group_title = ''G'', group_slug = ''g'', group_description = []\<rparr>],
      posts := [\<lparr>post_id = 1, post_text = ''x'', pub_date = 0, post_author = 1, post_group = Some 1, post_image = []\<rparr>],
      user_seq := 2, group_seq := 2, post_seq := 2\<rparr>) 1)
   \<and> map post_group (posts (delete_group (empty_db\<lparr>users := [\<lparr>user_id = 1, username = ''a''\<rparr>],
      groups := [\<lparr>group_id = 1, group_title = ''G'', group_slug = ''g'', group_description = []\<rparr>],
      posts := [\<lparr>post_id = 1, post_text = ''x'', pub_date = 0, post_author = 1, post_group = Some 1, post_image = []\<rparr>],
      user_seq := 2, group_seq := 2, post_seq := 2\<rparr>) 1)) = [None]"
proof -
  let ?d = "empty_db\<lparr>users := [\<lparr>user_id = 1, username = ''a''\<rparr>],
      groups := [\<lparr>group_id = 1, group_title = ''G'', group_slug = ''g'', group_description = []\<rparr>],
      posts := [\<lparr>post_id = 1, post_text = ''x'', pub_date = 0, post_author = 1, post_group = Some 1, post_image = []\<rparr>],
      user_seq := 2, group_seq := 2, post_seq := 2\<rparr>"
  have ok: "db_ok ?d"
    by (simp add: db_ok_def table_ok_defs post_ok_def comment_ok_def follow_ok_def empty_db_def)
  show ?thesis
    using delete_group_set_null [OF ok, of 1] by (simp add: empty_db_def)
qed

end
