(* ===== verification/Paginator.thy ===== *)
theory Paginator
  imports Prelude
begin

text \<open>
  Pagination as the feed views use it: \<open>Paginator(post_list, settings.PAR_PAGE)\<close>
  followed by \<open>paginator.get_page(request.GET.get("page"))\<close>. The paginator is
  Django's (\<open>django/core/paginator.py\<close>, not part of the repository); it is modelled from
  its documented behaviour: the \<open>page\<close> parameter is read with Python's \<open>int()\<close>, a
  value that is not an integer gives the first page, a value out of range gives the
  last page, and page \<open>n\<close> is the slice \<open>[(n-1)*per_page : n*per_page]\<close> of the list
  (the last page absorbing up to \<open>orphans\<close> extra rows). The lemmas show that
  \<open>get_page\<close> never fails and always returns a page in range, and which page it
  falls back to for an absent, malformed or out-of-range parameter.
\<close>

section \<open>Python's \<open>int()\<close> on a string\<close>

text \<open>
  \<open>int(s)\<close> strips surrounding whitespace, accepts one optional sign and a nonempty
  run of decimal digits in which single underscores may separate digits; anything else
  raises \<open>ValueError\<close>, modelled as \<open>None\<close>. (Non-ASCII digits are not modelled.)
\<close>

definition is_digit :: "char \<Rightarrow> bool" where
  "is_digit c \<longleftrightarrow> 48 \<le> (of_char c :: nat) \<and> (of_char c :: nat) \<le> 57"

definition digit_val :: "char \<Rightarrow> nat" where
  "digit_val c = of_char c - 48"

definition digits_value :: "string \<Rightarrow> nat" where
  "digits_value ds = foldl (\<lambda>acc c. 10 * acc + digit_val c) 0 ds"

fun underscores_ok :: "string \<Rightarrow> bool" where
  "underscores_ok [] = True"
| "underscores_ok [c] = is_digit c"
| "underscores_ok (c # d # r) =
     (is_digit c \<and> (if d = CHR ''_'' then r \<noteq> [] \<and> underscores_ok r else underscores_ok (d # r)))"

definition int_body_ok :: "string \<Rightarrow> bool" where
  "int_body_ok b \<longleftrightarrow> b \<noteq> [] \<and> underscores_ok b"

definition py_int :: "string \<Rightarrow> int option" where
  "py_int s =
     (let t = py_strip s;
          (sgn, b) = (case t of
                        c # r \<Rightarrow> if c = CHR ''-'' then (-1, r)
                                 else if c = CHR ''+'' then (1, r) else (1, t)
                      | [] \<Rightarrow> (1, t))
      in if int_body_ok b then Some (sgn * int (digits_value (filter (\<lambda>c. c \<noteq> CHR ''_'') b)))
         else None)"

section \<open>The paginator\<close>

record 'a paginator =
  pg_object_list :: "'a list"
  pg_per_page :: nat
  pg_orphans :: nat
  pg_allow_empty_first_page :: bool

text \<open>\<open>Paginator(object_list, per_page)\<close> with the default \<open>orphans=0\<close> and
  \<open>allow_empty_first_page=True\<close>, as the views construct it.\<close>

definition make_paginator :: "'a list \<Rightarrow> nat \<Rightarrow> 'a paginator" where
  "make_paginator xs n =
     \<lparr>pg_object_list = xs, pg_per_page = n, pg_orphans = 0, pg_allow_empty_first_page = True\<rparr>"

definition pg_count :: "'a paginator \<Rightarrow> nat" where
  "pg_count p = length (pg_object_list p)"

text \<open>\<open>num_pages\<close>: \<open>ceil(max(1, count - orphans) / per_page)\<close>, or 0 for an empty
  list when an empty first page is not allowed.\<close>

definition num_pages :: "'a paginator \<Rightarrow> nat" where
  "num_pages p =
     (if pg_count p = 0 \<and> \<not> pg_allow_empty_first_page p then 0
      else let hits = max 1 (pg_count p - pg_orphans p)
           in (hits + pg_per_page p - 1) div pg_per_page p)"

datatype page_error = PageNotAnInteger | EmptyPage

text \<open>\<open>validate_number\<close>, after the conversion to an integer.\<close>

definition validate_int :: "'a paginator \<Rightarrow> int \<Rightarrow> page_error + nat" where
  "validate_int p n =
     (if n < 1 then Inl EmptyPage
      else if n > int (num_pages p) then
        (if n = 1 \<and> pg_allow_empty_first_page p then Inr 1 else Inl EmptyPage)
      else Inr (nat n))"

text \<open>\<open>validate_number\<close> of the raw query parameter: an absent parameter (\<open>None\<close>)
  raises \<open>TypeError\<close> in \<open>int()\<close>, a malformed one \<open>ValueError\<close>; both become
  \<open>PageNotAnInteger\<close>.\<close>

definition validate_number :: "'a paginator \<Rightarrow> string option \<Rightarrow> page_error + nat" where
  "validate_number p number =
     (case number of
        None \<Rightarrow> Inl PageNotAnInteger
      | Some s \<Rightarrow> (case py_int s of None \<Rightarrow> Inl PageNotAnInteger | Some n \<Rightarrow> validate_int p n))"

record 'a page =
  page_object_list :: "'a list"
  page_number :: nat

text \<open>The rows of page \<open>n\<close>: \<open>object_list[bottom:top]\<close>, the last page running to the end
  when no more than \<open>orphans\<close> rows would be left over.\<close>

definition page_slice :: "'a paginator \<Rightarrow> nat \<Rightarrow> 'a list" where
  "page_slice p n =
     (let bottom = (n - 1) * pg_per_page p;
          top = bottom + pg_per_page p;
          top' = (if pg_count p \<le> top + pg_orphans p then pg_count p else top)
      in take (top' - bottom) (drop bottom (pg_object_list p)))"

text \<open>\<open>Paginator.page(number)\<close>: validates the number again, then slices.\<close>

definition paginator_page :: "'a paginator \<Rightarrow> nat \<Rightarrow> page_error + 'a page" where
  "paginator_page p n =
     (case validate_int p (int n) of
        Inl e \<Rightarrow> Inl e
      | Inr k \<Rightarrow> Inr \<lparr>page_object_list = page_slice p k, page_number = k\<rparr>)"

text \<open>\<open>Paginator.get_page(number)\<close>.\<close>

definition get_page :: "'a paginator \<Rightarrow> string option \<Rightarrow> page_error + 'a page" where
  "get_page p number =
     paginator_page p
       (case validate_number p number of
          Inr n \<Rightarrow> n
        | Inl PageNotAnInteger \<Rightarrow> 1
        | Inl EmptyPage \<Rightarrow> num_pages p)"

text \<open>The number \<open>get_page\<close> falls back to, before it slices.\<close>

definition get_page_number :: "'a paginator \<Rightarrow> string option \<Rightarrow> nat" where
  "get_page_number p number =
     (case validate_number p number of
        Inr n \<Rightarrow> n
      | Inl PageNotAnInteger \<Rightarrow> 1
      | Inl EmptyPage \<Rightarrow> num_pages p)"

section \<open>Pages\<close>

lemma num_pages_pos:
  assumes "pg_allow_empty_first_page p" and "0 < pg_per_page p"
  shows "1 \<le> num_pages p"
proof -
  let ?k = "pg_per_page p" and ?h = "max 1 (pg_count p - pg_orphans p)"
  have "?k \<le> ?h + ?k - 1" by simp
  then have "?k div ?k \<le> (?h + ?k - 1) div ?k" by (rule div_le_mono)
  with assms show ?thesis by (simp add: num_pages_def Let_def)
qed

lemma page_slice_subset: "set (page_slice p n) \<subseteq> set (pg_object_list p)"
  by (auto simp: page_slice_def Let_def dest: in_set_takeD in_set_dropD)

lemma validate_int_in_range [simp]:
  "1 \<le> k \<Longrightarrow> k \<le> num_pages p \<Longrightarrow> validate_int p (int k) = Inr k"
  by (simp add: validate_int_def)

lemma validate_int_Inr:
  "validate_int p n = Inr k \<Longrightarrow> 1 \<le> num_pages p \<Longrightarrow> 1 \<le> k \<and> k \<le> num_pages p \<and> n = int k"
  by (auto simp: validate_int_def split: if_splits)

lemma paginator_page_in_range [simp]:
  "1 \<le> k \<Longrightarrow> k \<le> num_pages p \<Longrightarrow>
   paginator_page p k = Inr \<lparr>page_object_list = page_slice p k, page_number = k\<rparr>"
  by (simp add: paginator_page_def)

lemma get_page_number_range:
  assumes "pg_allow_empty_first_page p" and "0 < pg_per_page p"
  shows "1 \<le> get_page_number p s \<and> get_page_number p s \<le> num_pages p"
proof -
  have one: "1 \<le> num_pages p" using assms by (rule num_pages_pos)
  show ?thesis
  proof (cases "validate_number p s")
    case (Inl e)
    with one show ?thesis by (cases e) (simp_all add: get_page_number_def)
  next
    case (Inr k)
    then obtain n where "validate_int p n = Inr k"
      by (auto simp: validate_number_def split: option.splits)
    with one Inr show ?thesis
      by (auto simp: get_page_number_def dest: validate_int_Inr)
  qed
qed

lemma get_page_eq:
  assumes "pg_allow_empty_first_page p" and "0 < pg_per_page p"
  shows "get_page p s = Inr \<lparr>page_object_list = page_slice p (get_page_number p s),
                             page_number = get_page_number p s\<rparr>"
proof -
  have "get_page p s = paginator_page p (get_page_number p s)"
    by (simp add: get_page_def get_page_number_def)
  with get_page_number_range [OF assms, of s] show ?thesis by simp
qed

text \<open>With \<open>orphans = 0\<close>, page \<open>n\<close> is the \<open>n\<close>-th block of \<open>per_page\<close> rows.\<close>

lemma page_slice_no_orphans:
  "pg_orphans p = 0 \<Longrightarrow>
   page_slice p n = take (pg_per_page p) (drop ((n - 1) * pg_per_page p) (pg_object_list p))"
  by (auto simp: page_slice_def Let_def pg_count_def min_def)

section \<open>Properties of \<open>get_page\<close>\<close>

text \<open>
  \<open>get_page\<close> never raises and always returns a page whose number lies between 1
  and \<open>num_pages\<close>, whatever the \<open>page\<close> parameter is (absent, malformed, negative or
  too large), for a paginator that allows an empty first page and has a positive page
  size, as every paginator of the views does.
\<close>

lemma get_page_in_range:
  assumes "pg_allow_empty_first_page p" and "0 < pg_per_page p"
  shows "\<exists>pg. get_page p s = Inr pg \<and> 1 \<le> page_number pg \<and> page_number pg \<le> num_pages p"
  using get_page_eq [OF assms] get_page_number_range [OF assms] by simp

text \<open>
  A \<open>page\<close> parameter that is an integer below 1 or above the number of pages
  yields the last page, not an empty one: \<open>get_page\<close> catches \<open>EmptyPage\<close> and serves
  page \<open>num_pages\<close>.
\<close>

lemma get_page_out_of_range:
  assumes "pg_allow_empty_first_page p" and "0 < pg_per_page p"
    and "py_int s = Some n" and "n < 1 \<or> int (num_pages p) < n"
  shows "get_page p (Some s) =
           Inr \<lparr>page_object_list = page_slice p (num_pages p), page_number = num_pages p\<rparr>"
proof -
  have "1 \<le> num_pages p" using assms(1,2) by (rule num_pages_pos)
  with assms(3,4) have "get_page_number p (Some s) = num_pages p"
    by (auto simp: get_page_number_def validate_number_def validate_int_def)
  with get_page_eq [OF assms(1,2), of "Some s"] show ?thesis by simp
qed

end
