(* ===== verification/Feeds.thy ===== *)
theory Feeds
  imports Models Paginator "HOL-Library.Multiset"
begin

text \<open>
  The feed and query layer of \<open>src/yatube/posts/views.py\<close>: the querysets the views
  build (\<open>Post.objects.all()\<close>, \<open>group.posts.all()\<close>, \<open>author.posts.all()\<close>,
  \<open>Post.objects.filter(author__following__user=request.user)\<close>,
  \<open>post.comments.all()\<close>), each ordered by \<open>Post.Meta.ordering = ["-pub_date"]\<close>, and
  their pagination at \<open>settings.PAR_PAGE\<close> rows per page. The follow feed is modelled
  as the SQL join it is, one result row per matching \<open>Follow\<close> row; the theorems show
  that on a store whose \<open>(user, author)\<close> pairs are unique the join is the plain filter
  "posts whose author the user follows", and that the feeds select exactly the posts
  they name.
\<close>

section \<open>Ordering\<close>

text \<open>\<open>ordering = ["-pub_date"]\<close>: newest first. The database sort is modelled as a
  stable sort on the negated timestamp.\<close>

definition order_posts :: "post list \<Rightarrow> post list" where
  "order_posts ps = sort_key (\<lambda>p. - int (pub_date p)) ps"

section \<open>Querysets\<close>

definition all_posts :: "db \<Rightarrow> post list" where
  "all_posts d = order_posts (posts d)"

definition group_post_list :: "db \<Rightarrow> group_id \<Rightarrow> post list" where
  "group_post_list d g = order_posts (filter (\<lambda>p. post_group p = Some g) (posts d))"

definition author_post_list :: "db \<Rightarrow> user_id \<Rightarrow> post list" where
  "author_post_list d a = order_posts (filter (\<lambda>p. post_author p = a) (posts d))"

text \<open>\<open>Post.objects.filter(author__following__user=u)\<close>: the inner join of posts with
  the \<open>Follow\<close> rows whose \<open>author\<close> is the post's author, restricted to \<open>user = u\<close>.\<close>

definition follow_post_list :: "db \<Rightarrow> user_id \<Rightarrow> post list" where
  "follow_post_list d u =
     order_posts [p. p \<leftarrow> posts d, f \<leftarrow> follows d, follow_author f = post_author p \<and> follow_user f = u]"

definition post_comments :: "db \<Rightarrow> post_id \<Rightarrow> comment list" where
  "post_comments d pid = filter (\<lambda>c. comment_post c = pid) (comments d)"

text \<open>\<open>settings.PAR_PAGE\<close> (the settings module is not in the repository; the paginator
  tests fix it at 10 rows per page).\<close>

definition PAR_PAGE :: nat where
  "PAR_PAGE = 10"

text \<open>\<open>Paginator(qs, settings.PAR_PAGE).get_page(request.GET.get("page"))\<close>.\<close>

definition paginate :: "'a list \<Rightarrow> string option \<Rightarrow> page_error + 'a page" where
  "paginate xs page = get_page (make_paginator xs PAR_PAGE) page"

section \<open>The ordering\<close>

lemma set_order_posts [simp]: "set (order_posts ps) = set ps"
  by (simp add: order_posts_def)

lemma length_order_posts [simp]: "length (order_posts ps) = length ps"
  by (simp add: order_posts_def)

lemma filter_order_posts: "filter P (order_posts ps) = order_posts (filter P ps)"
  by (simp add: order_posts_def filter_sort)

lemma order_posts_newest:
  "\<forall>q\<in>set ps. pub_date q < pub_date p \<Longrightarrow> order_posts (ps @ [p]) = p # order_posts ps"
  unfolding order_posts_def by (rule sort_key_snoc_least) auto

text \<open>A list stored in strictly increasing \<open>pub_date\<close> order comes out of the ordering
  reversed.\<close>

lemma order_posts_chronological:
  assumes "sorted_wrt (<) (map pub_date ps)"
  shows "order_posts ps = rev ps"
  unfolding order_posts_def
proof (rule sort_key_inj_key_eq)
  show "mset ps = mset (rev ps)" by simp
  have "distinct (map pub_date ps)" using assms by (rule strict_sorted_iff [THEN iffD1, THEN conjunct2])
  then show "inj_on (\<lambda>p. - int (pub_date p)) (set ps)"
    by (auto simp: distinct_map inj_on_def)
  show "sorted (map (\<lambda>p. - int (pub_date p)) (rev ps))"
    using assms by (simp add: sorted_wrt_map sorted_wrt_rev rev_map[symmetric] sorted_wrt_mono_rel[of _ "\<lambda>x y. pub_date x < pub_date y"])
qed

lemma order_posts_sorted: "sorted_wrt (\<lambda>p q. pub_date q \<le> pub_date p) (order_posts ps)"
proof -
  have "sorted (map (\<lambda>p. - int (pub_date p)) (order_posts ps))" by (simp add: order_posts_def)
  then show ?thesis by (simp add: sorted_map)
qed

section \<open>The follow join\<close>

lemma join_one_post:
  "[p. f \<leftarrow> fs, follow_author f = post_author p \<and> follow_user f = u]
     = replicate (length (filter (\<lambda>f. follow_pair f = (u, post_author p)) fs)) p"
  by (induction fs) auto

lemma length_filter_key_le_1:
  "distinct (map key xs) \<Longrightarrow> length (filter (\<lambda>x. key x = k) xs) \<le> 1"
proof (cases "k \<in> key ` set xs")
  case True
  assume d: "distinct (map key xs)"
  from True obtain x where "x \<in> set xs" "key x = k" by auto
  with filter_key_unique [OF d] show ?thesis by auto
next
  case False
  then have "filter (\<lambda>x. key x = k) xs = []" by (auto simp: filter_empty_conv)
  then show ?thesis by simp
qed

lemma join_one_post_unique:
  assumes "distinct (map follow_pair fs)"
  shows "[p. f \<leftarrow> fs, follow_author f = post_author p \<and> follow_user f = u]
           = (if (u, post_author p) \<in> set (map follow_pair fs) then [p] else [])"
proof -
  define n where "n = length (filter (\<lambda>f. follow_pair f = (u, post_author p)) fs)"
  have le: "n \<le> 1" unfolding n_def using length_filter_key_le_1 [OF assms] by blast
  have pos: "0 < n \<longleftrightarrow> (u, post_author p) \<in> set (map follow_pair fs)"
    unfolding n_def by (auto simp: filter_empty_conv length_greater_0_conv)
  have "n = (if (u, post_author p) \<in> set (map follow_pair fs) then 1 else 0)"
  proof (cases "(u, post_author p) \<in> set (map follow_pair fs)")
    case True
    with pos have "0 < n" by blast
    with le True show ?thesis by simp
  next
    case False
    with pos have "n = 0" by blast
    with False show ?thesis by simp
  qed
  moreover have "[p. f \<leftarrow> fs, follow_author f = post_author p \<and> follow_user f = u] = replicate n p"
    unfolding n_def by (rule join_one_post)
  ultimately show ?thesis by simp
qed

lemma concat_map_singleton_filter:
  "concat (map (\<lambda>x. if P x then [x] else []) xs) = filter P xs"
  by (induction xs) auto

lemma follow_post_list_filter:
  assumes "distinct (map follow_pair (follows d))"
  shows "follow_post_list d u =
           order_posts (filter (\<lambda>p. (u, post_author p) \<in> set (map follow_pair (follows d))) (posts d))"
  by (simp add: follow_post_list_def join_one_post_unique [OF assms] concat_map_singleton_filter)

section \<open>Pagination of a queryset\<close>

lemma PAR_PAGE_pos [simp]: "0 < PAR_PAGE"
  by (simp add: PAR_PAGE_def)

lemma make_paginator_fields [simp]:
  "pg_object_list (make_paginator xs n) = xs" "pg_per_page (make_paginator xs n) = n"
  "pg_orphans (make_paginator xs n) = 0" "pg_allow_empty_first_page (make_paginator xs n)"
  by (simp_all add: make_paginator_def)

lemma paginate_eq:
  "paginate xs s = Inr \<lparr>page_object_list = page_slice (make_paginator xs PAR_PAGE)
                         (get_page_number (make_paginator xs PAR_PAGE) s),
                       page_number = get_page_number (make_paginator xs PAR_PAGE) s\<rparr>"
  unfolding paginate_def by (rule get_page_eq) simp_all

lemma paginate_subset:
  "paginate xs s = Inr pg \<Longrightarrow> set (page_object_list pg) \<subseteq> set xs"
proof -
  assume "paginate xs s = Inr pg"
  then have "page_object_list pg = page_slice (make_paginator xs PAR_PAGE)
               (get_page_number (make_paginator xs PAR_PAGE) s)"
    by (auto simp: paginate_eq)
  with page_slice_subset [of "make_paginator xs PAR_PAGE"] show ?thesis by simp
qed

text \<open>Without a \<open>page\<close> parameter the first page is served: the first \<open>PAR_PAGE\<close>
  rows of the queryset.\<close>

lemma paginate_first:
  "paginate xs None = Inr \<lparr>page_object_list = take PAR_PAGE xs, page_number = 1\<rparr>"
  by (simp add: paginate_eq get_page_number_def validate_number_def page_slice_no_orphans)

text \<open>A post newer than every stored post heads the first page of any feed that
  selects it.\<close>

lemma newest_heads_first_page:
  assumes "\<forall>q\<in>set qs. pub_date q < pub_date p" and "P p"
  shows "paginate (order_posts (filter P (qs @ [p]))) None
           = Inr \<lparr>page_object_list = take PAR_PAGE (p # order_posts (filter P qs)), page_number = 1\<rparr>"
proof -
  have "order_posts (filter P (qs @ [p])) = p # order_posts (filter P qs)"
    using assms by (simp add: order_posts_newest)
  then show ?thesis by (simp add: paginate_first)
qed

text \<open>A page is a contiguous slice of the queryset, so it keeps the queryset's order.\<close>

lemma paginate_sorted:
  "sorted_wrt R xs \<Longrightarrow> paginate xs s = Inr pg \<Longrightarrow> sorted_wrt R (page_object_list pg)"
  by (auto simp: paginate_eq page_slice_def Let_def sorted_wrt_take sorted_wrt_drop)

lemma paginate_order_posts_sorted:
  "paginate (order_posts xs) s = Inr pg \<Longrightarrow> sorted_wrt (\<lambda>p q. pub_date q \<le> pub_date p) (page_object_list pg)"
  by (rule paginate_sorted [OF order_posts_sorted])

section \<open>Properties of pagination in the feeds\<close>

text \<open>
  C27. Bounds of the feed pages: for every queryset and every value of the \<open>page\<close>
  parameter (absent, malformed, negative or too large), the views' pagination returns
  a page, never an error, whose number lies between 1 and the number of pages and which
  holds at most \<open>PAR_PAGE\<close> posts.
\<close>

theorem paginate_in_range:
  "\<exists>pg. paginate xs s = Inr pg \<and> 1 \<le> page_number pg
      \<and> page_number pg \<le> num_pages (make_paginator xs PAR_PAGE)
      \<and> length (page_object_list pg) \<le> PAR_PAGE"
proof -
  have "1 \<le> get_page_number (make_paginator xs PAR_PAGE) s
        \<and> get_page_number (make_paginator xs PAR_PAGE) s \<le> num_pages (make_paginator xs PAR_PAGE)"
    by (rule get_page_number_range) simp_all
  then show ?thesis by (simp add: paginate_eq page_slice_no_orphans)
qed

text \<open>
  C28. Out-of-range page numbers: a \<open>page\<close> parameter that parses as an integer below 1
  or above the number of pages is answered with the last page (the posts of page
  \<open>num_pages\<close>), not with an empty page and not with an error.
\<close>

theorem paginate_out_of_range:
  assumes "py_int s = Some n" and "n < 1 \<or> int (num_pages (make_paginator xs PAR_PAGE)) < n"
  shows "paginate xs (Some s) =
           Inr \<lparr>page_object_list = page_slice (make_paginator xs PAR_PAGE) (num_pages (make_paginator xs PAR_PAGE)),
                page_number = num_pages (make_paginator xs PAR_PAGE)\<rparr>"
  unfolding paginate_def by (rule get_page_out_of_range [OF _ _ assms]) simp_all

theorem paginate_out_of_range_witness:
  "paginate [1..<12::nat] (Some ''3'') = Inr \<lparr>page_object_list = [11], page_number = 2\<rparr>"
proof -
  have np: "num_pages (make_paginator [1..<12::nat] PAR_PAGE) = 2"
    by (simp add: num_pages_def PAR_PAGE_def pg_count_def)
  have i: "py_int ''3'' = Some 3" by code_simp
  have sl: "page_slice (make_paginator [1..<12::nat] PAR_PAGE) 2 = [11]"
    by (simp add: page_slice_def PAR_PAGE_def pg_count_def upt_rec)
  show ?thesis using paginate_out_of_range [OF i, of "[1..<12::nat]"] np sl by simp
qed

text \<open>
  C29. A \<open>page\<close> parameter that is not an integer (Python's \<open>int()\<close> raises on it) gives
  the first page: \<open>get_page\<close> catches \<open>PageNotAnInteger\<close> and serves page 1, the first
  \<open>PAR_PAGE\<close> rows of the queryset.
\<close>

theorem paginate_not_integer:
  assumes "py_int s = None"
  shows "paginate xs (Some s) = Inr \<lparr>page_object_list = take PAR_PAGE xs, page_number = 1\<rparr>"
  using assms by (simp add: paginate_eq get_page_number_def validate_number_def page_slice_no_orphans)

theorem paginate_not_integer_witness:
  "paginate [1..<12::nat] (Some ''2a'') = Inr \<lparr>page_object_list = [1..<11], page_number = 1\<rparr>"
proof -
  have i: "py_int ''2a'' = None" by code_simp
  show ?thesis using paginate_not_integer [OF i, of "[1..<12::nat]"] by (simp add: PAR_PAGE_def)
qed

end
