(* ===== verification/Views.thy ===== *)
theory Views
  imports Feeds
begin

text \<open>
  The request handlers of \<open>src/yatube/posts/views.py\<close>, one definition per view, with
  the state they change passed explicitly: a handler takes the store and a request and
  returns its response and the new store. A response is a rendered template with its
  context, a redirect, a 404, or a server error (an uncaught exception). The
  \<open>@login_required\<close> decorator is the combinator \<open>login_required\<close>; \<open>get_object_or_404\<close>
  is \<open>get_or_404\<close>; the forms of \<open>posts/forms.py\<close> (not in the repository) are modelled
  from the spec and the tests: \<open>PostForm\<close> has \<open>text\<close> (required, stripped), \<open>group\<close>
  (optional, an existing group) and \<open>image\<close>; \<open>CommentForm\<close> has \<open>text\<close>.
  Template titles built from fixed Russian strings are not part of the contexts.
\<close>

section \<open>Requests and responses\<close>

text \<open>The fields of \<open>request.POST\<close> the forms read, and the clear checkbox of the
  image widget.\<close>

record post_data =
  fd_text :: string
  fd_group :: "group_id option"
  fd_image_clear :: bool

text \<open>\<open>request.user\<close> (\<open>None\<close> when anonymous), \<open>request.get_full_path()\<close> (the path
  with its query string, which \<open>login_required\<close> passes as \<open>next\<close>),
  \<open>request.GET.get("page")\<close>, \<open>request.POST\<close> (\<open>None\<close> when empty, so that
  \<open>request.POST or None\<close> is \<open>None\<close>) and the name of an uploaded image.\<close>

record request =
  req_user :: "user option"
  req_path :: string
  req_page :: "string option"
  req_post :: "post_data option"
  req_file :: "string option"

datatype url = LoginUrl string | ProfileUrl string | PostDetailUrl post_id

datatype 'c response = Render string 'c | Redirect url | NotFound | ServerError

text \<open>\<open>get_object_or_404(Model, field=value)\<close>: the single match, a 404 for none, and the
  exception \<open>MultipleObjectsReturned\<close> (a server error) for several.\<close>

definition get_or_404 :: "('a \<Rightarrow> bool) \<Rightarrow> 'a list \<Rightarrow> 'c response + 'a" where
  "get_or_404 P xs =
     (case objects_get P xs of
        Inr x \<Rightarrow> Inr x
      | Inl DoesNotExist \<Rightarrow> Inl NotFound
      | Inl _ \<Rightarrow> Inl ServerError)"

text \<open>\<open>@login_required\<close>: an anonymous request is redirected to the login page with the
  requested path as \<open>next\<close>; otherwise the view runs for the logged-in user.\<close>

definition login_required ::
  "(user \<Rightarrow> request \<Rightarrow> db \<Rightarrow> 'c response \<times> db) \<Rightarrow> request \<Rightarrow> db \<Rightarrow> 'c response \<times> db" where
  "login_required view req d =
     (case req_user req of
        None \<Rightarrow> (Redirect (LoginUrl (req_path req)), d)
      | Some u \<Rightarrow> view u req d)"

section \<open>Forms\<close>

text \<open>\<open>PostForm.is_valid()\<close>: the stripped text is not empty, the chosen group exists,
  and the image widget is not asked both to clear and to upload.\<close>

definition post_form_valid :: "db \<Rightarrow> post_data \<Rightarrow> string option \<Rightarrow> bool" where
  "post_form_valid d pd up \<longleftrightarrow>
     py_strip (fd_text pd) \<noteq> [] \<and> group_ref_ok (group_ids d) (fd_group pd)
     \<and> \<not> (fd_image_clear pd \<and> up \<noteq> None)"

definition comment_form_valid :: "post_data \<Rightarrow> bool" where
  "comment_form_valid pd \<longleftrightarrow> py_strip (fd_text pd) \<noteq> []"

text \<open>The image a saved form stores: an upload under \<open>upload_to="posts/"\<close>, nothing
  when cleared, and otherwise the image the instance had.\<close>

definition form_image :: "string \<Rightarrow> post_data \<Rightarrow> string option \<Rightarrow> string" where
  "form_image old pd up =
     (case up of Some n \<Rightarrow> ''posts/'' @ n | None \<Rightarrow> if fd_image_clear pd then [] else old)"

section \<open>Contexts\<close>

record index_ctx =
  ix_page :: "post page"

record group_ctx =
  gp_group :: group
  gp_page :: "post page"

record profile_ctx =
  pr_page :: "post page"
  pr_counter_posts :: nat
  pr_author :: user
  pr_following :: bool
  pr_followers_count :: nat
  pr_following_count :: nat

record detail_ctx =
  dt_title :: string
  dt_post :: post
  dt_counter_posts :: nat
  dt_comments :: "comment list"

record form_ctx =
  fm_form :: "post_data option"
  fm_post :: "post option"
  fm_edit :: bool

record follow_ctx =
  fl_page :: "post page"
  fl_paginator :: "post paginator"

section \<open>Read-only views\<close>

definition index :: "db \<Rightarrow> request \<Rightarrow> index_ctx response" where
  "index d req =
     (case paginate (all_posts d) (req_page req) of
        Inl _ \<Rightarrow> ServerError
      | Inr pg \<Rightarrow> Render ''posts/index.html'' \<lparr>ix_page = pg\<rparr>)"

definition group_posts :: "db \<Rightarrow> request \<Rightarrow> string \<Rightarrow> group_ctx response" where
  "group_posts d req slug =
     (case get_or_404 (\<lambda>g. group_slug g = slug) (groups d) of
        Inl r \<Rightarrow> r
      | Inr g \<Rightarrow>
          (case paginate (group_post_list d (group_id g)) (req_page req) of
             Inl _ \<Rightarrow> ServerError
           | Inr pg \<Rightarrow> Render ''posts/group_list.html'' \<lparr>gp_group = g, gp_page = pg\<rparr>))"

definition profile :: "db \<Rightarrow> request \<Rightarrow> string \<Rightarrow> profile_ctx response" where
  "profile d req name =
     (case get_or_404 (\<lambda>u. username u = name) (users d) of
        Inl r \<Rightarrow> r
      | Inr author \<Rightarrow>
          (let ps = author_post_list d (user_id author)
           in case paginate ps (req_page req) of
                Inl _ \<Rightarrow> ServerError
              | Inr pg \<Rightarrow> Render ''posts/profile.html''
                  \<lparr>pr_page = pg, pr_counter_posts = length ps, pr_author = author,
                   pr_following = (case req_user req of
                                     None \<Rightarrow> False
                                   | Some u \<Rightarrow> objects_exists
                                        (\<lambda>f. follow_pair f = (user_id u, user_id author)) (follows d)),
                   pr_followers_count = length (filter (\<lambda>f. follow_author f = user_id author) (follows d)),
                   pr_following_count = length (filter (\<lambda>f. follow_user f = user_id author) (follows d))\<rparr>))"

definition post_detail :: "db \<Rightarrow> request \<Rightarrow> post_id \<Rightarrow> detail_ctx response" where
  "post_detail d req pid =
     (case get_or_404 (\<lambda>p. post_id p = pid) (posts d) of
        Inl r \<Rightarrow> r
      | Inr p \<Rightarrow> Render ''posts/post_detail.html''
          \<lparr>dt_title = post_text p, dt_post = p,
           dt_counter_posts = length (filter (\<lambda>q. post_author q = post_author p) (posts d)),
           dt_comments = post_comments d pid\<rparr>)"

section \<open>Views that write\<close>

definition post_create_view :: "user \<Rightarrow> request \<Rightarrow> db \<Rightarrow> form_ctx response \<times> db" where
  "post_create_view u req d =
     (let render = Render ''posts/post_create.html'' \<lparr>fm_form = req_post req, fm_post = None, fm_edit = False\<rparr>
      in case req_post req of
           None \<Rightarrow> (render, d)
         | Some pd \<Rightarrow>
             if post_form_valid d pd (req_file req)
             then (Redirect (ProfileUrl (username u)),
                   snd (create_post d (py_strip (fd_text pd)) (user_id u) (fd_group pd)
                          (form_image [] pd (req_file req))))
             else (render, d))"

definition post_create :: "request \<Rightarrow> db \<Rightarrow> form_ctx response \<times> db" where
  "post_create = login_required post_create_view"

definition post_edit_view :: "post_id \<Rightarrow> user \<Rightarrow> request \<Rightarrow> db \<Rightarrow> form_ctx response \<times> db" where
  "post_edit_view pid u req d =
     (case get_or_404 (\<lambda>p. post_id p = pid) (posts d) of
        Inl r \<Rightarrow> (r, d)
      | Inr p \<Rightarrow>
          if user_id u \<noteq> post_author p then (Redirect (PostDetailUrl pid), d)
          else
            (let render = Render ''posts/post_create.html''
                            \<lparr>fm_form = req_post req, fm_post = Some p, fm_edit = True\<rparr>
             in case req_post req of
                  None \<Rightarrow> (render, d)
                | Some pd \<Rightarrow>
                    if post_form_valid d pd (req_file req)
                    then (Redirect (PostDetailUrl pid),
                          save_post d (p\<lparr>post_text := py_strip (fd_text pd), post_group := fd_group pd,
                                         post_image := form_image (post_image p) pd (req_file req)\<rparr>))
                    else (render, d)))"

definition post_edit :: "post_id \<Rightarrow> request \<Rightarrow> db \<Rightarrow> form_ctx response \<times> db" where
  "post_edit pid = login_required (post_edit_view pid)"

definition add_comment_view :: "post_id \<Rightarrow> user \<Rightarrow> request \<Rightarrow> db \<Rightarrow> unit response \<times> db" where
  "add_comment_view pid u req d =
     (case get_or_404 (\<lambda>p. post_id p = pid) (posts d) of
        Inl r \<Rightarrow> (r, d)
      | Inr p \<Rightarrow>
          (Redirect (PostDetailUrl pid),
           case req_post req of
             Some pd \<Rightarrow>
               if comment_form_valid pd
               then snd (create_comment d (post_id p) (user_id u) (py_strip (fd_text pd)))
               else d
           | None \<Rightarrow> d))"

definition add_comment :: "post_id \<Rightarrow> request \<Rightarrow> db \<Rightarrow> unit response \<times> db" where
  "add_comment pid = login_required (add_comment_view pid)"

definition follow_index_view :: "user \<Rightarrow> request \<Rightarrow> db \<Rightarrow> follow_ctx response \<times> db" where
  "follow_index_view u req d =
     (let ps = follow_post_list d (user_id u)
      in case paginate ps (req_page req) of
           Inl _ \<Rightarrow> (ServerError, d)
         | Inr pg \<Rightarrow> (Render ''posts/follow.html''
                       \<lparr>fl_page = pg, fl_paginator = make_paginator ps PAR_PAGE\<rparr>, d))"

definition follow_index :: "request \<Rightarrow> db \<Rightarrow> follow_ctx response \<times> db" where
  "follow_index = login_required follow_index_view"

definition profile_follow_view :: "string \<Rightarrow> user \<Rightarrow> request \<Rightarrow> db \<Rightarrow> unit response \<times> db" where
  "profile_follow_view name u req d =
     (case get_or_404 (\<lambda>x. username x = name) (users d) of
        Inl r \<Rightarrow> (r, d)
      | Inr a \<Rightarrow>
          if user_id u \<noteq> user_id a then
            (case follow_get_or_create d (user_id u) (user_id a) of
               Inl _ \<Rightarrow> (ServerError, d)
             | Inr (_, _, d') \<Rightarrow> (Redirect (ProfileUrl name), d'))
          else (Redirect (ProfileUrl name), d))"

definition profile_follow :: "string \<Rightarrow> request \<Rightarrow> db \<Rightarrow> unit response \<times> db" where
  "profile_follow name = login_required (profile_follow_view name)"

definition profile_unfollow_view :: "string \<Rightarrow> user \<Rightarrow> request \<Rightarrow> db \<Rightarrow> unit response \<times> db" where
  "profile_unfollow_view name u req d =
     (case get_or_404 (\<lambda>x. username x = name) (users d) of
        Inl r \<Rightarrow> (r, d)
      | Inr a \<Rightarrow> (Redirect (ProfileUrl name), follow_filter_delete d (user_id u) (user_id a)))"

definition profile_unfollow :: "string \<Rightarrow> request \<Rightarrow> db \<Rightarrow> unit response \<times> db" where
  "profile_unfollow name = login_required (profile_unfollow_view name)"

section \<open>An example store\<close>

text \<open>A store with two users, two groups and one post of the first user in the first
  group, as the fixtures of \<open>tests/test_views.py\<close> build it; the witnesses evaluate the
  views on it.\<close>

definition ex_db :: db where
  "ex_db = empty_db\<lparr>
     users := [\<lparr>user_id = 1, username = ''author''\<rparr>, \<lparr>user_id = 2, username = ''follower''\<rparr>],
     groups := [\<lparr>group_id = 1, group_title = ''G1'', group_slug = ''g1'', group_description = []\<rparr>,
                \<lparr>group_id = 2, group_title = ''G2'', group_slug = ''g2'', group_description = []\<rparr>],
     posts := [\<lparr>post_id = 1, post_text = ''hello'', pub_date = 1, post_author = 1,
                post_group = Some 1, post_image = []\<rparr>],
     user_seq := 3, group_seq := 3, post_seq := 2, clock := 1\<rparr>"

definition ex_req :: "user option \<Rightarrow> post_data option \<Rightarrow> request" where
  "ex_req u pd = \<lparr>req_user = u, req_path = ''/'', req_page = None, req_post = pd, req_file = None\<rparr>"

text \<open>A logged-in user is a row of the user table.\<close>

definition session_ok :: "db \<Rightarrow> request \<Rightarrow> bool" where
  "session_ok d req \<longleftrightarrow> (case req_user req of None \<Rightarrow> True | Some u \<Rightarrow> u \<in> set (users d))"

section \<open>Lookups and the login guard\<close>

lemma get_or_404_key [simp]:
  "distinct (map key xs) \<Longrightarrow> x \<in> set xs \<Longrightarrow> key x = k \<Longrightarrow> get_or_404 (\<lambda>r. key r = k) xs = Inr x"
  by (simp add: get_or_404_def)

lemma get_or_404_missing [simp]:
  "k \<notin> key ` set xs \<Longrightarrow> get_or_404 (\<lambda>r. key r = k) xs = Inl NotFound"
  by (simp add: get_or_404_def)

lemma get_or_404_Inr [simp]: "objects_get P xs = Inr x \<Longrightarrow> get_or_404 P xs = Inr x"
  by (simp add: get_or_404_def)

lemma get_or_404_DoesNotExist [simp]:
  "objects_get P xs = Inl DoesNotExist \<Longrightarrow> get_or_404 P xs = Inl NotFound"
  by (simp add: get_or_404_def)

lemma get_or_404_Inl:
  "get_or_404 P xs = Inl r \<Longrightarrow> r = NotFound \<or> r = ServerError"
  by (auto simp: get_or_404_def split: sum.splits orm_error.splits)

lemma get_or_404_Inr_match: "get_or_404 P xs = Inr x \<Longrightarrow> x \<in> set xs \<and> P x"
  by (auto simp: get_or_404_def split: sum.splits orm_error.splits dest: objects_get_Inr)

lemma login_required_anonymous [simp]:
  "req_user req = None \<Longrightarrow> login_required v req d = (Redirect (LoginUrl (req_path req)), d)"
  by (simp add: login_required_def)

lemma login_required_user [simp]:
  "req_user req = Some u \<Longrightarrow> login_required v req d = v u req d"
  by (simp add: login_required_def)

section \<open>Every writing view keeps the invariant\<close>

lemma db_ok_login_required:
  assumes "\<And>u. req_user req = Some u \<Longrightarrow> u \<in> set (users d) \<Longrightarrow> db_ok (snd (v u req d))"
    and "db_ok d" and "session_ok d req"
  shows "db_ok (snd (login_required v req d))"
  using assms by (cases "req_user req") (auto simp: session_ok_def)

lemma db_ok_post_create_view:
  assumes ok: "db_ok d" and u: "u \<in> set (users d)"
  shows "db_ok (snd (post_create_view u req d))"
proof (cases "req_post req")
  case (Some pd)
  show ?thesis
  proof (cases "post_form_valid d pd (req_file req)")
    case True
    then have "group_ref_ok (group_ids d) (fd_group pd)" by (simp add: post_form_valid_def)
    with ok u True Some show ?thesis
      by (simp add: post_create_view_def Let_def db_ok_create_post)
  qed (simp add: post_create_view_def Let_def Some ok)
qed (simp add: post_create_view_def Let_def ok)

lemma db_ok_post_edit_view:
  assumes ok: "db_ok d"
  shows "db_ok (snd (post_edit_view pid u req d))"
  using db_ok_distinct(1) [OF ok]
proof (cases rule: objects_get_key_cases [where k = pid])
  case (found p)
  have "post_ok d q"
    if "post_id q = post_id p" "post_author q = post_author p" "pub_date q = pub_date p"
      "group_ref_ok (group_ids d) (post_group q) \<or> post_group q = post_group p" for q
    using db_ok_post_ok [OF ok found(1)] that by (auto simp: post_ok_def)
  with ok found show ?thesis
    by (auto simp: post_edit_view_def Let_def post_form_valid_def
        intro!: db_ok_save_post split: option.splits)
next
  case missing
  with ok show ?thesis by (simp add: post_edit_view_def)
qed

lemma db_ok_add_comment_view:
  assumes ok: "db_ok d" and u: "u \<in> set (users d)"
  shows "db_ok (snd (add_comment_view pid u req d))"
  using db_ok_distinct(1) [OF ok]
proof (cases rule: objects_get_key_cases [where k = pid])
  case (found p)
  with ok u show ?thesis
    by (auto simp: add_comment_view_def intro!: db_ok_create_comment split: option.splits)
next
  case missing
  with ok show ?thesis by (simp add: add_comment_view_def)
qed

lemma db_ok_profile_follow_view:
  assumes ok: "db_ok d" and u: "u \<in> set (users d)"
  shows "db_ok (snd (profile_follow_view name u req d))"
  using db_ok_distinct(2) [OF ok]
proof (cases rule: objects_get_key_cases [where k = name])
  case (found a)
  then have view: "profile_follow_view name u req d =
      (if user_id u \<noteq> user_id a then
         (case follow_get_or_create d (user_id u) (user_id a) of
            Inl _ \<Rightarrow> (ServerError, d)
          | Inr (_, _, d') \<Rightarrow> (Redirect (ProfileUrl name), d'))
       else (Redirect (ProfileUrl name), d))"
    by (simp add: profile_follow_view_def)
  show ?thesis
  proof (cases "follow_get_or_create d (user_id u) (user_id a)")
    case (Inl e)
    with ok show ?thesis by (simp only: view) simp
  next
    case (Inr r)
    obtain f b d' where r: "r = (f, b, d')" by (cases r) auto
    have "db_ok d'"
      using db_ok_follow_get_or_create [OF ok _ _ Inr [unfolded r]] u found(1) by simp
    with Inr r ok show ?thesis by (simp only: view) simp
  qed
next
  case missing
  with ok show ?thesis by (simp add: profile_follow_view_def)
qed

lemma db_ok_profile_unfollow_view:
  assumes ok: "db_ok d"
  shows "db_ok (snd (profile_unfollow_view name u req d))"
  using db_ok_distinct(2) [OF ok]
proof (cases rule: objects_get_key_cases [where k = name])
  case (found a)
  with ok show ?thesis by (simp add: profile_unfollow_view_def db_ok_follow_filter_delete)
next
  case missing
  with ok show ?thesis by (simp add: profile_unfollow_view_def)
qed

section \<open>Responses on a store satisfying the invariant\<close>

lemma objects_get_found_or_missing:
  "distinct (map key xs) \<Longrightarrow>
   objects_get (\<lambda>r. key r = k) xs = Inl DoesNotExist \<or> (\<exists>x. objects_get (\<lambda>r. key r = k) xs = Inr x)"
  by (cases "k \<in> key ` set xs") auto

lemma follow_get_or_create_not_Inl: "db_ok d \<Longrightarrow> follow_get_or_create d u a = Inl e \<Longrightarrow> False"
  by (cases rule: follow_get_or_create_cases [where u = u and a = a]) auto

lemma index_no_error: "index d req \<noteq> ServerError"
  by (simp add: index_def paginate_eq)

lemma group_posts_no_error: "db_ok d \<Longrightarrow> group_posts d req slug \<noteq> ServerError"
  using objects_get_found_or_missing [OF db_ok_distinct(3), of d slug]
  by (auto simp: group_posts_def paginate_eq)

lemma profile_no_error: "db_ok d \<Longrightarrow> profile d req name \<noteq> ServerError"
  using objects_get_found_or_missing [OF db_ok_distinct(2), of d name]
  by (auto simp: profile_def Let_def paginate_eq)

lemma post_detail_no_error: "db_ok d \<Longrightarrow> post_detail d req pid \<noteq> ServerError"
  using objects_get_found_or_missing [OF db_ok_distinct(1), of d pid]
  by (auto simp: post_detail_def)

lemma post_create_no_error: "fst (post_create req d) \<noteq> ServerError"
  by (auto simp: post_create_def login_required_def post_create_view_def Let_def
      split: option.splits)

lemma post_edit_no_error: "db_ok d \<Longrightarrow> fst (post_edit pid req d) \<noteq> ServerError"
  using objects_get_found_or_missing [OF db_ok_distinct(1), of d pid]
  by (auto simp: post_edit_def login_required_def post_edit_view_def Let_def
      split: option.splits if_splits)

lemma add_comment_no_error: "db_ok d \<Longrightarrow> fst (add_comment pid req d) \<noteq> ServerError"
  using objects_get_found_or_missing [OF db_ok_distinct(1), of d pid]
  by (auto simp: add_comment_def login_required_def add_comment_view_def split: option.splits)

lemma follow_index_no_error: "fst (follow_index req d) \<noteq> ServerError"
  by (auto simp: follow_index_def login_required_def follow_index_view_def Let_def paginate_eq
      split: option.splits)

lemma profile_follow_no_error: "db_ok d \<Longrightarrow> fst (profile_follow name req d) \<noteq> ServerError"
  using objects_get_found_or_missing [OF db_ok_distinct(2), of d name]
  by (auto simp: profile_follow_def login_required_def profile_follow_view_def
      split: option.splits if_splits sum.splits dest: follow_get_or_create_not_Inl)

lemma profile_unfollow_no_error: "db_ok d \<Longrightarrow> fst (profile_unfollow name req d) \<noteq> ServerError"
  using objects_get_found_or_missing [OF db_ok_distinct(2), of d name]
  by (auto simp: profile_unfollow_def login_required_def profile_unfollow_view_def
      split: option.splits)

section \<open>Properties of the views\<close>

text \<open>
  C12. Authorization of the mutating views: an unauthenticated request to create or
  edit a post, to comment, to read the follow feed, to follow or to unfollow is
  redirected to the login page with the requested path as \<open>next\<close>, and the store is
  left unchanged.
\<close>

theorem anonymous_redirected_to_login:
  assumes "req_user req = None"
  shows "post_create req d = (Redirect (LoginUrl (req_path req)), d)
       \<and> post_edit pid req d = (Redirect (LoginUrl (req_path req)), d)
       \<and> add_comment pid req d = (Redirect (LoginUrl (req_path req)), d)
       \<and> follow_index req d = (Redirect (LoginUrl (req_path req)), d)
       \<and> profile_follow name req d = (Redirect (LoginUrl (req_path req)), d)
       \<and> profile_unfollow name req d = (Redirect (LoginUrl (req_path req)), d)"
  using assms
  by (simp add: post_create_def post_edit_def add_comment_def follow_index_def
      profile_follow_def profile_unfollow_def)

theorem anonymous_redirected_to_login_witness:
  "add_comment 1 \<lparr>req_user = None, req_path = ''/posts/1/comment/'', req_page = None,
       req_post = Some \<lparr>fd_text = ''hi'', fd_group = None, fd_image_clear = False\<rparr>, req_file = None\<rparr>
     empty_db
   = (Redirect (LoginUrl ''/posts/1/comment/''), empty_db)"
  using anonymous_redirected_to_login
    [of "\<lparr>req_user = None, req_path = ''/posts/1/comment/'', req_page = None,
          req_post = Some \<lparr>fd_text = ''hi'', fd_group = None, fd_image_clear = False\<rparr>, req_file = None\<rparr>"
        empty_db 1 "''x''"]
  by simp

lemma ex_db_ok: "db_ok ex_db"
  by (simp add: ex_db_def empty_db_def db_ok_def table_ok_defs post_ok_def group_ref_ok_def)

lemmas ex_simps = ex_db_def empty_db_def ex_req_def get_or_404_def objects_get_def

text \<open>
  C4. Only a post's author may edit it: a logged-in user who is not the author of an
  existing post is redirected to the post's detail page and the store is unchanged.
\<close>

theorem post_edit_non_author:
  assumes ok: "db_ok d" and u: "req_user req = Some u" and p: "p \<in> set (posts d)"
    and other: "user_id u \<noteq> post_author p"
  shows "post_edit (post_id p) req d = (Redirect (PostDetailUrl (post_id p)), d)"
proof -
  have "objects_get (\<lambda>q. post_id q = post_id p) (posts d) = Inr p"
    by (rule objects_get_key [OF db_ok_distinct(1) [OF ok] p refl])
  with u other show ?thesis by (simp add: post_edit_def post_edit_view_def)
qed

theorem post_edit_non_author_witness:
  "post_edit 1 (ex_req (Some \<lparr>user_id = 2, username = ''follower''\<rparr>)
       (Some \<lparr>fd_text = ''changed'', fd_group = None, fd_image_clear = False\<rparr>)) ex_db
   = (Redirect (PostDetailUrl 1), ex_db)"
  using post_edit_non_author [OF ex_db_ok,
      of "ex_req (Some \<lparr>user_id = 2, username = ''follower''\<rparr>)
            (Some \<lparr>fd_text = ''changed'', fd_group = None, fd_image_clear = False\<rparr>)"
         "\<lparr>user_id = 2, username = ''follower''\<rparr>"
         "\<lparr>post_id = 1, post_text = ''hello'', pub_date = 1, post_author = 1,
           post_group = Some 1, post_image = []\<rparr>"]
  by (simp add: ex_simps)

text \<open>
  C5. Editing by the author with a valid form redirects to the post's detail page, and
  the detail page then shows the stripped new text and the chosen group, while the
  post keeps its publication date and its author.
\<close>

theorem post_edit_by_author:
  assumes ok: "db_ok d" and u: "req_user req = Some u" and p: "p \<in> set (posts d)"
    and own: "user_id u = post_author p" and pd: "req_post req = Some pd"
    and valid: "post_form_valid d pd (req_file req)"
  shows "\<exists>d' ctx. post_edit (post_id p) req d = (Redirect (PostDetailUrl (post_id p)), d')
           \<and> post_detail d' r (post_id p) = Render ''posts/post_detail.html'' ctx
           \<and> post_text (dt_post ctx) = py_strip (fd_text pd)
           \<and> post_group (dt_post ctx) = fd_group pd
           \<and> pub_date (dt_post ctx) = pub_date p \<and> post_author (dt_post ctx) = post_author p"
proof -
  let ?q = "p\<lparr>post_text := py_strip (fd_text pd), post_group := fd_group pd,
              post_image := form_image (post_image p) pd (req_file req)\<rparr>"
  have g: "objects_get (\<lambda>q. post_id q = post_id p) (posts d) = Inr p"
    by (rule objects_get_key [OF db_ok_distinct(1) [OF ok] p refl])
  have e: "post_edit (post_id p) req d = (Redirect (PostDetailUrl (post_id p)), save_post d ?q)"
    using g u own pd valid by (simp add: post_edit_def post_edit_view_def Let_def)
  have "objects_get (\<lambda>x. post_id x = post_id ?q) (posts (save_post d ?q)) = Inr ?q"
    using p db_ok_distinct(1) [OF ok] by (intro save_post_lookup) auto
  then have "post_detail (save_post d ?q) r (post_id p) =
      Render ''posts/post_detail.html'' \<lparr>dt_title = post_text ?q, dt_post = ?q,
        dt_counter_posts = length (filter (\<lambda>x. post_author x = post_author ?q) (posts (save_post d ?q))),
        dt_comments = post_comments (save_post d ?q) (post_id p)\<rparr>"
    by (simp add: post_detail_def)
  with e show ?thesis by auto
qed

theorem post_edit_by_author_witness:
  "\<exists>d' ctx. post_edit 1 (ex_req (Some \<lparr>user_id = 1, username = ''author''\<rparr>)
       (Some \<lparr>fd_text = '' changed '', fd_group = None, fd_image_clear = False\<rparr>)) ex_db
       = (Redirect (PostDetailUrl 1), d')
     \<and> post_detail d' (ex_req None None) 1 = Render ''posts/post_detail.html'' ctx
     \<and> post_text (dt_post ctx) = ''changed'' \<and> post_group (dt_post ctx) = None
     \<and> pub_date (dt_post ctx) = 1 \<and> post_author (dt_post ctx) = 1"
proof -
  have s: "py_strip '' changed '' = ''changed''" by code_simp
  show ?thesis
    using post_edit_by_author [OF ex_db_ok,
      of "ex_req (Some \<lparr>user_id = 1, username = ''author''\<rparr>)
            (Some \<lparr>fd_text = '' changed '', fd_group = None, fd_image_clear = False\<rparr>)"
         "\<lparr>user_id = 1, username = ''author''\<rparr>"
         "\<lparr>post_id = 1, post_text = ''hello'', pub_date = 1, post_author = 1,
           post_group = Some 1, post_image = []\<rparr>"
         "\<lparr>fd_text = '' changed '', fd_group = None, fd_image_clear = False\<rparr>"
         "ex_req None None"]
    by (simp add: ex_simps s post_form_valid_def group_ref_ok_def)
qed

text \<open>
  C13. A logged-in user's valid comment on an existing post is stored: the request is
  redirected to the post's detail page and the post's comments gain, at the end, a
  comment by that user with the stripped text and the current time.
\<close>

theorem add_comment_persists:
  assumes ok: "db_ok d" and u: "req_user req = Some u" and p: "p \<in> set (posts d)"
    and pd: "req_post req = Some pd" and valid: "comment_form_valid pd"
  shows "\<exists>d'. add_comment (post_id p) req d = (Redirect (PostDetailUrl (post_id p)), d')
           \<and> post_comments d' (post_id p) = post_comments d (post_id p) @
               [\<lparr>comment_id = comment_seq d, comment_post = post_id p, comment_author = user_id u,
                 comment_created = clock d, comment_text = py_strip (fd_text pd)\<rparr>]"
proof -
  have "objects_get (\<lambda>q. post_id q = post_id p) (posts d) = Inr p"
    by (rule objects_get_key [OF db_ok_distinct(1) [OF ok] p refl])
  with u pd valid show ?thesis
    by (simp add: add_comment_def add_comment_view_def create_comment_comments post_comments_def)
qed

theorem add_comment_persists_witness:
  "\<exists>d'. add_comment 1 (ex_req (Some \<lparr>user_id = 2, username = ''follower''\<rparr>)
            (Some \<lparr>fd_text = ''nice'', fd_group = None, fd_image_clear = False\<rparr>)) ex_db
          = (Redirect (PostDetailUrl 1), d')
      \<and> post_comments d' 1 = [\<lparr>comment_id = 1, comment_post = 1, comment_author = 2,
                                 comment_created = 1, comment_text = ''nice''\<rparr>]"
proof -
  have s: "py_strip ''nice'' = ''nice''" by code_simp
  show ?thesis
    using add_comment_persists [OF ex_db_ok,
      of "ex_req (Some \<lparr>user_id = 2, username = ''follower''\<rparr>)
            (Some \<lparr>fd_text = ''nice'', fd_group = None, fd_image_clear = False\<rparr>)"
         "\<lparr>user_id = 2, username = ''follower''\<rparr>"
         "\<lparr>post_id = 1, post_text = ''hello'', pub_date = 1, post_author = 1,
           post_group = Some 1, post_image = []\<rparr>"
         "\<lparr>fd_text = ''nice'', fd_group = None, fd_image_clear = False\<rparr>"]
    by (simp add: ex_simps s comment_form_valid_def post_comments_def)
qed

text \<open>
  C26. References to objects that do not exist yield a 404 and change nothing: a
  missing post for the detail, edit and comment views, a missing group slug for the
  group feed, and a missing username for the profile, follow and unfollow views.
\<close>

theorem missing_objects_not_found:
  assumes "pid \<notin> set (post_ids d)" and "slug \<notin> set (map group_slug (groups d))"
    and "name \<notin> set (map username (users d))" and "req_user req = Some u"
  shows "post_detail d req pid = NotFound \<and> post_edit pid req d = (NotFound, d)
       \<and> add_comment pid req d = (NotFound, d) \<and> group_posts d req slug = NotFound
       \<and> profile d req name = NotFound \<and> profile_follow name req d = (NotFound, d)
       \<and> profile_unfollow name req d = (NotFound, d)"
  using assms
  by (simp add: post_detail_def post_edit_def post_edit_view_def add_comment_def add_comment_view_def
      group_posts_def profile_def profile_follow_def profile_follow_view_def profile_unfollow_def
      profile_unfollow_view_def)

theorem missing_objects_not_found_witness:
  "post_detail ex_db (ex_req None None) 7 = NotFound
   \<and> group_posts ex_db (ex_req None None) ''g9'' = NotFound
   \<and> profile_follow ''nobody'' (ex_req (Some \<lparr>user_id = 1, username = ''author''\<rparr>) None) ex_db
       = (NotFound, ex_db)"
  using missing_objects_not_found [of 7 ex_db "''g9''" "''nobody''" "ex_req (Some \<lparr>user_id = 1, username = ''author''\<rparr>) None"
      "\<lparr>user_id = 1, username = ''author''\<rparr>"]
  by (simp add: ex_db_def empty_db_def ex_req_def post_detail_def group_posts_def get_or_404_def objects_get_def)

text \<open>
  C3. The group feed shows only the group it names: every post on a rendered page of
  \<open>group_posts\<close> for a slug belongs to the group with that slug, so a post of group A
  never appears in the feed of another group B.
\<close>

theorem group_feed_isolation:
  assumes "group_posts d req slug = Render t ctx"
  shows "group_slug (gp_group ctx) = slug
       \<and> (\<forall>p\<in>set (page_object_list (gp_page ctx)). post_group p = Some (group_id (gp_group ctx)))"
proof -
  from assms obtain g pg
    where g: "get_or_404 (\<lambda>g. group_slug g = slug) (groups d) = (Inr g :: group_ctx response + group)"
    and pg: "paginate (group_post_list d (group_id g)) (req_page req) = Inr pg"
    and ctx: "ctx = \<lparr>gp_group = g, gp_page = pg\<rparr>"
    by (auto simp: group_posts_def split: sum.splits dest: get_or_404_Inl)
  from g have "group_slug g = slug" by (auto dest: get_or_404_Inr_match)
  moreover from paginate_subset [OF pg]
  have "\<forall>p\<in>set (page_object_list pg). post_group p = Some (group_id g)"
    by (auto simp: group_post_list_def)
  ultimately show ?thesis using ctx by simp
qed

theorem group_feed_isolation_witness:
  "group_posts ex_db (ex_req None None) ''g2'' =
     Render ''posts/group_list.html''
       \<lparr>gp_group = \<lparr>group_id = 2, group_title = ''G2'', group_slug = ''g2'', group_description = []\<rparr>,
        gp_page = \<lparr>page_object_list = [], page_number = 1\<rparr>\<rparr>
   \<and> group_slug \<lparr>group_id = 2, group_title = ''G2'', group_slug = ''g2'', group_description = []\<rparr> = ''g2''"
proof -
  have r: "group_posts ex_db (ex_req None None) ''g2'' =
     Render ''posts/group_list.html''
       \<lparr>gp_group = \<lparr>group_id = 2, group_title = ''G2'', group_slug = ''g2'', group_description = []\<rparr>,
        gp_page = \<lparr>page_object_list = [], page_number = 1\<rparr>\<rparr>"
    by (simp add: group_posts_def ex_simps paginate_first group_post_list_def order_posts_def)
  show ?thesis using group_feed_isolation [OF r] r by simp
qed

text \<open>
  C14. An invalid form changes nothing (spec 4.2 and 4.4): for a logged-in user and an
  existing post, \<open>post_create\<close> with an invalid post form renders the form again,
  \<open>post_edit\<close> by the author renders the edit form again with the post, and
  \<open>add_comment\<close> with an invalid comment form redirects to the post; in every case
  the store is unchanged.
\<close>

theorem invalid_forms_change_nothing:
  assumes ok: "db_ok d" and u: "req_user req = Some u" and pd: "req_post req = Some pd"
    and p: "p \<in> set (posts d)"
  shows "(\<not> post_form_valid d pd (req_file req) \<longrightarrow>
            post_create req d = (Render ''posts/post_create.html''
               \<lparr>fm_form = Some pd, fm_post = None, fm_edit = False\<rparr>, d)
          \<and> (user_id u = post_author p \<longrightarrow> post_edit (post_id p) req d = (Render ''posts/post_create.html''
               \<lparr>fm_form = Some pd, fm_post = Some p, fm_edit = True\<rparr>, d)))
       \<and> (\<not> comment_form_valid pd \<longrightarrow> add_comment (post_id p) req d = (Redirect (PostDetailUrl (post_id p)), d))"
proof -
  have "objects_get (\<lambda>q. post_id q = post_id p) (posts d) = Inr p"
    by (rule objects_get_key [OF db_ok_distinct(1) [OF ok] p refl])
  with u pd show ?thesis
    by (simp add: post_create_def post_create_view_def post_edit_def post_edit_view_def
        add_comment_def add_comment_view_def Let_def)
qed

theorem invalid_forms_change_nothing_witness:
  "post_create (ex_req (Some \<lparr>user_id = 1, username = ''author''\<rparr>)
       (Some \<lparr>fd_text = '' '', fd_group = None, fd_image_clear = False\<rparr>)) ex_db
     = (Render ''posts/post_create.html''
          \<lparr>fm_form = Some \<lparr>fd_text = '' '', fd_group = None, fd_image_clear = False\<rparr>, fm_post = None,
           fm_edit = False\<rparr>, ex_db)
   \<and> add_comment 1 (ex_req (Some \<lparr>user_id = 1, username = ''author''\<rparr>)
       (Some \<lparr>fd_text = '' '', fd_group = None, fd_image_clear = False\<rparr>)) ex_db
     = (Redirect (PostDetailUrl 1), ex_db)"
proof -
  have p: "\<lparr>post_id = 1, post_text = ''hello'', pub_date = 1, post_author = 1,
                post_group = Some 1, post_image = []\<rparr> \<in> set (posts ex_db)"
    by (simp add: ex_db_def)
  show ?thesis
    using invalid_forms_change_nothing [OF ex_db_ok _ _ p,
        of "ex_req (Some \<lparr>user_id = 1, username = ''author''\<rparr>)
              (Some \<lparr>fd_text = '' '', fd_group = None, fd_image_clear = False\<rparr>)"
           "\<lparr>user_id = 1, username = ''author''\<rparr>"
           "\<lparr>fd_text = '' '', fd_group = None, fd_image_clear = False\<rparr>"]
    by (simp add: ex_req_def post_form_valid_def comment_form_valid_def py_strip_def py_whitespace_def
        del: ex_db_def)
qed

text \<open>
  C6. Every feed lists the newest posts first (\<open>Post.Meta.ordering = ["-pub_date"]\<close>):
  the page that \<open>index\<close> renders, and the page of \<open>group_posts\<close>, \<open>profile\<close> and
  \<open>follow_index\<close> whenever they render one, is ordered by non-increasing
  \<open>pub_date\<close>, for every store and every \<open>page\<close> parameter.
\<close>

theorem feeds_newest_first:
  "(\<exists>c. index d req = Render ''posts/index.html'' c
        \<and> sorted_wrt (\<lambda>p q. pub_date q \<le> pub_date p) (page_object_list (ix_page c)))
   \<and> (case group_posts d req slug of
        Render _ c \<Rightarrow> sorted_wrt (\<lambda>p q. pub_date q \<le> pub_date p) (page_object_list (gp_page c))
      | _ \<Rightarrow> True)
   \<and> (case profile d req name of
        Render _ c \<Rightarrow> sorted_wrt (\<lambda>p q. pub_date q \<le> pub_date p) (page_object_list (pr_page c))
      | _ \<Rightarrow> True)
   \<and> (case fst (follow_index req d) of
        Render _ c \<Rightarrow> sorted_wrt (\<lambda>p q. pub_date q \<le> pub_date p) (page_object_list (fl_page c))
      | _ \<Rightarrow> True)"
proof (intro conjI)
  show "\<exists>c. index d req = Render ''posts/index.html'' c
        \<and> sorted_wrt (\<lambda>p q. pub_date q \<le> pub_date p) (page_object_list (ix_page c))"
    using paginate_order_posts_sorted [of "posts d" "req_page req"]
    by (simp add: index_def all_posts_def paginate_eq)
qed (auto simp: group_posts_def group_post_list_def profile_def author_post_list_def
      follow_index_def follow_index_view_def follow_post_list_def login_required_def Let_def
      paginate_order_posts_sorted dest: get_or_404_Inl split: sum.splits option.splits response.splits)

end
