(* ===== verification/FollowGraph.thy ===== *)
theory FollowGraph
  imports Views
begin

text \<open>
  The follow graph: the \<open>Follow\<close> table read as a set of directed edges
  \<open>(user, author)\<close>, its abstract operations (follow adds the edge unless the user would
  follow themself; unfollow removes it), and the proof that the views
  \<open>profile_follow\<close> and \<open>profile_unfollow\<close> of \<open>views.py\<close> implement them on every store
  that satisfies the invariant. Because \<open>Follow.Meta.constraints\<close> makes each edge a
  single row, the number of rows for an edge is 0 or 1; following twice keeps it at 1
  and unfollowing brings it back to 0.
\<close>

section \<open>Abstraction\<close>

definition follow_edges :: "db \<Rightarrow> (user_id \<times> user_id) set" where
  "follow_edges d = set (map follow_pair (follows d))"

definition edge_count :: "db \<Rightarrow> user_id \<Rightarrow> user_id \<Rightarrow> nat" where
  "edge_count d u a = length (filter (\<lambda>f. follow_pair f = (u, a)) (follows d))"

text \<open>The contract of the follow graph (spec 4.3).\<close>

definition follow_spec :: "(user_id \<times> user_id) set \<Rightarrow> user_id \<Rightarrow> user_id \<Rightarrow> (user_id \<times> user_id) set" where
  "follow_spec E u a = (if u = a then E else insert (u, a) E)"

definition unfollow_spec :: "(user_id \<times> user_id) set \<Rightarrow> user_id \<Rightarrow> user_id \<Rightarrow> (user_id \<times> user_id) set" where
  "unfollow_spec E u a = E - {(u, a)}"

text \<open>The views never create an edge from a user to themself.\<close>

definition no_self_follow :: "db \<Rightarrow> bool" where
  "no_self_follow d \<longleftrightarrow> (\<forall>f\<in>set (follows d). follow_user f \<noteq> follow_author f)"

section \<open>The store operations on edges\<close>

lemma edge_count_distinct:
  "distinct (map follow_pair (follows d)) \<Longrightarrow>
   edge_count d u a = (if (u, a) \<in> follow_edges d then 1 else 0)"
proof -
  assume dist: "distinct (map follow_pair (follows d))"
  show ?thesis
  proof (cases "(u, a) \<in> follow_edges d")
    case True
    then obtain f where "f \<in> set (follows d)" "follow_pair f = (u, a)"
      by (auto simp: follow_edges_def)
    with filter_key_unique [OF dist] True show ?thesis
      by (auto simp: edge_count_def)
  next
    case False
    then have "filter (\<lambda>f. follow_pair f = (u, a)) (follows d) = []"
      by (auto simp: follow_edges_def filter_empty_conv)
    with False show ?thesis by (simp add: edge_count_def)
  qed
qed

lemma follow_get_or_create_edges:
  assumes ok: "db_ok d"
  shows "\<exists>f b d'. follow_get_or_create d u a = Inr (f, b, d')
           \<and> follow_edges d' = insert (u, a) (follow_edges d)
           \<and> users d' = users d \<and> posts d' = posts d \<and> groups d' = groups d \<and> clock d' = clock d"
  using ok
proof (cases rule: follow_get_or_create_cases [where u = u and a = a])
  case (found f)
  then have "(u, a) \<in> follow_edges d" by (force simp: follow_edges_def)
  with found show ?thesis by (auto simp: insert_absorb)
next
  case created
  then show ?thesis by (auto simp: follow_edges_def)
qed

lemma follow_filter_delete_edges:
  "follow_edges (follow_filter_delete d u a) = follow_edges d - {(u, a)}"
  by (auto simp: follow_edges_def follow_filter_delete_def)

section \<open>The views refine the contract\<close>

text \<open>On a store with unique follow pairs, counting the rows that satisfy a condition on
  their pair counts the edges that satisfy it.\<close>

lemma length_filter_follows:
  assumes "distinct (map follow_pair (follows d))"
  shows "length (filter (\<lambda>f. P (follow_pair f)) (follows d)) = card {e \<in> follow_edges d. P e}"
proof -
  have m: "map g (filter (\<lambda>x. Q (g x)) xs) = filter Q (map g xs)" for g :: "'x \<Rightarrow> 'y" and Q xs
    by (induction xs) auto
  have "length (filter (\<lambda>f. P (follow_pair f)) (follows d)) = length (filter P (map follow_pair (follows d)))"
    by (metis m length_map)
  also have "\<dots> = card (set (filter P (map follow_pair (follows d))))"
    by (metis assms distinct_card distinct_filter)
  also have "\<dots> = card {e \<in> follow_edges d. P e}" by (simp add: follow_edges_def)
  finally show ?thesis .
qed

lemma follow_edges_iff:
  "(u, a) \<in> follow_edges d \<longleftrightarrow> (\<exists>f\<in>set (follows d). follow_user f = u \<and> follow_author f = a)"
  by (force simp: follow_edges_def)

lemma username_lookup:
  assumes "db_ok d" and "a \<in> set (users d)"
  shows "objects_get (\<lambda>x. username x = username a) (users d) = Inr a"
  by (rule objects_get_key [OF db_ok_distinct(2) [OF assms(1)] assms(2) refl])

lemma profile_follow_result:
  assumes ok: "db_ok d" and u: "req_user req = Some u" and uin: "u \<in> set (users d)"
    and a: "a \<in> set (users d)"
  shows "\<exists>d'. profile_follow (username a) req d = (Redirect (ProfileUrl (username a)), d')
           \<and> follow_edges d' = follow_spec (follow_edges d) (user_id u) (user_id a)
           \<and> db_ok d' \<and> users d' = users d \<and> posts d' = posts d \<and> groups d' = groups d
           \<and> clock d' = clock d"
proof -
  have g: "objects_get (\<lambda>x. username x = username a) (users d) = Inr a"
    by (rule username_lookup [OF ok a])
  have okv: "db_ok (snd (profile_follow_view (username a) u req d))"
    by (rule db_ok_profile_follow_view [OF ok uin])
  show ?thesis
  proof (cases "user_id u = user_id a")
    case True
    with g u ok show ?thesis by (simp add: profile_follow_def profile_follow_view_def follow_spec_def)
  next
    case False
    from follow_get_or_create_edges [OF ok, of "user_id u" "user_id a"] obtain f b d'
      where r: "follow_get_or_create d (user_id u) (user_id a) = Inr (f, b, d')"
        and e: "follow_edges d' = insert (user_id u, user_id a) (follow_edges d)"
        and same: "users d' = users d" "posts d' = posts d" "groups d' = groups d" "clock d' = clock d"
      by blast
    have v: "profile_follow_view (username a) u req d = (Redirect (ProfileUrl (username a)), d')"
      using g False r by (simp add: profile_follow_view_def)
    with okv have "db_ok d'" by simp
    with v u False e same show ?thesis by (simp add: profile_follow_def follow_spec_def)
  qed
qed

lemma profile_unfollow_result:
  assumes ok: "db_ok d" and u: "req_user req = Some u" and a: "a \<in> set (users d)"
  shows "\<exists>d'. profile_unfollow (username a) req d = (Redirect (ProfileUrl (username a)), d')
           \<and> follow_edges d' = unfollow_spec (follow_edges d) (user_id u) (user_id a)
           \<and> db_ok d' \<and> users d' = users d \<and> posts d' = posts d \<and> groups d' = groups d
           \<and> clock d' = clock d"
proof -
  have g: "objects_get (\<lambda>x. username x = username a) (users d) = Inr a"
    by (rule username_lookup [OF ok a])
  then show ?thesis
    using u ok db_ok_follow_filter_delete [OF ok]
    by (simp add: profile_unfollow_def profile_unfollow_view_def follow_filter_delete_edges
        unfollow_spec_def) (simp add: follow_filter_delete_def)
qed

section \<open>No user follows themself\<close>

lemma follow_index_eq:
  assumes ok: "db_ok d" and u: "req_user req = Some u"
  shows "\<exists>pg. paginate (order_posts (filter (\<lambda>p. (user_id u, post_author p) \<in> follow_edges d) (posts d)))
                   (req_page req) = Inr pg
          \<and> follow_index req d = (Render ''posts/follow.html''
               \<lparr>fl_page = pg, fl_paginator = make_paginator
                  (order_posts (filter (\<lambda>p. (user_id u, post_author p) \<in> follow_edges d) (posts d))) PAR_PAGE\<rparr>, d)"
  using u follow_post_list_filter [OF db_ok_distinct(4) [OF ok], of "user_id u"]
  by (simp add: follow_index_def follow_index_view_def paginate_eq follow_edges_def Let_def)

lemma follows_post_create [simp]: "follows (snd (post_create req d)) = follows d"
  by (simp add: post_create_def login_required_def post_create_view_def Let_def create_post_def
      split: option.splits)

lemma follows_post_edit [simp]: "follows (snd (post_edit pid req d)) = follows d"
  by (simp add: post_edit_def login_required_def post_edit_view_def Let_def save_post_def
      split: option.splits sum.splits)

lemma follows_add_comment [simp]: "follows (snd (add_comment pid req d)) = follows d"
  by (simp add: add_comment_def login_required_def add_comment_view_def create_comment_def Let_def
      split: option.splits sum.splits)

lemma follows_follow_index [simp]: "snd (follow_index req d) = d"
  by (simp add: follow_index_def login_required_def follow_index_view_def Let_def
      split: option.splits sum.splits)

lemma no_self_follow_profile_unfollow:
  "no_self_follow d \<Longrightarrow> no_self_follow (snd (profile_unfollow name req d))"
  by (auto simp: no_self_follow_def profile_unfollow_def login_required_def
      profile_unfollow_view_def follow_filter_delete_def split: option.splits sum.splits)

lemma no_self_follow_get_or_create:
  assumes "no_self_follow d" and "u \<noteq> a" and "follow_get_or_create d u a = Inr (f, b, d')"
  shows "no_self_follow d'"
  using assms
  by (auto simp: no_self_follow_def follow_get_or_create_def Let_def
      split: sum.splits orm_error.splits)

lemma no_self_follow_profile_follow:
  assumes ns: "no_self_follow d"
  shows "no_self_follow (snd (profile_follow name req d))"
proof (cases "req_user req")
  case (Some u)
  show ?thesis
  proof (cases "get_or_404 (\<lambda>x. username x = name) (users d) :: unit response + user")
    case (Inr a)
    show ?thesis
    proof (cases "user_id u \<noteq> user_id a")
      case True
      then show ?thesis
        using Some Inr ns no_self_follow_get_or_create [OF ns True]
        by (auto simp: profile_follow_def profile_follow_view_def split: sum.splits)
    qed (use Some Inr ns in \<open>simp add: profile_follow_def profile_follow_view_def\<close>)
  qed (use Some ns in \<open>simp add: profile_follow_def profile_follow_view_def\<close>)
qed (use ns in \<open>simp add: profile_follow_def\<close>)

section \<open>Properties of the follow graph\<close>

text \<open>
  C23. Refinement: on a store satisfying the invariant, \<open>profile_follow\<close> and
  \<open>profile_unfollow\<close> by a logged-in user act on the edge set exactly as the contract
  says: follow adds the edge \<open>(user, author)\<close> unless the two are the same user,
  unfollow removes it (a no-op when it is absent).
\<close>

theorem follow_views_refine_spec:
  assumes ok: "db_ok d" and u: "req_user req = Some u" and uin: "u \<in> set (users d)"
    and a: "a \<in> set (users d)"
  shows "follow_edges (snd (profile_follow (username a) req d))
           = follow_spec (follow_edges d) (user_id u) (user_id a)
       \<and> follow_edges (snd (profile_unfollow (username a) req d))
           = unfollow_spec (follow_edges d) (user_id u) (user_id a)"
  using profile_follow_result [OF ok u uin a] profile_unfollow_result [OF ok u a] by auto

theorem follow_views_refine_spec_witness:
  "follow_edges (snd (profile_follow ''author'' (ex_req (Some \<lparr>user_id = 2, username = ''follower''\<rparr>) None) ex_db))
     = {(2, 1)}
   \<and> follow_edges (snd (profile_unfollow ''author'' (ex_req (Some \<lparr>user_id = 2, username = ''follower''\<rparr>) None) ex_db))
     = {}"
  using follow_views_refine_spec [OF ex_db_ok,
      of "ex_req (Some \<lparr>user_id = 2, username = ''follower''\<rparr>) None"
         "\<lparr>user_id = 2, username = ''follower''\<rparr>" "\<lparr>user_id = 1, username = ''author''\<rparr>"]
  by (simp add: ex_db_def empty_db_def ex_req_def follow_edges_def follow_spec_def unfollow_spec_def)

text \<open>
  C15. Following is idempotent and unfollowing undoes it: a logged-in user who follows
  another user has exactly one follow row for that pair, still exactly one after
  following a second time, and none after unfollowing.
\<close>

theorem follow_unfollow_counts:
  assumes ok: "db_ok d" and u: "req_user req = Some u" and uin: "u \<in> set (users d)"
    and a: "a \<in> set (users d)" and ne: "user_id u \<noteq> user_id a"
  shows "edge_count (snd (profile_follow (username a) req d)) (user_id u) (user_id a) = 1
       \<and> edge_count (snd (profile_follow (username a) req (snd (profile_follow (username a) req d))))
           (user_id u) (user_id a) = 1
       \<and> edge_count (snd (profile_unfollow (username a) req
            (snd (profile_follow (username a) req (snd (profile_follow (username a) req d))))))
           (user_id u) (user_id a) = 0"
proof -
  from profile_follow_result [OF ok u uin a] obtain d1
    where r1: "profile_follow (username a) req d = (Redirect (ProfileUrl (username a)), d1)"
      and e1: "follow_edges d1 = follow_spec (follow_edges d) (user_id u) (user_id a)"
      and ok1: "db_ok d1" and us1: "users d1 = users d"
    by blast
  from uin a us1 have uin1: "u \<in> set (users d1)" and a1: "a \<in> set (users d1)" by simp_all
  from profile_follow_result [OF ok1 u uin1 a1] obtain d2
    where r2: "profile_follow (username a) req d1 = (Redirect (ProfileUrl (username a)), d2)"
      and e2: "follow_edges d2 = follow_spec (follow_edges d1) (user_id u) (user_id a)"
      and ok2: "db_ok d2" and us2: "users d2 = users d1"
    by blast
  from a1 us2 have a2: "a \<in> set (users d2)" by simp
  from profile_unfollow_result [OF ok2 u a2] obtain d3
    where r3: "profile_unfollow (username a) req d2 = (Redirect (ProfileUrl (username a)), d3)"
      and e3: "follow_edges d3 = unfollow_spec (follow_edges d2) (user_id u) (user_id a)"
      and ok3: "db_ok d3"
    by blast
  have c1: "edge_count d1 (user_id u) (user_id a) = 1"
    using edge_count_distinct [OF db_ok_distinct(4) [OF ok1]] e1 ne by (simp add: follow_spec_def)
  have c2: "edge_count d2 (user_id u) (user_id a) = 1"
    using edge_count_distinct [OF db_ok_distinct(4) [OF ok2]] e2 ne by (simp add: follow_spec_def)
  have c3: "edge_count d3 (user_id u) (user_id a) = 0"
    using edge_count_distinct [OF db_ok_distinct(4) [OF ok3]] e3 by (simp add: unfollow_spec_def)
  from c1 c2 c3 r1 r2 r3 show ?thesis by simp
qed

theorem follow_unfollow_counts_witness:
  "edge_count (snd (profile_follow ''author'' (ex_req (Some \<lparr>user_id = 2, username = ''follower''\<rparr>) None) ex_db)) 2 1 = 1
   \<and> edge_count (snd (profile_follow ''author'' (ex_req (Some \<lparr>user_id = 2, username = ''follower''\<rparr>) None)
       (snd (profile_follow ''author'' (ex_req (Some \<lparr>user_id = 2, username = ''follower''\<rparr>) None) ex_db)))) 2 1 = 1
   \<and> edge_count (snd (profile_unfollow ''author'' (ex_req (Some \<lparr>user_id = 2, username = ''follower''\<rparr>) None)
       (snd (profile_follow ''author'' (ex_req (Some \<lparr>user_id = 2, username = ''follower''\<rparr>) None)
         (snd (profile_follow ''author'' (ex_req (Some \<lparr>user_id = 2, username = ''follower''\<rparr>) None) ex_db)))))) 2 1 = 0"
  using follow_unfollow_counts [OF ex_db_ok,
      of "ex_req (Some \<lparr>user_id = 2, username = ''follower''\<rparr>) None"
         "\<lparr>user_id = 2, username = ''follower''\<rparr>" "\<lparr>user_id = 1, username = ''author''\<rparr>"]
  by (simp add: ex_db_def empty_db_def ex_req_def)

text \<open>
  C16. A user cannot follow themself: \<open>profile_follow\<close> on one's own profile redirects
  back to it and leaves the store unchanged.
\<close>

theorem self_follow_noop:
  assumes ok: "db_ok d" and u: "req_user req = Some u" and uin: "u \<in> set (users d)"
  shows "profile_follow (username u) req d = (Redirect (ProfileUrl (username u)), d)"
proof -
  have "objects_get (\<lambda>x. username x = username u) (users d) = Inr u"
    by (rule username_lookup [OF ok uin])
  with u show ?thesis by (simp add: profile_follow_def profile_follow_view_def)
qed

theorem self_follow_noop_witness:
  "profile_follow ''author'' (ex_req (Some \<lparr>user_id = 1, username = ''author''\<rparr>) None) ex_db
     = (Redirect (ProfileUrl ''author''), ex_db)"
  using self_follow_noop [OF ex_db_ok,
      of "ex_req (Some \<lparr>user_id = 1, username = ''author''\<rparr>) None" "\<lparr>user_id = 1, username = ''author''\<rparr>"]
  by (simp add: ex_db_def empty_db_def ex_req_def)

text \<open>
  C22. Equivalence of the follow feed with its specification: the queryset of
  \<open>follow_index\<close>, an SQL join of posts with follow rows, is on every store satisfying
  the invariant exactly the posts whose author the logged-in user follows, newest first,
  each once.
\<close>

theorem follow_index_join_is_filter:
  assumes ok: "db_ok d" and u: "req_user req = Some u"
  shows "\<exists>c. follow_index req d = (Render ''posts/follow.html'' c, d)
           \<and> pg_object_list (fl_paginator c)
               = order_posts (filter (\<lambda>p. (user_id u, post_author p) \<in> follow_edges d) (posts d))"
  using follow_index_eq [OF ok u] by auto

theorem follow_index_join_is_filter_witness:
  "\<exists>c. follow_index (ex_req (Some \<lparr>user_id = 2, username = ''follower''\<rparr>) None) ex_db
         = (Render ''posts/follow.html'' c, ex_db)
     \<and> pg_object_list (fl_paginator c) = []"
  using follow_index_join_is_filter [OF ex_db_ok,
      of "ex_req (Some \<lparr>user_id = 2, username = ''follower''\<rparr>) None" "\<lparr>user_id = 2, username = ''follower''\<rparr>"]
  by (simp add: ex_db_def empty_db_def ex_req_def follow_edges_def order_posts_def)

text \<open>
  C24. The profile page shows the follow graph: on a store with the invariant, the
  profile of an existing user \<open>a\<close> renders \<open>a\<close> with the number of \<open>a\<close>'s posts, the flag
  \<open>following\<close> that holds exactly when the logged-in viewer has the edge to \<open>a\<close>
  (false for an anonymous viewer), and as \<open>followers_count\<close> and \<open>following_count\<close> the
  numbers of edges into and out of \<open>a\<close>.
\<close>

theorem profile_reflects_follow_graph:
  assumes ok: "db_ok d" and a: "a \<in> set (users d)"
  shows "\<exists>pg. profile d req (username a) = Render ''posts/profile.html''
     \<lparr>pr_page = pg, pr_counter_posts = length (filter (\<lambda>p. post_author p = user_id a) (posts d)),
      pr_author = a,
      pr_following = (case req_user req of None \<Rightarrow> False | Some u \<Rightarrow> (user_id u, user_id a) \<in> follow_edges d),
      pr_followers_count = card {e \<in> follow_edges d. snd e = user_id a},
      pr_following_count = card {e \<in> follow_edges d. fst e = user_id a}\<rparr>"
proof -
  note dist = db_ok_distinct(4) [OF ok]
  have "length (filter (\<lambda>f. follow_author f = user_id a) (follows d)) = card {e \<in> follow_edges d. snd e = user_id a}"
    using length_filter_follows [OF dist, of "\<lambda>e. snd e = user_id a"] by simp
  moreover have "length (filter (\<lambda>f. follow_user f = user_id a) (follows d)) = card {e \<in> follow_edges d. fst e = user_id a}"
    using length_filter_follows [OF dist, of "\<lambda>e. fst e = user_id a"] by simp
  ultimately show ?thesis
    using username_lookup [OF ok a]
    by (simp add: profile_def author_post_list_def paginate_eq follow_edges_iff Let_def
        split: option.splits)
qed

theorem profile_reflects_follow_graph_witness:
  "\<exists>pg. profile (ex_db\<lparr>follows := [\<lparr>follow_id = 1, follow_user = 2, follow_author = 1\<rparr>], follow_seq := 2\<rparr>)
      (ex_req (Some \<lparr>user_id = 2, username = ''follower''\<rparr>) None) ''author'' = Render ''posts/profile.html''
     \<lparr>pr_page = pg, pr_counter_posts = 1, pr_author = \<lparr>user_id = 1, username = ''author''\<rparr>,
      pr_following = True, pr_followers_count = 1, pr_following_count = 0\<rparr>"
proof -
  let ?d = "ex_db\<lparr>follows := [\<lparr>follow_id = 1, follow_user = 2, follow_author = 1\<rparr>], follow_seq := 2\<rparr>"
  have ok: "db_ok ?d"
    by (simp add: db_ok_def table_ok_defs post_ok_def comment_ok_def follow_ok_def ex_db_def empty_db_def)
  have "{e \<in> follow_edges ?d. snd e = 1} = {(2, 1)}" by (auto simp: follow_edges_def)
  then have c1: "card {e \<in> follow_edges ?d. snd e = 1} = 1" by simp
  have "{e \<in> follow_edges ?d. fst e = 1} = {}" by (auto simp: follow_edges_def)
  then have c2: "card {e \<in> follow_edges ?d. fst e = 1} = 0" by (simp only: card.empty)
  have m: "(2, 1) \<in> follow_edges ?d" by (simp add: follow_edges_def)
  have a: "\<lparr>user_id = 1, username = ''author''\<rparr> \<in> set (users ?d)" by (simp add: ex_db_def)
  have n: "length (filter (\<lambda>p. post_author p = 1) (posts ?d)) = 1" by (simp add: ex_db_def)
  show ?thesis
    using profile_reflects_follow_graph [OF ok a, of
        "ex_req (Some \<lparr>user_id = 2, username = ''follower''\<rparr>) None"] c1 c2 m n
    by (simp add: ex_req_def del: ex_db_def)
qed

text \<open>
  C25. Empty feeds at the boundary: a logged-in user who follows nobody gets page 1 of an
  empty follow feed, and on a store without posts the index renders page 1 with no posts,
  whatever the \<open>page\<close> parameter (absent, malformed or out of range).
\<close>

theorem empty_feeds:
  assumes u: "req_user req = Some u" and nf: "\<forall>a. (user_id u, a) \<notin> follow_edges d"
  shows "(\<exists>p. follow_index req d = (Render ''posts/follow.html'' \<lparr>fl_page = \<lparr>page_object_list = [], page_number = 1\<rparr>,
                                   fl_paginator = p\<rparr>, d))
    \<and> index (d\<lparr>posts := []\<rparr>) req = Render ''posts/index.html''
          \<lparr>ix_page = \<lparr>page_object_list = [], page_number = 1\<rparr>\<rparr>"
proof -
  have e: "paginate ([] :: post list) s = Inr \<lparr>page_object_list = [], page_number = 1\<rparr>" for s
  proof -
    have "1 \<le> get_page_number (make_paginator ([] :: post list) PAR_PAGE) s
        \<and> get_page_number (make_paginator ([] :: post list) PAR_PAGE) s \<le> num_pages (make_paginator ([] :: post list) PAR_PAGE)"
      by (rule get_page_number_range) simp_all
    moreover have "num_pages (make_paginator ([] :: post list) PAR_PAGE) = 1"
      by (simp add: num_pages_def pg_count_def)
    ultimately show ?thesis by (simp add: paginate_eq page_slice_def Let_def)
  qed
  have "\<forall>p\<in>set (posts d). \<forall>f\<in>set (follows d). \<not> (follow_author f = post_author p \<and> follow_user f = user_id u)"
    using nf by (force simp: follow_edges_def)
  then have j: "[p. p \<leftarrow> posts d, f \<leftarrow> follows d, follow_author f = post_author p \<and> follow_user f = user_id u] = []"
    by (auto simp: concat_eq_Nil_conv)
  have "follow_post_list d (user_id u) = []"
    unfolding follow_post_list_def j by (simp add: order_posts_def)
  then show ?thesis
    using u e by (simp add: follow_index_def follow_index_view_def index_def all_posts_def order_posts_def Let_def)
qed

theorem empty_feeds_witness:
  "(\<exists>p. follow_index (ex_req (Some \<lparr>user_id = 2, username = ''follower''\<rparr>) None) ex_db
       = (Render ''posts/follow.html'' \<lparr>fl_page = \<lparr>page_object_list = [], page_number = 1\<rparr>, fl_paginator = p\<rparr>, ex_db))
   \<and> index (ex_db\<lparr>posts := []\<rparr>) (ex_req (Some \<lparr>user_id = 2, username = ''follower''\<rparr>) None)
       = Render ''posts/index.html'' \<lparr>ix_page = \<lparr>page_object_list = [], page_number = 1\<rparr>\<rparr>"
  by (rule empty_feeds) (simp_all add: ex_req_def ex_db_def empty_db_def follow_edges_def)

end
