(* ===== verification/Admin.thy ===== *)
theory Admin
  imports Feeds "HOL-Library.Product_Lexorder"
begin

text \<open>
  The writes and the order of the admin site of \<open>src/yatube/posts/admin.py\<close>:
  \<^item> the order of the post change list (the model's \<open>ordering\<close>, then \<open>-pk\<close>);
  \<^item> the group edit of \<open>list_editable = ("group",)\<close>;
  \<^item> the add form of \<open>FollowAdmin\<close>.
  The admin's creations of users and groups and its deletions are store operations of
  \<open>Models\<close>. The lemmas show that on a chronological table the change list's order is
  newest first, and that both writes keep the integrity invariant. The add form also lets
  a user follow themself, which the root theory shows.
\<close>

section \<open>The change list's order\<close>

text \<open>The change list orders by the model's \<open>ordering = ["-pub_date"]\<close> and, to make the
  order total, by \<open>-pk\<close> after it.\<close>

definition admin_order_posts :: "post list \<Rightarrow> post list" where
  "admin_order_posts ps = sort_key (\<lambda>p. (- int (pub_date p), - int (post_id p))) ps"

section \<open>Writes through the admin\<close>

datatype admin_error = InvalidChoice | NotUnique | NoSuchRow

text \<open>\<open>list_editable = ("group",)\<close>: the change list's form sets the group of a post;
  the choice must be an existing group or empty.\<close>

definition admin_edit_group :: "db \<Rightarrow> post_id \<Rightarrow> group_id option \<Rightarrow> admin_error + db" where
  "admin_edit_group d pid g =
     (case objects_get (\<lambda>p. post_id p = pid) (posts d) of
        Inl _ \<Rightarrow> Inl NoSuchRow
      | Inr p \<Rightarrow> if group_ref_ok (group_ids d) g then Inr (save_post d (p\<lparr>post_group := g\<rparr>))
                else Inl InvalidChoice)"

text \<open>The add form of \<open>FollowAdmin\<close>: both choices must be existing users and the pair
  must satisfy \<open>UniqueConstraint(fields=["user", "author"])\<close>; nothing forbids a user
  to follow themself.\<close>

definition admin_add_follow :: "db \<Rightarrow> user_id \<Rightarrow> user_id \<Rightarrow> admin_error + (follow \<times> db)" where
  "admin_add_follow d u a =
     (if u \<notin> set (user_ids d) \<or> a \<notin> set (user_ids d) then Inl InvalidChoice
      else if (u, a) \<in> set (map follow_pair (follows d)) then Inl NotUnique
      else let f = \<lparr>follow_id = follow_seq d, follow_user = u, follow_author = a\<rparr>
           in Inr (f, d\<lparr>follows := follows d @ [f], follow_seq := Suc (follow_seq d)\<rparr>))"

section \<open>The change list lists the newest post first\<close>

lemma admin_order_posts_chronological:
  assumes "sorted_wrt (<) (map pub_date ps)"
  shows "admin_order_posts ps = rev ps"
  unfolding admin_order_posts_def
proof (rule sort_key_inj_key_eq)
  show "mset ps = mset (rev ps)" by simp
  have "distinct (map pub_date ps)" using assms by (simp add: strict_sorted_iff)
  then show "inj_on (\<lambda>p. (- int (pub_date p), - int (post_id p))) (set ps)"
    by (auto simp: distinct_map inj_on_def)
  have "sorted_wrt (\<lambda>x y. pub_date y < pub_date x) (rev ps)"
    using assms by (simp add: sorted_wrt_map sorted_wrt_rev)
  then have "sorted_wrt (\<lambda>x y. (- int (pub_date x), - int (post_id x)) \<le> (- int (pub_date y), - int (post_id y)))
      (rev ps)"
    by (rule sorted_wrt_mono_rel [rotated]) (auto simp: less_eq_prod_def)
  then show "sorted (map (\<lambda>p. (- int (pub_date p), - int (post_id p))) (rev ps))"
    by (simp add: sorted_wrt_map)
qed

section \<open>The admin's writes\<close>

lemma db_ok_admin_edit_group:
  assumes ok: "db_ok d" and e: "admin_edit_group d pid g = Inr d'"
  shows "db_ok d'"
proof -
  from e obtain p where p: "objects_get (\<lambda>p. post_id p = pid) (posts d) = Inr p"
    and g: "group_ref_ok (group_ids d) g" and d': "d' = save_post d (p\<lparr>post_group := g\<rparr>)"
    by (auto simp: admin_edit_group_def split: sum.splits if_splits)
  from p have pin: "p \<in> set (posts d)" and pid: "post_id p = pid"
    by (auto dest: objects_get_Inr)
  have "post_ok d (p\<lparr>post_group := g\<rparr>)"
    using db_ok_post_ok [OF ok pin] g by (simp add: post_ok_def)
  with ok pin show ?thesis unfolding d' by (intro db_ok_save_post) simp_all
qed

lemma db_ok_admin_add_follow:
  assumes ok: "db_ok d" and e: "admin_add_follow d u a = Inr (f, d')"
  shows "db_ok d'"
proof -
  from e have u: "u \<in> set (user_ids d)" "a \<in> set (user_ids d)"
    and new: "(u, a) \<notin> set (map follow_pair (follows d))"
    and f: "f = \<lparr>follow_id = follow_seq d, follow_user = u, follow_author = a\<rparr>"
    and d': "d' = d\<lparr>follows := follows d @ [f], follow_seq := Suc (follow_seq d)\<rparr>"
    by (auto simp: admin_add_follow_def Let_def split: if_splits)
  from ok have "follow_seq d \<notin> set (map follow_id (follows d))"
    by (auto simp: db_ok_def follows_ok_def follow_ok_def)
  with ok u new show ?thesis
    unfolding d' f db_ok_def table_ok_defs
    by (auto simp: follow_ok_def post_ok_def comment_ok_def)
qed

end
