(* ===== verification/Deletions.thy ===== *)
theory Deletions
  imports Views
begin

text \<open>
  The views after the administrator deletes a post or a group. Deletion goes through
  the \<open>on_delete\<close> rules of \<open>models.py\<close>: \<open>Comment.post\<close> cascades, and \<open>Post.group\<close>
  is set to null. The theorems show what each view then serves: a 404 for the deleted
  object, no change from a write aimed at it, and the remaining posts in their order.
\<close>

section \<open>Lemmas\<close>

text \<open>Clearing a field other than the date keeps the order of the feeds.\<close>

lemma insort_key_map_pub_date:
  "\<forall>p. pub_date (f p) = pub_date p \<Longrightarrow>
   insort_key (\<lambda>p. - int (pub_date p)) (f x) (map f xs)
     = map f (insort_key (\<lambda>p. - int (pub_date p)) x xs)"
  by (induction xs) auto

lemma order_posts_map:
  "\<forall>p. pub_date (f p) = pub_date p \<Longrightarrow> order_posts (map f ps) = map f (order_posts ps)"
  by (induction ps) (simp_all add: order_posts_def insort_key_map_pub_date)

lemma get_or_404_delete_post [simp]:
  "get_or_404 (\<lambda>p. post_id p = pid) (posts (delete_post d pid)) = Inl NotFound"
  by (simp add: get_or_404_def objects_get_def delete_post_def)

section \<open>Properties\<close>

text \<open>
  C30. Once a post is deleted, it is gone from every view:
  \<^item> its detail page is a 404;
  \<^item> commenting on it or editing it changes nothing;
  \<^item> the index feed is the old feed without it;
  \<^item> its comments are deleted with it (\<open>CASCADE\<close>), and no other post loses a comment.
\<close>

theorem delete_post_everywhere:
  "post_detail (delete_post d pid) req pid = NotFound
   \<and> snd (add_comment pid req (delete_post d pid)) = delete_post d pid
   \<and> snd (post_edit pid req (delete_post d pid)) = delete_post d pid
   \<and> all_posts (delete_post d pid) = filter (\<lambda>p. post_id p \<noteq> pid) (all_posts d)
   \<and> post_comments (delete_post d pid) pid = []
   \<and> (\<forall>q. q \<noteq> pid \<longrightarrow> post_comments (delete_post d pid) q = post_comments d q)"
proof -
  let ?d = "delete_post d pid"
  have "snd (add_comment pid req ?d) = ?d" "snd (post_edit pid req ?d) = ?d"
    by (simp_all add: add_comment_def post_edit_def login_required_def
                     add_comment_view_def post_edit_view_def split: option.split)
  moreover have "post_detail ?d req pid = NotFound" by (simp add: post_detail_def)
  moreover have "all_posts ?d = filter (\<lambda>p. post_id p \<noteq> pid) (all_posts d)"
    by (simp add: all_posts_def delete_post_def filter_order_posts)
  moreover have "post_comments ?d pid = []"
    by (simp add: post_comments_def delete_post_def filter_filter)
  moreover have "\<forall>q. q \<noteq> pid \<longrightarrow> post_comments ?d q = post_comments d q"
    by (auto simp: post_comments_def delete_post_def filter_filter intro!: filter_cong)
  ultimately show ?thesis by blast
qed

theorem delete_post_everywhere_witness:
  "post_detail (delete_post (empty_db\<lparr>users := [\<lparr>user_id = 1, username = ''a''\<rparr>],
      posts := [\<lparr>post_id = 1, post_text = ''x'', pub_date = 0, post_author = 1, post_group = None, post_image = []\<rparr>],
      comments := [\<lparr>comment_id = 1, comment_post = 1, comment_author = 1, comment_created = 0, comment_text = ''c''\<rparr>],
      user_seq := 2, post_seq := 2, comment_seq := 2\<rparr>) 1) \<lparr>req_user = None, req_path = [], req_page = None, req_post = None, req_file = None\<rparr> 1 = NotFound
   \<and> post_comments (delete_post (empty_db\<lparr>users := [\<lparr>user_id = 1, username = ''a''\<rparr>],
      posts := [\<lparr>post_id = 1, post_text = ''x'', pub_date = 0, post_author = 1, post_group = None, post_image = []\<rparr>],
      comments := [\<lparr>comment_id = 1, comment_post = 1, comment_author = 1, comment_created = 0, comment_text = ''c''\<rparr>],
      user_seq := 2, post_seq := 2, comment_seq := 2\<rparr>) 1) 1 = []
   \<and> post_comments (delete_post (empty_db\<lparr>users := [\<lparr>user_id = 1, username = ''a''\<rparr>],
      posts := [\<lparr>post_id = 1, post_text = ''x'', pub_date = 0, post_author = 1, post_group = None, post_image = []\<rparr>],
      comments := [\<lparr>comment_id = 1, comment_post = 1, comment_author = 1, comment_created = 0, comment_text = ''c''\<rparr>],
      user_seq := 2, post_seq := 2, comment_seq := 2\<rparr>) 1) 2 = post_comments (empty_db\<lparr>users := [\<lparr>user_id = 1, username = ''a''\<rparr>],
      posts := [\<lparr>post_id = 1, post_text = ''x'', pub_date = 0, post_author = 1, post_group = None, post_image = []\<rparr>],
      comments := [\<lparr>comment_id = 1, comment_post = 1, comment_author = 1, comment_created = 0, comment_text = ''c''\<rparr>],
      user_seq := 2, post_seq := 2, comment_seq := 2\<rparr>) 2"
  using delete_post_everywhere [of "(empty_db\<lparr>users := [\<lparr>user_id = 1, username = ''a''\<rparr>],
      posts := [\<lparr>post_id = 1, post_text = ''x'', pub_date = 0, post_author = 1, post_group = None, post_image = []\<rparr>],
      comments := [\<lparr>comment_id = 1, comment_post = 1, comment_author = 1, comment_created = 0, comment_text = ''c''\<rparr>],
      user_seq := 2, post_seq := 2, comment_seq := 2\<rparr>)" 1 "\<lparr>req_user = None, req_path = [], req_page = None, req_post = None, req_file = None\<rparr>"] by simp

text \<open>
  C31. After a group is deleted on a consistent store:
  \<^item> its page (\<open>group/<slug>/\<close>) is a 404;
  \<^item> no post is listed under the group any more;
  \<^item> the index still shows every post, in the same order: \<open>SET_NULL\<close> only clears the
    posts' group.
\<close>

theorem delete_group_views:
  assumes ok: "db_ok d" and g: "g \<in> set (groups d)"
  shows "group_posts (delete_group d (group_id g)) req (group_slug g) = NotFound
    \<and> group_post_list (delete_group d (group_id g)) (group_id g) = []
    \<and> map post_id (all_posts (delete_group d (group_id g))) = map post_id (all_posts d)"
proof -
  let ?d = "delete_group d (group_id g)"
  have "group_slug g \<notin> group_slug ` set (groups ?d)"
  proof
    assume "group_slug g \<in> group_slug ` set (groups ?d)"
    then obtain g' where g': "g' \<in> set (groups d)" "group_id g' \<noteq> group_id g" "group_slug g' = group_slug g"
      by (auto simp: delete_group_def)
    have "inj_on group_slug (set (groups d))" using db_ok_distinct(3) [OF ok] by (simp add: distinct_map)
    with g g' show False by (auto dest: inj_onD)
  qed
  then have "group_posts ?d req (group_slug g) = NotFound"
    by (simp add: group_posts_def get_or_404_def)
  moreover have "filter (\<lambda>p. post_group p = Some (group_id g)) (posts ?d) = []"
    by (auto simp: delete_group_def filter_empty_conv)
  then have "group_post_list ?d (group_id g) = []"
    by (simp add: group_post_list_def order_posts_def)
  moreover have "map post_id (all_posts ?d) = map post_id (all_posts d)"
    by (simp add: all_posts_def delete_group_def order_posts_map comp_def if_distrib)
  ultimately show ?thesis by blast
qed

theorem delete_group_views_witness:
  "group_posts (delete_group (empty_db\<lparr>users := [\<lparr>user_id = 1, username = ''a''\<rparr>],
      groups := [\<lparr>group_id = 1, group_title = ''G'', group_slug = ''g'', group_description = []\<rparr>],
      posts := [\<lparr>post_id = 1, post_text = ''x'', pub_date = 0, post_author = 1, post_group = Some 1, post_image = []\<rparr>],
      user_seq := 2, group_seq := 2, post_seq := 2\<rparr>) 1) \<lparr>req_user = None, req_path = [], req_page = None, req_post = None, req_file = None\<rparr> ''g'' = NotFound
   \<and> group_post_list (delete_group (empty_db\<lparr>users := [\<lparr>user_id = 1, username = ''a''\<rparr>],
      groups := [\<lparr>group_id = 1, group_title = ''G'', group_slug = ''g'', group_description = []\<rparr>],
      posts := [\<lparr>post_id = 1, post_text = ''x'', pub_date = 0, post_author = 1, post_group = Some 1, post_image = []\<rparr>],
      user_seq := 2, group_seq := 2, post_seq := 2\<rparr>) 1) 1 = []"
proof -
  have ok: "db_ok (empty_db\<lparr>users := [\<lparr>user_id = 1, username = ''a''\<rparr>],
      groups := [\<lparr>group_id = 1, group_title = ''G'', group_slug = ''g'', group_description = []\<rparr>],
      posts := [\<lparr>post_id = 1, post_text = ''x'', pub_date = 0, post_author = 1, post_group = Some 1, post_image = []\<rparr>],
      user_seq := 2, group_seq := 2, post_seq := 2\<rparr>)"
    by (simp add: db_ok_def table_ok_defs post_ok_def comment_ok_def follow_ok_def empty_db_def)
  have g: "\<lparr>group_id = 1, group_title = ''G'', group_slug = ''g'', group_description = []\<rparr> \<in> set (groups (empty_db\<lparr>users := [\<lparr>user_id = 1, username = ''a''\<rparr>],
      groups := [\<lparr>group_id = 1, group_title = ''G'', group_slug = ''g'', group_description = []\<rparr>],
      posts := [\<lparr>post_id = 1, post_text = ''x'', pub_date = 0, post_author = 1, post_group = Some 1, post_image = []\<rparr>],
      user_seq := 2, group_seq := 2, post_seq := 2\<rparr>))"
    by simp
  show ?thesis using delete_group_views [OF ok g, of "\<lparr>req_user = None, req_path = [], req_page = None, req_post = None, req_file = None\<rparr>"] by simp
qed

end
