(* ===== verification/Spec2Isabelle.thy ===== *)
theory Spec2Isabelle
  imports FollowGraph Admin Deletions
begin

text \<open>
  Verification of the \<open>posts\<close> application of the Yatube blogging platform
  (\<open>src/yatube/posts\<close>), a Django application in which users publish posts, optionally
  in a group and with an image, comment on posts, and follow authors.

  \<^bold>\<open>The program.\<close> \<open>models.py\<close> declares the tables \<open>Group\<close>, \<open>Post\<close>, \<open>Comment\<close>
  and \<open>Follow\<close> (with the user table of \<open>django.contrib.auth\<close>). \<open>views.py\<close> holds the ten
  request handlers: the read-only feeds \<open>index\<close>, \<open>group_posts\<close>, \<open>profile\<close>,
  \<open>post_detail\<close>, and the \<open>@login_required\<close> handlers \<open>post_create\<close>, \<open>post_edit\<close>,
  \<open>add_comment\<close>, \<open>follow_index\<close>, \<open>profile_follow\<close>, \<open>profile_unfollow\<close>. The feeds read the
  store through querysets ordered by \<open>-pub_date\<close> and paginate them with Django's
  \<open>Paginator\<close>; the writing handlers validate a form and write through the ORM.
  \<open>admin.py\<close> registers the models with the admin site, the other way the store changes.

  \<^bold>\<open>The theories.\<close>
  \<^item> \<open>Prelude\<close>: identifier types, Python's \<open>str.strip\<close> (\<open>py_strip\<close>), row replacement
    and the list facts the components share.
  \<^item> \<open>Models\<close> (\<open>models.py\<close>): one record per model, the store \<open>db\<close> as a record of
    tables with one auto-increment sequence per table and the server \<open>clock\<close>, the ORM
    operations (\<open>objects_get\<close>, \<open>create_post\<close>, \<open>save_post\<close>, \<open>create_comment\<close>,
    \<open>follow_get_or_create\<close>, \<open>follow_filter_delete\<close>, \<open>create_group\<close>, \<open>create_user\<close>,
    the deletions with their \<open>on_delete\<close> rule), and the integrity invariant \<open>db_ok\<close>
    with one preservation lemma per operation.
  \<^item> \<open>Paginator\<close>: \<open>Paginator\<close> and \<open>get_page\<close> of \<open>django/core/paginator.py\<close>, with the
    \<open>int()\<close> parsing of the \<open>page\<close> parameter; lemmas: a page is always returned and in
    range, and the fallback pages for an absent, malformed or out-of-range parameter.
  \<^item> \<open>Feeds\<close> (the querysets of \<open>views.py\<close>): \<open>order_posts\<close>, \<open>group_post_list\<close>,
    \<open>author_post_list\<close>, the follow feed as the SQL join \<open>follow_post_list\<close>, and
    \<open>paginate\<close> at \<open>PAR_PAGE = 10\<close>; lemmas: the join equals a filter on a store with
    unique follow pairs, and a post newer than all others heads the first page.
  \<^item> \<open>Views\<close> (\<open>views.py\<close>): the request, the response datatype, \<open>login_required\<close>,
    \<open>get_or_404\<close>, the forms, and one definition per handler (the undecorated body is
    \<open>*_view\<close>); lemmas: each handler keeps \<open>db_ok\<close>, never returns a server error on a
    store with the invariant, and behaves as the spec says on each branch.
  \<^item> \<open>FollowGraph\<close>: the follow table as a set of edges, the abstract follow and
    unfollow, and their refinement by \<open>profile_follow\<close> and \<open>profile_unfollow\<close>.
  \<^item> \<open>Admin\<close> (\<open>admin.py\<close>): the post change list's order, the \<open>list_editable\<close> group
    edit and the \<open>Follow\<close> add form; lemmas: on a chronological table the order is
    newest first, and both writes keep the invariant.
  \<^item> \<open>Deletions\<close>: the views after an admin deletes a post or a group. After a post
    is deleted, every view of it is a 404 or unchanged and its comments are gone. After a
    group is deleted, its page is a 404 and the posts keep their order.
  \<^item> This theory: the routes, \<open>dispatch\<close> and the responses each route may give
    (\<open>route_outcome_ok\<close>), the system step relation \<open>step\<close> (a request or an admin
    creation or deletion) and \<open>reachable\<close>, and the site as a whole (\<open>admin_step\<close>, the
    change-list writes, and \<open>site_reachable\<close>). Lemma groups: the invariants of every
    reachable state by rule induction (\<open>db_ok_step\<close>, \<open>no_self_follow_step\<close>,
    \<open>chronological_step\<close>: the posts table in strictly increasing \<open>pub_date\<close> order, so
    that the feeds are reverse creation order), their extension to the site
    (\<open>site_reachable_inv\<close>), and the claims built on them: no server error, each route's
    responses typed, following and unfollowing always possible (progress), the admin's
    order equal to the index's, and the end-to-end scenarios of the spec: a new post heads
    the feeds, and a followed author's post reaches the follower. A further claim is the
    possibility property that from every reachable state the admin's \<open>Follow\<close> add form
    reaches a self-follow, which no request can create.

  \<^bold>\<open>Time and bounds.\<close> \<open>auto_now_add\<close> reads the server clock; a request step sets
  the clock to a time later than every earlier step, which is what orders the feeds.
  Identifiers and times are unbounded naturals, as the database's keys are for every
  store the application can reach. \<open>PAR_PAGE\<close> is the value 10 of \<open>settings.py\<close> (not in
  the repository); the paginator lemmas hold for every positive page size. The program
  has no loop: the views, the ORM operations and the admin are straight-line code over
  querysets. So no definition takes fuel and there is no termination property to state;
  the recursive definitions (the digit parsing of \<open>py_int\<close>) recurse structurally and
  are total by construction.

  \<^bold>\<open>Not modelled.\<close>
  \<^item> \<open>urls.py\<close>, \<open>forms.py\<close> and \<open>settings.py\<close> are not in the repository: the
    routes, the forms and the page size are modelled from the spec and the tests.
  \<^item> Template rendering and page titles: the contexts are kept, the HTML is not.
  \<^item> Authentication and sessions: a request carries its user or none.
  \<^item> The storage of uploaded images: a file is stored under \<open>posts/\<close> with its name.
  \<^item> The tests, except that their scenarios are restated as properties.
  \<^item> The page cache of spec section 5, which \<open>test_cache_index_page\<close> expects on the
    index. No file under \<open>src/\<close> applies a cache: \<open>views.index\<close> has no \<open>cache_page\<close>.
    A cache, if any, sits in \<open>urls.py\<close> or in a template, and neither is in the repository.
    The model reduces a response to its template and context, so it cannot tell a cached
    page from a fresh one.
  \<^item> The admin's display configuration: \<open>list_display\<close>, \<open>search_fields\<close>,
    \<open>list_filter\<close>, \<open>empty_value_display\<close> and the change list's pages. It writes
    nothing, and what it shows is computed by Django's admin, not by the repository.
    The full add and change forms of \<open>Post\<close> and \<open>Comment\<close> are not modelled either.
  The admin's writes that are modelled are the creation of users and groups, the
  deletions, the group edit of the change list and the \<open>Follow\<close> add form.
\<close>

section \<open>Routing and the running system\<close>

text \<open>The routes of the application (\<open>posts/urls.py\<close>, not in the repository; the route
  names are those the views and tests \<open>reverse\<close>).\<close>

datatype route =
    Index | GroupPosts string | Profile string | PostDetail post_id | PostCreate
  | PostEdit post_id | AddComment post_id | FollowIndex | ProfileFollow string
  | ProfileUnfollow string

text \<open>The status of a response, as a client sees it.\<close>

datatype outcome = Rendered string | Redirected url | NotFound404 | Error500

fun outcome_of :: "'c response \<Rightarrow> outcome" where
  "outcome_of (Render t _) = Rendered t"
| "outcome_of (Redirect u) = Redirected u"
| "outcome_of NotFound = NotFound404"
| "outcome_of ServerError = Error500"

definition dispatch :: "route \<Rightarrow> request \<Rightarrow> db \<Rightarrow> outcome \<times> db" where
  "dispatch rt req d =
     (case rt of
        Index \<Rightarrow> (outcome_of (index d req), d)
      | GroupPosts slug \<Rightarrow> (outcome_of (group_posts d req slug), d)
      | Profile name \<Rightarrow> (outcome_of (profile d req name), d)
      | PostDetail pid \<Rightarrow> (outcome_of (post_detail d req pid), d)
      | PostCreate \<Rightarrow> apfst outcome_of (post_create req d)
      | PostEdit pid \<Rightarrow> apfst outcome_of (post_edit pid req d)
      | AddComment pid \<Rightarrow> apfst outcome_of (add_comment pid req d)
      | FollowIndex \<Rightarrow> apfst outcome_of (follow_index req d)
      | ProfileFollow name \<Rightarrow> apfst outcome_of (profile_follow name req d)
      | ProfileUnfollow name \<Rightarrow> apfst outcome_of (profile_unfollow name req d))"

text \<open>The responses each route can give, as the views of \<open>views.py\<close> produce them: the
  login-required routes redirect an anonymous request to the login page.\<close>

definition login_outcome :: "request \<Rightarrow> (user \<Rightarrow> outcome \<Rightarrow> bool) \<Rightarrow> outcome \<Rightarrow> bool" where
  "login_outcome req P r =
     (case req_user req of None \<Rightarrow> r = Redirected (LoginUrl (req_path req)) | Some u \<Rightarrow> P u r)"

fun route_outcome_ok :: "route \<Rightarrow> request \<Rightarrow> outcome \<Rightarrow> bool" where
  "route_outcome_ok Index req r = (r = Rendered ''posts/index.html'')"
| "route_outcome_ok (GroupPosts s) req r = (r = Rendered ''posts/group_list.html'' \<or> r = NotFound404)"
| "route_outcome_ok (Profile n) req r = (r = Rendered ''posts/profile.html'' \<or> r = NotFound404)"
| "route_outcome_ok (PostDetail pid) req r = (r = Rendered ''posts/post_detail.html'' \<or> r = NotFound404)"
| "route_outcome_ok PostCreate req r = login_outcome req
     (\<lambda>u r. r = Rendered ''posts/post_create.html'' \<or> r = Redirected (ProfileUrl (username u))) r"
| "route_outcome_ok (PostEdit pid) req r = login_outcome req
     (\<lambda>u r. r = Rendered ''posts/post_create.html'' \<or> r = Redirected (PostDetailUrl pid) \<or> r = NotFound404) r"
| "route_outcome_ok (AddComment pid) req r = login_outcome req
     (\<lambda>u r. r = Redirected (PostDetailUrl pid) \<or> r = NotFound404) r"
| "route_outcome_ok FollowIndex req r = login_outcome req (\<lambda>u r. r = Rendered ''posts/follow.html'') r"
| "route_outcome_ok (ProfileFollow n) req r = login_outcome req
     (\<lambda>u r. r = Redirected (ProfileUrl n) \<or> r = NotFound404) r"
| "route_outcome_ok (ProfileUnfollow n) req r = login_outcome req
     (\<lambda>u r. r = Redirected (ProfileUrl n) \<or> r = NotFound404) r"

text \<open>
  One step of the running system: a request with a valid session served at a time
  later than every earlier step (the server clock is what \<open>auto_now_add\<close> reads), or an
  administrator's action through the admin site or the shell (creating a group or a
  user; deleting a post, group, user, comment or follow row, with the model's
  \<open>on_delete\<close> behaviour).
\<close>

inductive step :: "db \<Rightarrow> db \<Rightarrow> bool" where
  request: "clock d < t \<Longrightarrow> session_ok d req \<Longrightarrow> step d (snd (dispatch rt req (d\<lparr>clock := t\<rparr>)))"
| admin_group: "create_group d ti sl de = Inr (g, d') \<Longrightarrow> step d d'"
| admin_user: "create_user d n = Inr (u, d') \<Longrightarrow> step d d'"
| admin_delete_post: "step d (delete_post d pid)"
| admin_delete_group: "step d (delete_group d gid)"
| admin_delete_user: "step d (delete_user d uid)"
| admin_delete_comment: "step d (delete_comment d cid)"
| admin_delete_follow: "step d (delete_follow d fid)"

inductive reachable :: "db \<Rightarrow> bool" where
  init: "reachable empty_db"
| step: "reachable d \<Longrightarrow> step d d' \<Longrightarrow> reachable d'"

inductive_cases step_cases: "step d d'"

definition sys_inv :: "db \<Rightarrow> bool" where
  "sys_inv d \<longleftrightarrow> db_ok d \<and> no_self_follow d"

text \<open>The posts table is stored in strictly increasing \<open>pub_date\<close> order.\<close>

definition chronological :: "db \<Rightarrow> bool" where
  "chronological d \<longleftrightarrow> sorted_wrt (<) (map pub_date (posts d))"

text \<open>The administrator's writes through the change lists of \<open>admin.py\<close> that are not
  steps of \<open>step\<close>: editing a post's group in the list and adding a follow row. The site
  as a whole runs requests, the admin actions of \<open>step\<close> and these.\<close>

inductive admin_step :: "db \<Rightarrow> db \<Rightarrow> bool" where
  edit_group: "admin_edit_group d pid g = Inr d' \<Longrightarrow> admin_step d d'"
| add_follow: "admin_add_follow d u a = Inr (f, d') \<Longrightarrow> admin_step d d'"

inductive site_reachable :: "db \<Rightarrow> bool" where
  init: "site_reachable empty_db"
| step: "site_reachable d \<Longrightarrow> step d d' \<Longrightarrow> site_reachable d'"
| admin: "site_reachable d \<Longrightarrow> admin_step d d' \<Longrightarrow> site_reachable d'"

text \<open>A demonstration store, reached from the empty one by the administrator creating
  three users and a group.\<close>

definition demo_db :: db where
  "demo_db = empty_db\<lparr>
     users := [\<lparr>user_id = 1, username = ''author''\<rparr>, \<lparr>user_id = 2, username = ''follower''\<rparr>,
               \<lparr>user_id = 3, username = ''reader''\<rparr>],
     groups := [\<lparr>group_id = 1, group_title = ''G1'', group_slug = ''g1'', group_description = []\<rparr>],
     user_seq := 4, group_seq := 2\<rparr>"

section \<open>The invariant of the running system\<close>

lemma snd_dispatch:
  "snd (dispatch rt req d) =
     (case rt of
        PostCreate \<Rightarrow> snd (post_create req d)
      | PostEdit pid \<Rightarrow> snd (post_edit pid req d)
      | AddComment pid \<Rightarrow> snd (add_comment pid req d)
      | FollowIndex \<Rightarrow> snd (follow_index req d)
      | ProfileFollow name \<Rightarrow> snd (profile_follow name req d)
      | ProfileUnfollow name \<Rightarrow> snd (profile_unfollow name req d)
      | _ \<Rightarrow> d)"
  by (simp add: dispatch_def split: route.splits)

lemma db_ok_dispatch:
  assumes ok: "db_ok d" and s: "session_ok d req"
  shows "db_ok (snd (dispatch rt req d))"
proof -
  have "db_ok (snd (login_required v req d))"
    if "\<And>u. u \<in> set (users d) \<Longrightarrow> db_ok (snd (v u req d))" for v :: "user \<Rightarrow> request \<Rightarrow> db \<Rightarrow> 'c response \<times> db"
    using db_ok_login_required [OF _ ok s] that by blast
  note lr = this
  show ?thesis
    unfolding snd_dispatch
    using ok
    by (cases rt) (simp_all add: post_create_def post_edit_def add_comment_def
        profile_follow_def profile_unfollow_def lr db_ok_post_create_view db_ok_post_edit_view
        db_ok_add_comment_view db_ok_profile_follow_view db_ok_profile_unfollow_view)
qed

lemma dispatch_outcomes:
  assumes ok: "db_ok d"
  shows "route_outcome_ok rt req (fst (dispatch rt req d))"
proof (cases rt)
  case (GroupPosts s)
  then show ?thesis using objects_get_found_or_missing [OF db_ok_distinct(3) [OF ok], of s]
    by (auto simp: dispatch_def group_posts_def paginate_eq)
next
  case (Profile n)
  then show ?thesis using objects_get_found_or_missing [OF db_ok_distinct(2) [OF ok], of n]
    by (auto simp: dispatch_def profile_def paginate_eq Let_def)
next
  case (PostDetail pid)
  then show ?thesis using objects_get_found_or_missing [OF db_ok_distinct(1) [OF ok], of pid]
    by (auto simp: dispatch_def post_detail_def)
next
  case PostCreate
  then show ?thesis
    by (auto simp: dispatch_def post_create_def post_create_view_def login_required_def
        login_outcome_def Let_def split: option.splits)
next
  case (PostEdit pid)
  then show ?thesis using objects_get_found_or_missing [OF db_ok_distinct(1) [OF ok], of pid]
    by (auto simp: dispatch_def post_edit_def post_edit_view_def login_required_def
        login_outcome_def Let_def split: option.splits)
next
  case (AddComment pid)
  then show ?thesis using objects_get_found_or_missing [OF db_ok_distinct(1) [OF ok], of pid]
    by (auto simp: dispatch_def add_comment_def add_comment_view_def login_required_def
        login_outcome_def split: option.splits)
next
  case FollowIndex
  then show ?thesis
    by (auto simp: dispatch_def follow_index_def follow_index_view_def login_required_def
        login_outcome_def paginate_eq Let_def split: option.splits)
next
  case (ProfileFollow n)
  then show ?thesis using objects_get_found_or_missing [OF db_ok_distinct(2) [OF ok], of n]
    by (auto simp: dispatch_def profile_follow_def profile_follow_view_def login_required_def
        login_outcome_def split: option.splits sum.splits dest: follow_get_or_create_not_Inl [OF ok])
next
  case (ProfileUnfollow n)
  then show ?thesis using objects_get_found_or_missing [OF db_ok_distinct(2) [OF ok], of n]
    by (auto simp: dispatch_def profile_unfollow_def profile_unfollow_view_def login_required_def
        login_outcome_def split: option.splits)
qed (simp add: dispatch_def index_def paginate_eq)

lemma no_self_follow_dispatch:
  "no_self_follow d \<Longrightarrow> no_self_follow (snd (dispatch rt req d))"
  unfolding snd_dispatch
  by (cases rt) (simp_all add: no_self_follow_profile_follow no_self_follow_profile_unfollow,
      simp_all add: no_self_follow_def)

lemma db_ok_step: "step d d' \<Longrightarrow> db_ok d \<Longrightarrow> db_ok d'"
proof (induction rule: step.induct)
  case (request d t req rt)
  from request have "db_ok (d\<lparr>clock := t\<rparr>)" by (simp add: db_ok_clock)
  moreover from request have "session_ok (d\<lparr>clock := t\<rparr>) req"
    by (simp add: session_ok_def split: option.splits)
  ultimately show ?case by (rule db_ok_dispatch)
next
  case (admin_group d ti sl de g d')
  from db_ok_create_group [OF admin_group.prems admin_group.hyps] show ?case .
next
  case (admin_user d n u d')
  from db_ok_create_user [OF admin_user.prems admin_user.hyps] show ?case .
qed (simp_all add: db_ok_delete_post db_ok_delete_group db_ok_delete_user db_ok_delete_comment
      db_ok_delete_follow)

lemma no_self_follow_step: "step d d' \<Longrightarrow> no_self_follow d \<Longrightarrow> no_self_follow d'"
proof (induction rule: step.induct)
  case (request d t req rt)
  then show ?case by (intro no_self_follow_dispatch) (simp add: no_self_follow_def)
next
  case (admin_group d ti sl de g d')
  then show ?case by (auto simp: no_self_follow_def create_group_def Let_def split: if_splits)
next
  case (admin_user d n u d')
  then show ?case by (auto simp: no_self_follow_def create_user_def Let_def split: if_splits)
qed (simp_all add: no_self_follow_def delete_post_def delete_group_def delete_user_def Let_def
      delete_comment_def delete_follow_def)

lemma sys_inv_step: "step d d' \<Longrightarrow> sys_inv d \<Longrightarrow> sys_inv d'"
  by (simp add: sys_inv_def db_ok_step no_self_follow_step)

lemma sys_inv_empty: "sys_inv empty_db"
  by (simp add: sys_inv_def empty_db_def db_ok_def table_ok_defs no_self_follow_def)

lemma reachable_sys_inv: "reachable d \<Longrightarrow> sys_inv d"
  by (induction rule: reachable.induct) (auto intro: sys_inv_empty sys_inv_step)

section \<open>The posts table stays in chronological order\<close>

lemma posts_unchanged_views:
  "posts (snd (add_comment pid req d)) = posts d"
  "posts (snd (follow_index req d)) = posts d"
  "posts (snd (profile_follow name req d)) = posts d"
  "posts (snd (profile_unfollow name req d)) = posts d"
  by (auto simp: add_comment_def add_comment_view_def follow_index_def follow_index_view_def
      profile_follow_def profile_follow_view_def profile_unfollow_def profile_unfollow_view_def
      login_required_def create_comment_def follow_get_or_create_def follow_filter_delete_def Let_def
      split: option.splits sum.splits orm_error.splits)

lemma chronological_post_create:
  assumes "chronological d" and "\<forall>q\<in>set (posts d). pub_date q < clock d"
  shows "chronological (snd (post_create req d))"
  using assms
  by (auto simp: chronological_def post_create_def post_create_view_def login_required_def
      create_post_def Let_def sorted_wrt_append split: option.splits)

lemma replace_row_pub_dates:
  assumes ok: "db_ok d" and p: "p \<in> set (posts d)" and q: "post_id q = post_id p" "pub_date q = pub_date p"
  shows "map pub_date (replace_row post_id (post_id p) q (posts d)) = map pub_date (posts d)"
proof -
  have "x = p" if "x \<in> set (posts d)" "post_id x = post_id p" for x
    using db_ok_distinct(1) [OF ok] p that by (auto simp: distinct_map inj_on_def)
  then show ?thesis using q by (auto simp: replace_row_def)
qed

lemma post_edit_pub_dates:
  assumes ok: "db_ok d"
  shows "map pub_date (posts (snd (post_edit pid req d))) = map pub_date (posts d)"
  using db_ok_distinct(1) [OF ok]
proof (cases rule: objects_get_key_cases [where k = pid])
  case (found p)
  then show ?thesis using replace_row_pub_dates [OF ok found(1)]
    by (simp add: post_edit_def post_edit_view_def login_required_def save_post_def Let_def
        split: option.splits)
qed (simp add: post_edit_def post_edit_view_def login_required_def split: option.splits)

lemma chronological_dispatch:
  assumes "db_ok d" and "chronological d" and "\<forall>q\<in>set (posts d). pub_date q < clock d"
  shows "chronological (snd (dispatch rt req d))"
  using assms unfolding snd_dispatch
  by (cases rt) (simp_all add: chronological_post_create [unfolded chronological_def]
      post_edit_pub_dates posts_unchanged_views chronological_def)

lemma chronological_step:
  assumes "step d d'" and "db_ok d" and "chronological d"
  shows "chronological d'"
  using assms
proof (induction rule: step.induct)
  case (request d t req rt)
  have "\<forall>q\<in>set (posts (d\<lparr>clock := t\<rparr>)). pub_date q < clock (d\<lparr>clock := t\<rparr>)"
    using request by (auto simp: db_ok_def posts_ok_def post_ok_def)
  moreover from request have "db_ok (d\<lparr>clock := t\<rparr>)" by (simp add: db_ok_clock)
  moreover from request have "chronological (d\<lparr>clock := t\<rparr>)" by (simp add: chronological_def)
  ultimately show ?case by (simp add: chronological_dispatch)
next
  case (admin_group d ti sl de g d')
  then show ?case by (auto simp: chronological_def create_group_def Let_def split: if_splits)
next
  case (admin_user d n u d')
  then show ?case by (auto simp: chronological_def create_user_def Let_def split: if_splits)
next
  case (admin_delete_group d gid)
  have "map pub_date (posts (delete_group d gid)) = map pub_date (posts d)"
    by (simp add: delete_group_def map_eq_conv)
  with admin_delete_group show ?case by (simp add: chronological_def)
qed (simp_all add: chronological_def delete_post_def delete_user_def delete_comment_def
      delete_follow_def Let_def sorted_wrt_map sorted_wrt_filter)

lemma reachable_chronological: "reachable d \<Longrightarrow> chronological d"
proof (induction rule: reachable.induct)
  case init
  then show ?case by (simp add: chronological_def empty_db_def)
next
  case (step d d')
  then show ?case
    using reachable_sys_inv chronological_step by (auto simp: sys_inv_def)
qed

section \<open>The site with the admin's change-list writes\<close>

lemma admin_step_inv:
  assumes "admin_step d d'" and "db_ok d" and "chronological d"
  shows "db_ok d' \<and> chronological d'"
  using assms
proof (induction rule: admin_step.induct)
  case (edit_group d pid g d')
  then obtain p where p: "objects_get (\<lambda>p. post_id p = pid) (posts d) = Inr p"
    and d': "d' = save_post d (p\<lparr>post_group := g\<rparr>)"
    by (auto simp: admin_edit_group_def split: sum.splits if_splits)
  from p have "p \<in> set (posts d)" "post_id p = pid" by (auto dest: objects_get_Inr)
  with edit_group have "map pub_date (posts d') = map pub_date (posts d)"
    using replace_row_pub_dates [of d p "p\<lparr>post_group := g\<rparr>"] by (simp add: d' save_post_def)
  with edit_group show ?case by (simp add: db_ok_admin_edit_group chronological_def)
next
  case (add_follow d u a f d')
  then have "posts d' = posts d"
    by (auto simp: admin_add_follow_def Let_def split: if_splits)
  with add_follow show ?case by (simp add: db_ok_admin_add_follow chronological_def)
qed

lemma site_reachable_inv: "site_reachable d \<Longrightarrow> db_ok d \<and> chronological d"
proof (induction rule: site_reachable.induct)
  case init
  then show ?case using sys_inv_empty by (simp add: sys_inv_def chronological_def empty_db_def)
next
  case (step d d')
  then show ?case using db_ok_step chronological_step by blast
next
  case (admin d d')
  then show ?case using admin_step_inv by blast
qed

lemma reachable_site_reachable: "reachable d \<Longrightarrow> site_reachable d"
  by (induction rule: reachable.induct) (auto intro: site_reachable.intros)

lemma demo_db_reachable: "reachable demo_db"
proof -
  let ?u1 = "\<lparr>user_id = 1, username = ''author''\<rparr>"
  let ?u2 = "\<lparr>user_id = 2, username = ''follower''\<rparr>"
  let ?u3 = "\<lparr>user_id = 3, username = ''reader''\<rparr>"
  let ?d1 = "empty_db\<lparr>users := [?u1], user_seq := 2\<rparr>"
  let ?d2 = "empty_db\<lparr>users := [?u1, ?u2], user_seq := 3\<rparr>"
  let ?d3 = "empty_db\<lparr>users := [?u1, ?u2, ?u3], user_seq := 4\<rparr>"
  have "create_user empty_db ''author'' = Inr (?u1, ?d1)"
    by (simp add: create_user_def empty_db_def Let_def)
  from reachable.step [OF reachable.init step.admin_user [OF this]] have "reachable ?d1" .
  moreover have "create_user ?d1 ''follower'' = Inr (?u2, ?d2)"
    by (simp add: create_user_def empty_db_def Let_def)
  ultimately have "reachable ?d2" by (blast intro: reachable.step step.admin_user)
  moreover have "create_user ?d2 ''reader'' = Inr (?u3, ?d3)"
    by (simp add: create_user_def empty_db_def Let_def)
  ultimately have "reachable ?d3" by (blast intro: reachable.step step.admin_user)
  moreover have "create_group ?d3 ''G1'' ''g1'' [] =
      Inr (\<lparr>group_id = 1, group_title = ''G1'', group_slug = ''g1'', group_description = []\<rparr>, demo_db)"
    by (simp add: create_group_def empty_db_def demo_db_def Let_def)
  ultimately show ?thesis by (blast intro: reachable.step step.admin_group)
qed

section \<open>Properties of the running system\<close>

text \<open>
  C1. A created post heads the feeds (spec section 8): in a reachable state, a
  logged-in user's valid post in an existing group, served at a later time, redirects
  to the user's profile, and afterwards the new post, with the stripped text, the user
  as author and the request time as \<open>pub_date\<close>, is the first post on the first page of
  the index, of its group's feed and of its author's profile.
\<close>

theorem post_create_heads_feeds:
  assumes reach: "reachable d" and t: "clock d < t" and u: "req_user req = Some u"
    and uin: "u \<in> set (users d)" and pd: "req_post req = Some pd"
    and valid: "post_form_valid d pd (req_file req)" and g: "g \<in> set (groups d)"
    and grp: "fd_group pd = Some (group_id g)" and r: "req_page r = None"
  shows "\<exists>d' p. post_create req (d\<lparr>clock := t\<rparr>) = (Redirect (ProfileUrl (username u)), d')
     \<and> post_text p = py_strip (fd_text pd) \<and> post_author p = user_id u \<and> pub_date p = t
     \<and> (\<exists>c. index d' r = Render ''posts/index.html'' c \<and> take 1 (page_object_list (ix_page c)) = [p])
     \<and> (\<exists>c. group_posts d' r (group_slug g) = Render ''posts/group_list.html'' c
            \<and> take 1 (page_object_list (gp_page c)) = [p])
     \<and> (\<exists>c. profile d' r (username u) = Render ''posts/profile.html'' c
            \<and> take 1 (page_object_list (pr_page c)) = [p])"
proof -
  let ?d0 = "d\<lparr>clock := t\<rparr>"
  let ?c = "create_post ?d0 (py_strip (fd_text pd)) (user_id u) (fd_group pd) (form_image [] pd (req_file req))"
  let ?p = "fst ?c" and ?d' = "snd ?c"
  have ok: "db_ok d" using reachable_sys_inv [OF reach] by (simp add: sys_inv_def)
  have old: "\<forall>q\<in>set (posts d). pub_date q < pub_date ?p"
    using ok t by (auto simp: db_ok_def posts_ok_def post_ok_def)
  have valid0: "post_form_valid ?d0 pd (req_file req)" using valid by (simp add: post_form_valid_def)
  have create: "post_create req ?d0 = (Redirect (ProfileUrl (username u)), ?d')"
    using u pd valid0 by (simp add: post_create_def post_create_view_def)
  have ps: "posts ?d' = posts d @ [?p]" by simp
  have idx: "index ?d' r = Render ''posts/index.html''
      \<lparr>ix_page = \<lparr>page_object_list = take PAR_PAGE (?p # order_posts (filter (\<lambda>_. True) (posts d))),
                   page_number = 1\<rparr>\<rparr>"
    using newest_heads_first_page [OF old, of "\<lambda>_. True"] r by (simp add: index_def all_posts_def)
  have gl: "objects_get (\<lambda>x. group_slug x = group_slug g) (groups ?d') = Inr g"
    using db_ok_distinct(3) [OF ok] g by simp
  have gp: "group_posts ?d' r (group_slug g) = Render ''posts/group_list.html''
      \<lparr>gp_group = g, gp_page = \<lparr>page_object_list =
         take PAR_PAGE (?p # order_posts (filter (\<lambda>q. post_group q = Some (group_id g)) (posts d))),
         page_number = 1\<rparr>\<rparr>"
    using newest_heads_first_page [OF old, of "\<lambda>q. post_group q = Some (group_id g)"] r gl grp
    by (simp add: group_posts_def group_post_list_def)
  have ul: "objects_get (\<lambda>x. username x = username u) (users ?d') = Inr u"
    using db_ok_distinct(2) [OF ok] uin by simp
  have pr: "\<exists>c. profile ?d' r (username u) = Render ''posts/profile.html'' c
      \<and> page_object_list (pr_page c) =
          take PAR_PAGE (?p # order_posts (filter (\<lambda>q. post_author q = user_id u) (posts d)))"
    using newest_heads_first_page [OF old, of "\<lambda>q. post_author q = user_id u"] r ul
    by (simp add: profile_def author_post_list_def Let_def)
  have one: "take 1 (take PAR_PAGE (?p # xs)) = [?p]" for xs by (simp add: PAR_PAGE_def)
  show ?thesis
    using create idx gp pr one by (intro exI [of _ ?d'] exI [of _ ?p]) auto
qed


theorem post_create_heads_feeds_witness:
  "\<exists>d' p. post_create (ex_req (Some \<lparr>user_id = 1, username = ''author''\<rparr>)
        (Some \<lparr>fd_text = '' hi '', fd_group = Some 1, fd_image_clear = False\<rparr>)) (demo_db\<lparr>clock := 1\<rparr>)
       = (Redirect (ProfileUrl ''author''), d')
     \<and> post_text p = ''hi'' \<and> post_author p = 1 \<and> pub_date p = 1
     \<and> (\<exists>c. index d' (ex_req None None) = Render ''posts/index.html'' c
            \<and> take 1 (page_object_list (ix_page c)) = [p])
     \<and> (\<exists>c. group_posts d' (ex_req None None) ''g1'' = Render ''posts/group_list.html'' c
            \<and> take 1 (page_object_list (gp_page c)) = [p])
     \<and> (\<exists>c. profile d' (ex_req None None) ''author'' = Render ''posts/profile.html'' c
            \<and> take 1 (page_object_list (pr_page c)) = [p])"
  using post_create_heads_feeds [OF demo_db_reachable, of 1
      "ex_req (Some \<lparr>user_id = 1, username = ''author''\<rparr>)
        (Some \<lparr>fd_text = '' hi '', fd_group = Some 1, fd_image_clear = False\<rparr>)"
      "\<lparr>user_id = 1, username = ''author''\<rparr>"
      "\<lparr>fd_text = '' hi '', fd_group = Some 1, fd_image_clear = False\<rparr>"
      "\<lparr>group_id = 1, group_title = ''G1'', group_slug = ''g1'', group_description = []\<rparr>"
      "ex_req None None"]
  by (simp add: demo_db_def empty_db_def ex_req_def post_form_valid_def group_ref_ok_def py_strip_def py_whitespace_def)

text \<open>
  C2. A followed author's new post reaches the follower's feed and no one else's (spec
  section 8): in a reachable state, after a user \<open>f\<close> follows an author \<open>a\<close> and \<open>a\<close>
  then publishes a valid post, the post heads the first page of \<open>f\<close>'s follow feed, and
  it is not in the follow feed of a user \<open>v\<close> who does not follow \<open>a\<close>.
\<close>

theorem followed_author_post_in_feed:
  assumes reach: "reachable d" and t1: "clock d < t1" and t2: "t1 < t2"
    and fu: "req_user reqf = Some f" and fin: "f \<in> set (users d)"
    and ain: "a \<in> set (users d)" and ne: "user_id f \<noteq> user_id a"
    and au: "req_user reqa = Some a" and pd: "req_post reqa = Some pd"
    and valid: "post_form_valid d pd (req_file reqa)"
    and nv: "(user_id v, user_id a) \<notin> follow_edges d" and vf: "user_id v \<noteq> user_id f"
    and r1: "req_user r1 = Some f" "req_page r1 = None" and r2: "req_user r2 = Some v"
  shows "\<exists>p c c'. post_author p = user_id a \<and> post_text p = py_strip (fd_text pd)
     \<and> follow_index r1 (snd (dispatch PostCreate reqa
          ((snd (dispatch (ProfileFollow (username a)) reqf (d\<lparr>clock := t1\<rparr>)))\<lparr>clock := t2\<rparr>)))
        = (Render ''posts/follow.html'' c, snd (dispatch PostCreate reqa
          ((snd (dispatch (ProfileFollow (username a)) reqf (d\<lparr>clock := t1\<rparr>)))\<lparr>clock := t2\<rparr>)))
     \<and> take 1 (page_object_list (fl_page c)) = [p]
     \<and> follow_index r2 (snd (dispatch PostCreate reqa
          ((snd (dispatch (ProfileFollow (username a)) reqf (d\<lparr>clock := t1\<rparr>)))\<lparr>clock := t2\<rparr>)))
        = (Render ''posts/follow.html'' c', snd (dispatch PostCreate reqa
          ((snd (dispatch (ProfileFollow (username a)) reqf (d\<lparr>clock := t1\<rparr>)))\<lparr>clock := t2\<rparr>)))
     \<and> p \<notin> set (pg_object_list (fl_paginator c'))"
proof -
  let ?d0 = "d\<lparr>clock := t1\<rparr>"
  have ok: "db_ok d" using reachable_sys_inv [OF reach] by (simp add: sys_inv_def)
  with t1 have ok0: "db_ok ?d0" by (simp add: db_ok_clock)
  from profile_follow_result [OF ok0 fu] fin ain obtain d1
    where f1: "profile_follow (username a) reqf ?d0 = (Redirect (ProfileUrl (username a)), d1)"
      and e1: "follow_edges d1 = follow_spec (follow_edges ?d0) (user_id f) (user_id a)"
      and ok1: "db_ok d1" and same1: "users d1 = users d" "posts d1 = posts d" "groups d1 = groups d"
        "clock d1 = t1"
    by auto
  have s1: "snd (dispatch (ProfileFollow (username a)) reqf ?d0) = d1"
    using f1 by (simp add: dispatch_def)
  let ?d1 = "d1\<lparr>clock := t2\<rparr>"
  have ok1': "db_ok ?d1" using ok1 t2 same1 by (simp add: db_ok_clock)
  let ?c = "create_post ?d1 (py_strip (fd_text pd)) (user_id a) (fd_group pd) (form_image [] pd (req_file reqa))"
  let ?p = "fst ?c" and ?d2 = "snd ?c"
  have valid1: "post_form_valid ?d1 pd (req_file reqa)"
    using valid same1 by (simp add: post_form_valid_def)
  have s2: "snd (dispatch PostCreate reqa ?d1) = ?d2"
    using au pd valid1 by (simp add: dispatch_def post_create_def post_create_view_def)
  have ain1: "a \<in> set (users ?d1)" using ain same1 by simp
  have ok2: "db_ok ?d2"
    using db_ok_post_create_view [OF ok1' ain1, of reqa] au pd valid1
    by (simp add: post_create_view_def)
  have old: "\<forall>q\<in>set (posts ?d1). pub_date q < pub_date ?p"
    using ok t1 t2 same1 by (auto simp: db_ok_def posts_ok_def post_ok_def)
  have e2: "follow_edges ?d2 = insert (user_id f, user_id a) (follow_edges d)"
    using e1 ne by (simp add: follow_edges_def follow_spec_def)
  obtain pg where pg: "paginate (order_posts (filter (\<lambda>p. (user_id f, post_author p) \<in> follow_edges ?d2)
        (posts ?d2))) (req_page r1) = Inr pg"
    and fi1: "follow_index r1 ?d2 = (Render ''posts/follow.html'' \<lparr>fl_page = pg, fl_paginator = make_paginator
        (order_posts (filter (\<lambda>p. (user_id f, post_author p) \<in> follow_edges ?d2) (posts ?d2))) PAR_PAGE\<rparr>, ?d2)"
    using follow_index_eq [OF ok2 r1(1)] by blast
  have "pg = \<lparr>page_object_list = take PAR_PAGE (?p # order_posts
        (filter (\<lambda>p. (user_id f, post_author p) \<in> follow_edges ?d2) (posts ?d1))), page_number = 1\<rparr>"
    using pg newest_heads_first_page [OF old, of "\<lambda>p. (user_id f, post_author p) \<in> follow_edges ?d2"]
      e2 r1(2) by simp
  then have head: "take 1 (page_object_list pg) = [?p]" by (simp add: PAR_PAGE_def)
  obtain pg' where fi2: "follow_index r2 ?d2 = (Render ''posts/follow.html'' \<lparr>fl_page = pg', fl_paginator = make_paginator
        (order_posts (filter (\<lambda>p. (user_id v, post_author p) \<in> follow_edges ?d2) (posts ?d2))) PAR_PAGE\<rparr>, ?d2)"
    using follow_index_eq [OF ok2 r2] by blast
  have notin: "?p \<notin> set (order_posts (filter (\<lambda>p. (user_id v, post_author p) \<in> follow_edges ?d2) (posts ?d2)))"
    using e2 nv vf by simp
  show ?thesis
    unfolding s1 s2 using fi1 fi2 head notin by fastforce
qed

theorem followed_author_post_in_feed_witness:
  "\<exists>p c c'. post_author p = 1 \<and> post_text p = ''hi''
     \<and> follow_index (ex_req (Some \<lparr>user_id = 2, username = ''follower''\<rparr>) None)
          (snd (dispatch PostCreate (ex_req (Some \<lparr>user_id = 1, username = ''author''\<rparr>)
             (Some \<lparr>fd_text = '' hi '', fd_group = None, fd_image_clear = False\<rparr>))
           ((snd (dispatch (ProfileFollow ''author'') (ex_req (Some \<lparr>user_id = 2, username = ''follower''\<rparr>) None)
              (demo_db\<lparr>clock := 1\<rparr>)))\<lparr>clock := 2\<rparr>)))
        = (Render ''posts/follow.html'' c,
           snd (dispatch PostCreate (ex_req (Some \<lparr>user_id = 1, username = ''author''\<rparr>)
             (Some \<lparr>fd_text = '' hi '', fd_group = None, fd_image_clear = False\<rparr>))
           ((snd (dispatch (ProfileFollow ''author'') (ex_req (Some \<lparr>user_id = 2, username = ''follower''\<rparr>) None)
              (demo_db\<lparr>clock := 1\<rparr>)))\<lparr>clock := 2\<rparr>)))
     \<and> take 1 (page_object_list (fl_page c)) = [p]
     \<and> follow_index (ex_req (Some \<lparr>user_id = 3, username = ''reader''\<rparr>) None)
          (snd (dispatch PostCreate (ex_req (Some \<lparr>user_id = 1, username = ''author''\<rparr>)
             (Some \<lparr>fd_text = '' hi '', fd_group = None, fd_image_clear = False\<rparr>))
           ((snd (dispatch (ProfileFollow ''author'') (ex_req (Some \<lparr>user_id = 2, username = ''follower''\<rparr>) None)
              (demo_db\<lparr>clock := 1\<rparr>)))\<lparr>clock := 2\<rparr>)))
        = (Render ''posts/follow.html'' c',
           snd (dispatch PostCreate (ex_req (Some \<lparr>user_id = 1, username = ''author''\<rparr>)
             (Some \<lparr>fd_text = '' hi '', fd_group = None, fd_image_clear = False\<rparr>))
           ((snd (dispatch (ProfileFollow ''author'') (ex_req (Some \<lparr>user_id = 2, username = ''follower''\<rparr>) None)
              (demo_db\<lparr>clock := 1\<rparr>)))\<lparr>clock := 2\<rparr>)))
     \<and> p \<notin> set (pg_object_list (fl_paginator c'))"
  using followed_author_post_in_feed [OF demo_db_reachable, of 1 2
      "ex_req (Some \<lparr>user_id = 2, username = ''follower''\<rparr>) None"
      "\<lparr>user_id = 2, username = ''follower''\<rparr>"
      "\<lparr>user_id = 1, username = ''author''\<rparr>"
      "ex_req (Some \<lparr>user_id = 1, username = ''author''\<rparr>)
             (Some \<lparr>fd_text = '' hi '', fd_group = None, fd_image_clear = False\<rparr>)"
      "\<lparr>fd_text = '' hi '', fd_group = None, fd_image_clear = False\<rparr>"
      "\<lparr>user_id = 3, username = ''reader''\<rparr>"
      "ex_req (Some \<lparr>user_id = 2, username = ''follower''\<rparr>) None"
      "ex_req (Some \<lparr>user_id = 3, username = ''reader''\<rparr>) None"]
  by (simp add: demo_db_def empty_db_def ex_req_def post_form_valid_def group_ref_ok_def
      py_strip_def py_whitespace_def follow_edges_def)

text \<open>
  C18. Without ties the feeds are reverse creation order: in every reachable state the
  posts table holds strictly increasing \<open>pub_date\<close>s (the server clock moves forward and
  editing keeps the date), so no two posts share a date, and the index, every group feed
  and every author's feed list exactly the posts they select, newest created first.
\<close>

theorem reachable_feeds_reverse_creation:
  assumes "reachable d"
  shows "distinct (map pub_date (posts d)) \<and> all_posts d = rev (posts d)
    \<and> group_post_list d g = rev (filter (\<lambda>p. post_group p = Some g) (posts d))
    \<and> author_post_list d a = rev (filter (\<lambda>p. post_author p = a) (posts d))"
proof -
  have s: "sorted_wrt (<) (map pub_date (posts d))"
    using reachable_chronological [OF assms] by (simp add: chronological_def)
  then have f: "sorted_wrt (<) (map pub_date (filter P (posts d)))" for P
    by (simp add: sorted_wrt_map sorted_wrt_filter)
  from s have "distinct (map pub_date (posts d))" by (simp add: strict_sorted_iff)
  with s f show ?thesis
    by (simp add: all_posts_def group_post_list_def author_post_list_def order_posts_chronological)
qed

theorem reachable_feeds_reverse_creation_witness:
  "distinct (map pub_date (posts (snd (dispatch PostCreate
        (ex_req (Some \<lparr>user_id = 1, username = ''author''\<rparr>)
           (Some \<lparr>fd_text = ''second'', fd_group = Some 1, fd_image_clear = False\<rparr>))
        ((snd (dispatch PostCreate (ex_req (Some \<lparr>user_id = 1, username = ''author''\<rparr>)
           (Some \<lparr>fd_text = ''first'', fd_group = None, fd_image_clear = False\<rparr>)) (demo_db\<lparr>clock := 1\<rparr>)))
         \<lparr>clock := 2\<rparr>)))))
   \<and> all_posts (snd (dispatch PostCreate
        (ex_req (Some \<lparr>user_id = 1, username = ''author''\<rparr>)
           (Some \<lparr>fd_text = ''second'', fd_group = Some 1, fd_image_clear = False\<rparr>))
        ((snd (dispatch PostCreate (ex_req (Some \<lparr>user_id = 1, username = ''author''\<rparr>)
           (Some \<lparr>fd_text = ''first'', fd_group = None, fd_image_clear = False\<rparr>)) (demo_db\<lparr>clock := 1\<rparr>)))
         \<lparr>clock := 2\<rparr>)))
     = rev (posts (snd (dispatch PostCreate
        (ex_req (Some \<lparr>user_id = 1, username = ''author''\<rparr>)
           (Some \<lparr>fd_text = ''second'', fd_group = Some 1, fd_image_clear = False\<rparr>))
        ((snd (dispatch PostCreate (ex_req (Some \<lparr>user_id = 1, username = ''author''\<rparr>)
           (Some \<lparr>fd_text = ''first'', fd_group = None, fd_image_clear = False\<rparr>)) (demo_db\<lparr>clock := 1\<rparr>)))
         \<lparr>clock := 2\<rparr>))))"
proof -
  let ?u = "\<lparr>user_id = 1, username = ''author''\<rparr>"
  let ?d1 = "snd (dispatch PostCreate (ex_req (Some ?u)
           (Some \<lparr>fd_text = ''first'', fd_group = None, fd_image_clear = False\<rparr>)) (demo_db\<lparr>clock := 1\<rparr>))"
  let ?d2 = "snd (dispatch PostCreate (ex_req (Some ?u)
           (Some \<lparr>fd_text = ''second'', fd_group = Some 1, fd_image_clear = False\<rparr>)) (?d1\<lparr>clock := 2\<rparr>))"
  have "step demo_db ?d1"
    by (rule step.request) (simp_all add: demo_db_def empty_db_def session_ok_def ex_req_def)
  then have r1: "reachable ?d1" by (rule reachable.step [OF demo_db_reachable])
  have c1: "clock ?d1 = 1"
    by (simp add: dispatch_def post_create_def post_create_view_def login_required_def ex_req_def
        create_post_def Let_def)
  have u1: "users ?d1 = users demo_db"
    by (simp add: dispatch_def post_create_def post_create_view_def login_required_def ex_req_def
        create_post_def Let_def)
  have "step ?d1 ?d2"
    by (rule step.request) (unfold session_ok_def c1 u1, simp_all add: demo_db_def ex_req_def)
  then have "reachable ?d2" by (rule reachable.step [OF r1])
  from reachable_feeds_reverse_creation [OF this] show ?thesis by simp
qed

text \<open>
  C17. Invariant of the running system: in every state reachable from the empty store
  by requests and admin actions, the store satisfies its integrity constraints
  (unique keys, unique slugs and usernames, unique follow pairs, foreign keys naming
  existing rows, timestamps not in the future) and no user follows themself.
\<close>

theorem reachable_invariant:
  assumes "reachable d"
  shows "db_ok d \<and> no_self_follow d"
  using reachable_sys_inv [OF assms] by (simp add: sys_inv_def)

theorem reachable_invariant_witness:
  "db_ok (empty_db\<lparr>users := [\<lparr>user_id = 1, username = ''author''\<rparr>], user_seq := 2\<rparr>)
   \<and> no_self_follow (empty_db\<lparr>users := [\<lparr>user_id = 1, username = ''author''\<rparr>], user_seq := 2\<rparr>)"
proof -
  have "create_user empty_db ''author'' =
          Inr (\<lparr>user_id = 1, username = ''author''\<rparr>,
               empty_db\<lparr>users := [\<lparr>user_id = 1, username = ''author''\<rparr>], user_seq := 2\<rparr>)"
    by (simp add: create_user_def empty_db_def Let_def)
  then have "reachable (empty_db\<lparr>users := [\<lparr>user_id = 1, username = ''author''\<rparr>], user_seq := 2\<rparr>)"
    by (rule reachable.step [OF reachable.init step.admin_user])
  then show ?thesis by (rule reachable_invariant)
qed

text \<open>
  C21. No request fails with a server error: in every reachable state, a request with a
  valid session served at a later time gets a rendered page, a redirect or a 404 from
  every route; the lookups never find two rows and \<open>get_page\<close> never raises.
\<close>

theorem no_server_error:
  assumes "reachable d" and "clock d < t" and "session_ok d req"
  shows "fst (dispatch rt req (d\<lparr>clock := t\<rparr>)) \<noteq> Error500"
proof -
  from reachable_sys_inv [OF assms(1)] have "db_ok d" by (simp add: sys_inv_def)
  with assms(2) have ok: "db_ok (d\<lparr>clock := t\<rparr>)" by (simp add: db_ok_clock)
  have e: "outcome_of r = Error500 \<longleftrightarrow> r = ServerError" for r :: "'c response"
    by (cases r) simp_all
  show ?thesis
    using ok index_no_error group_posts_no_error profile_no_error post_detail_no_error
      post_create_no_error post_edit_no_error add_comment_no_error follow_index_no_error
      profile_follow_no_error profile_unfollow_no_error
    by (cases rt) (simp_all add: dispatch_def e apfst_def map_prod_def split_def)
qed

theorem no_server_error_witness:
  "fst (dispatch (GroupPosts ''none'') (ex_req None None) (empty_db\<lparr>clock := 5\<rparr>)) \<noteq> Error500"
  using no_server_error [OF reachable.init, of 5 "ex_req None None" "GroupPosts ''none''"]
  by (simp add: empty_db_def ex_req_def session_ok_def)

text \<open>
  C9. The admin's writes keep the store consistent: in every state reachable by requests,
  the admin actions of \<open>step\<close> and the change-list writes (a post's group, a new follow
  row), the store satisfies its integrity invariant and keeps its posts in strictly
  increasing \<open>pub_date\<close> order.
\<close>

theorem site_invariant:
  assumes "site_reachable d"
  shows "db_ok d \<and> sorted_wrt (<) (map pub_date (posts d))"
  using site_reachable_inv [OF assms] by (simp add: chronological_def)

theorem site_invariant_witness:
  "db_ok demo_db \<and> sorted_wrt (<) (map pub_date (posts demo_db))"
  by (rule site_invariant [OF reachable_site_reachable [OF demo_db_reachable]])

text \<open>
  C10. The admin's post list agrees with the index: in every reachable state of the site,
  ordering the posts by \<open>-pub_date\<close> and then \<open>-pk\<close>, as the change list does, gives
  the index's queryset, which is the posts in reverse creation order.
\<close>

theorem admin_order_matches_index:
  assumes "site_reachable d"
  shows "admin_order_posts (posts d) = all_posts d \<and> all_posts d = rev (posts d)"
proof -
  have "sorted_wrt (<) (map pub_date (posts d))"
    using site_reachable_inv [OF assms] by (simp add: chronological_def)
  then show ?thesis
    by (simp add: admin_order_posts_chronological order_posts_chronological all_posts_def)
qed

theorem admin_order_matches_index_witness:
  "admin_order_posts (posts demo_db) = all_posts demo_db \<and> all_posts demo_db = rev (posts demo_db)"
  by (rule admin_order_matches_index [OF reachable_site_reachable [OF demo_db_reachable]])

text \<open>
  C11. The no-self-follow rule is the view's alone. Take any state reachable by requests
  and the admin actions of \<open>step\<close>, and any user in it. That state has no
  self-follow row, yet one more admin action, the add form of \<open>FollowAdmin\<close> with the
  user as both \<open>user\<close> and \<open>author\<close>, succeeds. It leads to a consistent store of the
  site in which the user follows themself. \<open>models.py\<close> has no check constraint that
  would reject the row.
\<close>

theorem admin_self_follow_reachable:
  assumes reach: "reachable d" and u: "u \<in> set (users d)"
  shows "no_self_follow d
    \<and> (\<exists>d'. admin_step d d' \<and> site_reachable d' \<and> db_ok d'
           \<and> (user_id u, user_id u) \<in> follow_edges d')"
proof -
  have inv: "db_ok d" "no_self_follow d" using reachable_sys_inv [OF reach] by (simp_all add: sys_inv_def)
  let ?f = "\<lparr>follow_id = follow_seq d, follow_user = user_id u, follow_author = user_id u\<rparr>"
  let ?d = "d\<lparr>follows := follows d @ [?f], follow_seq := Suc (follow_seq d)\<rparr>"
  have "(user_id u, user_id u) \<notin> set (map follow_pair (follows d))"
    using inv(2) by (auto simp: no_self_follow_def)
  then have "admin_add_follow d (user_id u) (user_id u) = Inr (?f, ?d)"
    using u by (simp add: admin_add_follow_def Let_def)
  then have st: "admin_step d ?d" by (rule admin_step.add_follow)
  then have sr: "site_reachable ?d" by (rule site_reachable.admin [OF reachable_site_reachable [OF reach]])
  moreover have "db_ok ?d" using site_reachable_inv [OF sr] by simp
  moreover have "(user_id u, user_id u) \<in> follow_edges ?d" by (simp add: follow_edges_def)
  ultimately show ?thesis using inv(2) st by blast
qed

theorem admin_self_follow_reachable_witness:
  "no_self_follow demo_db
   \<and> (\<exists>d'. admin_step demo_db d' \<and> site_reachable d' \<and> db_ok d' \<and> (1, 1) \<in> follow_edges d')"
  using admin_self_follow_reachable [OF demo_db_reachable, of "\<lparr>user_id = 1, username = ''author''\<rparr>"]
  by (simp add: demo_db_def)

text \<open>
  C7. Following stays possible (a progress property): in every reachable state, an
  existing user can follow any other existing user by one request, and unfollow them
  again by the next one; no state of the system blocks either request.
\<close>

theorem follow_unfollow_live:
  assumes reach: "reachable d" and u: "u \<in> set (users d)" and a: "a \<in> set (users d)"
    and ne: "user_id u \<noteq> user_id a"
  shows "\<exists>d'. step d d' \<and> (user_id u, user_id a) \<in> follow_edges d'
     \<and> (\<exists>d''. step d' d'' \<and> (user_id u, user_id a) \<notin> follow_edges d'')"
proof -
  let ?r = "ex_req (Some u) None"
  let ?d0 = "d\<lparr>clock := Suc (clock d)\<rparr>"
  have ok: "db_ok d" using reachable_sys_inv [OF reach] by (simp add: sys_inv_def)
  then have ok0: "db_ok ?d0" by (simp add: db_ok_clock)
  have ru: "req_user ?r = Some u" by (simp add: ex_req_def)
  from profile_follow_result [OF ok0 ru] u a obtain d1
    where f1: "profile_follow (username a) ?r ?d0 = (Redirect (ProfileUrl (username a)), d1)"
      and e1: "follow_edges d1 = follow_spec (follow_edges ?d0) (user_id u) (user_id a)"
      and ok1: "db_ok d1" and same1: "users d1 = users d" "clock d1 = Suc (clock d)"
    by auto
  have "step d (snd (dispatch (ProfileFollow (username a)) ?r ?d0))"
    by (rule step.request) (simp_all add: session_ok_def ex_req_def u)
  then have s1: "step d d1" using f1 by (simp add: dispatch_def)
  have in1: "(user_id u, user_id a) \<in> follow_edges d1" using e1 ne by (simp add: follow_spec_def)
  let ?d1 = "d1\<lparr>clock := Suc (clock d1)\<rparr>"
  have ok1': "db_ok ?d1" using ok1 by (simp add: db_ok_clock)
  have a1: "a \<in> set (users ?d1)" using a same1 by simp
  from profile_unfollow_result [OF ok1' ru a1] obtain d2
    where f2: "profile_unfollow (username a) ?r ?d1 = (Redirect (ProfileUrl (username a)), d2)"
      and e2: "follow_edges d2 = unfollow_spec (follow_edges ?d1) (user_id u) (user_id a)"
    by auto
  have "step d1 (snd (dispatch (ProfileUnfollow (username a)) ?r ?d1))"
    by (rule step.request) (simp_all add: session_ok_def ex_req_def u same1)
  then have s2: "step d1 d2" using f2 by (simp add: dispatch_def)
  have "(user_id u, user_id a) \<notin> follow_edges d2" using e2 by (simp add: unfollow_spec_def)
  with s1 in1 s2 show ?thesis by blast
qed

theorem follow_unfollow_live_witness:
  "\<exists>d'. step demo_db d' \<and> (2, 1) \<in> follow_edges d'
     \<and> (\<exists>d''. step d' d'' \<and> (2, 1) \<notin> follow_edges d'')"
  using follow_unfollow_live [OF demo_db_reachable, of "\<lparr>user_id = 2, username = ''follower''\<rparr>"
      "\<lparr>user_id = 1, username = ''author''\<rparr>"]
  by (simp add: demo_db_def empty_db_def)

text \<open>
  C8. Every response has the shape its route allows: in every reachable state, a request
  served at a later time to each route gets only that route's template, the redirects its
  view issues (the login page for an anonymous request to a login-required view, the
  profile or the post otherwise) or a 404 where the view looks an object up.
\<close>

theorem request_outcome_typed:
  assumes "reachable d" and "clock d < t"
  shows "route_outcome_ok rt req (fst (dispatch rt req (d\<lparr>clock := t\<rparr>)))"
proof -
  have "db_ok d" using reachable_sys_inv [OF assms(1)] by (simp add: sys_inv_def)
  with assms(2) have "db_ok (d\<lparr>clock := t\<rparr>)" by (simp add: db_ok_clock)
  then show ?thesis by (rule dispatch_outcomes)
qed

theorem request_outcome_typed_witness:
  "route_outcome_ok PostCreate (ex_req None None)
     (fst (dispatch PostCreate (ex_req None None) (demo_db\<lparr>clock := 1\<rparr>)))
   \<and> fst (dispatch PostCreate (ex_req None None) (demo_db\<lparr>clock := 1\<rparr>)) = Redirected (LoginUrl ''/'')"
proof -
  have "clock demo_db < 1" by (simp add: demo_db_def empty_db_def)
  from request_outcome_typed [OF demo_db_reachable this, of PostCreate "ex_req None None"]
  show ?thesis by (simp add: login_outcome_def ex_req_def)
qed

end
